(* ===== verification/Prelude.thy ===== *)
theory Prelude
  imports Main "HOL-Library.State_Monad" "HOL-Library.List_Lexorder" "HOL-Library.Char_ord"
    "HOL-Library.Sublist"
begin

text \<open>
  What every component shares: the Go string functions the source calls, the shape of Go's
  error values, and a weakest-precondition calculus for the state monad in which the stateful
  operations are written.

  A Go \<^verbatim>\<open>string\<close> is a sequence of bytes, and so is a HOL \<open>string\<close> (a list of \<open>char\<close>, each one
  byte), so lengths, slices and comparisons agree with the source's. \<open>HOL-Library.List_Lexorder\<close>
  with \<open>HOL-Library.Char_ord\<close> gives the bytewise order of Go's \<^verbatim>\<open><\<close> on strings.
\<close>

named_theorems monad_simps "run and wp equations of the monadic operations"
named_theorems go_simps "equations of the modelled library functions"

section \<open>Go strings\<close>

text \<open>\<^verbatim>\<open>strings.Index(s, sub)\<close>: the first position of \<open>sub\<close>, \<open>None\<close> for -1.\<close>

fun str_index :: "string \<Rightarrow> string \<Rightarrow> nat option" where
  "str_index [] sub = (if sub = [] then Some 0 else None)"
| "str_index (c # cs) sub =
     (if prefix sub (c # cs) then Some 0 else map_option Suc (str_index cs sub))"

text \<open>\<^verbatim>\<open>strings.HasSuffix\<close>, \<^verbatim>\<open>strings.HasPrefix\<close> and \<^verbatim>\<open>strings.TrimPrefix\<close>.\<close>

definition HasSuffix :: "string \<Rightarrow> string \<Rightarrow> bool" where
  "HasSuffix s suf \<longleftrightarrow> suffix suf s"

definition TrimPrefix :: "string \<Rightarrow> string \<Rightarrow> string" where
  "TrimPrefix s p = (if prefix p s then drop (length p) s else s)"

text \<open>
  \<^verbatim>\<open>strings.TrimSpace\<close> drops leading and trailing white space runes: the six ASCII ones and
  the UTF-8 encodings of the others \<^verbatim>\<open>unicode.IsSpace\<close> accepts. \<open>lead_space\<close> is the
  byte length of a white space rune at the front, 0 if there is none.
\<close>

definition byte :: "nat \<Rightarrow> char" where
  "byte n = char_of n"

definition ascii_space :: "char \<Rightarrow> bool" where
  "ascii_space c \<longleftrightarrow> (let n = (of_char c :: nat) in n = 32 \<or> 9 \<le> n \<and> n \<le> 13)"

definition wide_spaces :: "string list" where
  "wide_spaces = map (map byte)
     ([[194, 133], [194, 160], [225, 154, 128], [226, 128, 168], [226, 128, 169],
       [226, 128, 175], [226, 129, 159], [227, 128, 128]]
      @ map (\<lambda>k. [226, 128, 128 + k]) [0..<11])"

definition lead_space :: "string \<Rightarrow> nat" where
  "lead_space s = (case s of [] \<Rightarrow> 0 | c # _ \<Rightarrow>
     (if ascii_space c then 1
      else case find (\<lambda>w. prefix w s) wide_spaces of None \<Rightarrow> 0 | Some w \<Rightarrow> length w))"

definition tail_space :: "string \<Rightarrow> nat" where
  "tail_space s = (if s = [] then 0
      else if ascii_space (last s) then 1
      else case find (\<lambda>w. suffix w s) wide_spaces of None \<Rightarrow> 0 | Some w \<Rightarrow> length w)"

function trim_left :: "string \<Rightarrow> string" where
  "trim_left s = (if lead_space s = 0 then s else trim_left (drop (lead_space s) s))"
  by pat_completeness auto
termination
proof (relation "measure length")
  fix s :: string
  assume "lead_space s \<noteq> 0"
  moreover from this have "s \<noteq> []" by (auto simp: lead_space_def)
  ultimately show "(drop (lead_space s) s, s) \<in> measure length" by simp
qed simp

function trim_right :: "string \<Rightarrow> string" where
  "trim_right s =
     (if tail_space s = 0 then s else trim_right (take (length s - tail_space s) s))"
  by pat_completeness auto
termination
proof (relation "measure length")
  fix s :: string
  assume "tail_space s \<noteq> 0"
  moreover from this have "s \<noteq> []" by (auto simp: tail_space_def)
  ultimately show "(take (length s - tail_space s) s, s) \<in> measure length" by simp
qed simp

declare trim_left.simps [simp del] trim_right.simps [simp del]

definition TrimSpace :: "string \<Rightarrow> string" where
  "TrimSpace s = trim_right (trim_left s)"

text \<open>
  \<^verbatim>\<open>strings.Split(s, sep)\<close> and \<^verbatim>\<open>strings.SplitN(s, sep, n)\<close> for a one-byte separator and
  \<open>n > 0\<close>: at most \<open>n\<close> parts, the last one unsplit.
\<close>

fun split_on :: "char \<Rightarrow> string \<Rightarrow> string list" where
  "split_on d [] = [[]]"
| "split_on d (c # cs) =
     (if c = d then [] # split_on d cs
      else (case split_on d cs of [] \<Rightarrow> [[c]] | p # ps \<Rightarrow> (c # p) # ps))"

fun splitN :: "char \<Rightarrow> nat \<Rightarrow> string \<Rightarrow> string list" where
  "splitN d 0 s = []"
| "splitN d (Suc 0) s = [s]"
| "splitN d (Suc (Suc n)) s =
     (if d \<in> set s
      then takeWhile (\<lambda>c. c \<noteq> d) s # splitN d (Suc n) (tl (dropWhile (\<lambda>c. c \<noteq> d) s))
      else [s])"

text \<open>\<^verbatim>\<open>strings.Repeat(s, n)\<close> panics for a negative count: \<open>None\<close>.\<close>

definition Repeat :: "string \<Rightarrow> int \<Rightarrow> string option" where
  "Repeat s n = (if n < 0 then None else Some (concat (replicate (nat n) s)))"

lemma str_index_Some:
  "str_index s sub = Some i \<Longrightarrow> i + length sub \<le> length s \<and> take (length sub) (drop i s) = sub"
proof (induction s sub arbitrary: i rule: str_index.induct)
  case (2 c cs sub)
  show ?case
  proof (cases "prefix sub (c # cs)")
    case True
    with "2.prems" have "i = 0" by simp
    with True show ?thesis
      using prefix_length_le [OF True] by (auto simp: prefix_def)
  next
    case False
    with "2.prems" obtain j where "i = Suc j" "str_index cs sub = Some j" by auto
    with "2.IH" [OF False] show ?thesis by auto
  qed
qed (auto split: if_splits)

lemma str_index_None: "str_index s sub = None \<longleftrightarrow> \<not> sublist sub s"
proof (induction s sub rule: str_index.induct)
  case (2 c cs sub)
  then show ?case by (auto simp: sublist_Cons_right)
qed auto

lemma split_on_nonempty [simp]: "split_on d s \<noteq> []"
  by (induction d s rule: split_on.induct) (auto split: list.splits)

lemma split_on_no_sep [simp]: "d \<notin> set s \<Longrightarrow> split_on d s = [s]"
  by (induction s) auto

lemma split_on_append:
  "d \<notin> set s \<Longrightarrow> split_on d (s @ d # t) = s # split_on d t"
  by (induction s) auto

lemma splitN_no_sep [simp]: "d \<notin> set s \<Longrightarrow> 0 < n \<Longrightarrow> splitN d n s = [s]"
  by (cases "(d, n, s)" rule: splitN.cases) auto

lemma splitN_append:
  "d \<notin> set s \<Longrightarrow> splitN d (Suc (Suc n)) (s @ d # t) = s # splitN d (Suc n) t"
  by (induction s) auto

lemma HasSuffix_append [simp]: "HasSuffix (s @ t) t"
  by (simp add: HasSuffix_def suffix_def)

lemma TrimPrefix_append [simp]: "TrimPrefix (p @ s) p = s"
  by (simp add: TrimPrefix_def)

section \<open>Decimal rendering of integers: \<^verbatim>\<open>%d\<close> and \<^verbatim>\<open>strconv.Itoa\<close>\<close>

definition digit_char :: "nat \<Rightarrow> char" where
  "digit_char n = ''0123456789'' ! n"

fun nat_digits :: "nat \<Rightarrow> string" where
  "nat_digits n =
     (if n < 10 then [digit_char n] else nat_digits (n div 10) @ [digit_char (n mod 10)])"

declare nat_digits.simps [simp del]

lemma nat_digits_literal [go_simps]:
  "nat_digits 0 = ''0''" "nat_digits 1 = ''1''" "nat_digits (Suc 0) = ''1''"
  "nat_digits (numeral k) = (if numeral k < (10 :: nat) then [digit_char (numeral k)]
     else nat_digits (numeral k div 10) @ [digit_char (numeral k mod 10)])"
  by (simp_all add: nat_digits.simps [of "numeral k"] nat_digits.simps [of 0]
      nat_digits.simps [of "Suc 0"] digit_char_def)

definition Itoa :: "int \<Rightarrow> string" where
  "Itoa i = (if i < 0 then CHR ''-'' # nat_digits (nat (- i)) else nat_digits (nat i))"

text \<open>\<^verbatim>\<open>%q\<close> of a string without characters that need an escape.\<close>

definition quoted :: "string \<Rightarrow> string" where
  "quoted s = [CHR 0x22] @ s @ [CHR 0x22]"

section \<open>Error values\<close>

text \<open>
  A Go \<^verbatim>\<open>error\<close>: \<open>Err\<close> for \<^verbatim>\<open>errors.New\<close> and for what a service or the library returns,
  \<open>Wrap\<close> for \<^verbatim>\<open>fmt.Errorf("...: %w", err)\<close>, \<open>WrapNil\<close> for the same with a nil \<^verbatim>\<open>err\<close> (the
  value is an error all the same). \<open>Panic\<close> is a run-time panic: it unwinds the handler through
  the deferred rollbacks, as an error return does, and then ends the process.
\<close>

datatype goerr = Err string | Wrap string goerr | WrapNil string | Panic string

fun err_str :: "goerr \<Rightarrow> string" where
  "err_str (Err m) = m"
| "err_str (Wrap m e) = m @ '': '' @ err_str e"
| "err_str (WrapNil m) = m @ '': %!w(<nil>)''"
| "err_str (Panic m) = m"

fun is_panic :: "goerr \<Rightarrow> bool" where
  "is_panic (Panic _) = True"
| "is_panic _ = False"

type_synonym 'a res = "goerr + 'a"

section \<open>The state monad and its weakest preconditions\<close>

abbreviation ret :: "'a \<Rightarrow> ('s, 'a) state" where
  "ret \<equiv> State_Monad.return"

definition gets :: "('s \<Rightarrow> 'a) \<Rightarrow> ('s, 'a) state" where
  "gets f = State (\<lambda>s. (f s, s))"

definition modify :: "('s \<Rightarrow> 's) \<Rightarrow> ('s, unit) state" where
  "modify f = State (\<lambda>s. ((), f s))"

lemma run_gets [simp]: "run_state (gets f) s = (f s, s)"
  by (simp add: gets_def)

lemma run_modify [simp]: "run_state (modify f) s = ((), f s)"
  by (simp add: modify_def)

text \<open>\<open>wp m Q s\<close>: the run of \<open>m\<close> from \<open>s\<close> ends with a result and a state that satisfy \<open>Q\<close>.\<close>

definition wp :: "('s, 'a) state \<Rightarrow> ('a \<Rightarrow> 's \<Rightarrow> bool) \<Rightarrow> 's \<Rightarrow> bool" where
  "wp m Q s = (case run_state m s of (a, s') \<Rightarrow> Q a s')"

lemma wp_return [simp, monad_simps]: "wp (ret x) Q s = Q x s"
  by (simp add: wp_def)

lemma wp_bind [simp, monad_simps]: "wp (State_Monad.bind m f) Q s = wp m (\<lambda>a. wp (f a) Q) s"
  by (simp add: wp_def split: prod.splits)

lemma wp_gets [simp, monad_simps]: "wp (gets f) Q s = Q (f s) s"
  by (simp add: wp_def)

lemma wp_modify [simp, monad_simps]: "wp (modify f) Q s = Q () (f s)"
  by (simp add: wp_def)

lemma wp_if [monad_simps]: "wp (if b then m else n) Q s = (if b then wp m Q s else wp n Q s)"
  by simp

lemma wp_mono: "wp m Q s \<Longrightarrow> (\<And>a s'. Q a s' \<Longrightarrow> R a s') \<Longrightarrow> wp m R s"
  by (auto simp: wp_def split: prod.splits)

lemma wp_conj: "wp m Q s \<Longrightarrow> wp m R s \<Longrightarrow> wp m (\<lambda>a s'. Q a s' \<and> R a s') s"
  by (auto simp: wp_def split: prod.splits)

lemma wp_conj_imp: "wp m P s \<Longrightarrow> wp m Q s \<Longrightarrow> (\<And>a t. P a t \<Longrightarrow> Q a t \<Longrightarrow> R a t) \<Longrightarrow> wp m R s"
  by (auto simp: wp_def split: prod.splits)

lemma wp_run: "run_state m s = (a, s') \<Longrightarrow> wp m Q s = Q a s'"
  by (simp add: wp_def)

lemma wpI: "(\<And>a s'. run_state m s = (a, s') \<Longrightarrow> Q a s') \<Longrightarrow> wp m Q s"
  by (auto simp: wp_def split: prod.splits)

text \<open>
  \<open>keeps P m\<close>: every run of \<open>m\<close> preserves \<open>P\<close>. The rules build frame properties of a whole
  handler from those of its statements, without unfolding a single path.
\<close>

definition keeps :: "('s \<Rightarrow> bool) \<Rightarrow> ('s, 'a) state \<Rightarrow> bool" where
  "keeps P m \<longleftrightarrow> (\<forall>s. P s \<longrightarrow> P (snd (run_state m s)))"

named_theorems keeps_rules "introduction rules for keeps"

lemma keepsI: "(\<And>s a s'. P s \<Longrightarrow> run_state m s = (a, s') \<Longrightarrow> P s') \<Longrightarrow> keeps P m"
  unfolding keeps_def by (metis prod.collapse)

lemma keepsD: "keeps P m \<Longrightarrow> P s \<Longrightarrow> run_state m s = (a, s') \<Longrightarrow> P s'"
  by (auto simp: keeps_def dest: spec [of _ s])

lemma keeps_return [keeps_rules]: "keeps P (ret x)"
  by (simp add: keeps_def)

lemma keeps_bind [keeps_rules]:
  "keeps P m \<Longrightarrow> (\<And>a. keeps P (f a)) \<Longrightarrow> keeps P (State_Monad.bind m f)"
  by (fastforce simp: keeps_def split: prod.splits)

lemma keeps_gets [keeps_rules]: "keeps P (gets f)"
  by (simp add: keeps_def)

lemma keeps_if [keeps_rules]:
  "(b \<Longrightarrow> keeps P m) \<Longrightarrow> (\<not> b \<Longrightarrow> keeps P n) \<Longrightarrow> keeps P (if b then m else n)"
  by simp

lemma keeps_case_option [keeps_rules]:
  "keeps P m \<Longrightarrow> (\<And>x. keeps P (f x)) \<Longrightarrow> keeps P (case v of None \<Rightarrow> m | Some x \<Rightarrow> f x)"
  by (cases v) auto

lemma keeps_case_sum [keeps_rules]:
  "(\<And>x. keeps P (f x)) \<Longrightarrow> (\<And>y. keeps P (g y)) \<Longrightarrow> keeps P (case v of Inl x \<Rightarrow> f x | Inr y \<Rightarrow> g y)"
  by (cases v) auto

lemma keeps_case_prod [keeps_rules]:
  "(\<And>x y. keeps P (f x y)) \<Longrightarrow> keeps P (case v of (x, y) \<Rightarrow> f x y)"
  by (cases v) auto

lemma keeps_case_list [keeps_rules]:
  "keeps P m \<Longrightarrow> (\<And>x xs. keeps P (f x xs)) \<Longrightarrow> keeps P (case v of [] \<Rightarrow> m | x # xs \<Rightarrow> f x xs)"
  by (cases v) auto

lemma keeps_wp: "keeps P m \<Longrightarrow> P s \<Longrightarrow> wp m (\<lambda>_. P) s"
  by (auto simp: keeps_def wp_def split: prod.splits)

text \<open>A \<^verbatim>\<open>for ... range\<close> loop whose body may change the state.\<close>

fun for_each :: "'a list \<Rightarrow> ('a \<Rightarrow> ('s, unit) state) \<Rightarrow> ('s, unit) state" where
  "for_each [] f = ret ()"
| "for_each (x # xs) f = do { f x; for_each xs f }"

lemma keeps_for_each [keeps_rules]:
  "(\<And>x. x \<in> set xs \<Longrightarrow> keeps P (f x)) \<Longrightarrow> keeps P (for_each xs f)"
  by (induction xs) (auto intro!: keeps_rules)

section \<open>Lists\<close>

text \<open>A SQL \<^verbatim>\<open>UPDATE ... WHERE\<close> over a table's rows.\<close>

definition update_where :: "('r \<Rightarrow> bool) \<Rightarrow> ('r \<Rightarrow> 'r) \<Rightarrow> 'r list \<Rightarrow> 'r list" where
  "update_where p f rs = map (\<lambda>r. if p r then f r else r) rs"

lemma length_update_where [simp]: "length (update_where p f rs) = length rs"
  by (simp add: update_where_def)

lemma update_where_none: "(\<And>r. r \<in> set rs \<Longrightarrow> \<not> p r) \<Longrightarrow> update_where p f rs = rs"
  by (simp add: update_where_def map_idI)

lemma in_update_where:
  "r' \<in> set (update_where p f rs) \<longleftrightarrow> (\<exists>r \<in> set rs. r' = (if p r then f r else r))"
  by (auto simp: update_where_def)

lemma map_update_where:
  "(\<And>r. g (f r) = g r) \<Longrightarrow> map g (update_where p f rs) = map g rs"
  by (simp add: update_where_def)

lemma filter_update_where:
  "(\<And>r. p r \<Longrightarrow> \<not> q r) \<Longrightarrow> (\<And>r. p r \<Longrightarrow> \<not> q (f r)) \<Longrightarrow>
     filter q (update_where p f rs) = filter q rs"
  by (induction rs) (auto simp: update_where_def)

lemma find_Some_in: "find p xs = Some x \<Longrightarrow> x \<in> set xs \<and> p x"
  by (induction xs) (auto split: if_splits)

lemma find_None_all: "find p xs = None \<longleftrightarrow> (\<forall>x \<in> set xs. \<not> p x)"
  by (induction xs) auto

lemma find_filter: "find p (filter q xs) = find (\<lambda>x. q x \<and> p x) xs"
  by (induction xs) auto

lemma find_cong': "(\<And>x. x \<in> set xs \<Longrightarrow> p x = q x) \<Longrightarrow> find p xs = find q xs"
  by (induction xs) auto

fun first_some :: "('a \<Rightarrow> 'b option) \<Rightarrow> 'a list \<Rightarrow> 'b option" where
  "first_some f [] = None"
| "first_some f (x # xs) = (case f x of None \<Rightarrow> first_some f xs | Some y \<Rightarrow> Some y)"

text \<open>\<^verbatim>\<open>ORDER BY ... LIMIT 1\<close>: the first row, in table order, of the least rank.\<close>

lemma find_sort_key: "find (\<lambda>x. f x = k) (sort_key f xs) = find (\<lambda>x. f x = k) xs"
proof -
  have "find p ys = (case filter p ys of [] \<Rightarrow> None | y # _ \<Rightarrow> Some y)" for p and ys :: "'a list"
    by (induction ys) auto
  then show ?thesis by (simp add: sort_key_stable)
qed

lemma sort_key_first:
  fixes f :: "'a \<Rightarrow> nat"
  assumes "\<forall>x \<in> set xs. f x < n"
  shows "(case sort_key f xs of [] \<Rightarrow> None | r # _ \<Rightarrow> Some r)
    = first_some (\<lambda>k. find (\<lambda>x. f x = k) xs) [0..<n]"
proof (cases "sort_key f xs")
  case Nil
  then have "xs = []" by (metis sort_key_simps(1) length_0_conv length_sort)
  then have "first_some (\<lambda>k. find (\<lambda>x. f x = k) xs) ks = None" for ks by (induction ks) auto
  with Nil show ?thesis by simp
next
  case (Cons r rs)
  have low: "find (\<lambda>x. f x = k) xs = None" if "k < f r" for k
  proof -
    have "sorted (map f (r # rs))" using sorted_sort_key [of f xs] Cons by simp
    then have "find (\<lambda>x. f x = k) (sort_key f xs) = None"
      using that by (auto simp: Cons find_None_all)
    then show ?thesis by (simp add: find_sort_key)
  qed
  have hit: "find (\<lambda>x. f x = f r) xs = Some r"
    using find_sort_key [of f "f r" xs] Cons by simp
  have skip: "first_some g (ks @ k # l) = Some y" if "\<forall>i \<in> set ks. g i = None" "g k = Some y"
    for g :: "nat \<Rightarrow> 'a option" and ks k l y
    using that by (induction ks) auto
  have "r \<in> set xs" using find_Some_in [OF hit] by simp
  then have "[0..<n] = [0..<f r] @ f r # [Suc (f r)..<n]"
    using assms upt_add_eq_append [of 0 "f r" "n - f r"] upt_conv_Cons [of "f r" n] by auto
  then show ?thesis
    using skip [of "[0..<f r]" _ "f r"] low hit by (simp add: Cons)
qed

end
