(* ===== verification/Go_Float.thy ===== *)
theory Go_Float
  imports Prelude "HOL-Library.Word"
begin

text \<open>
  Go's \<^verbatim>\<open>float64\<close> and the two \<^verbatim>\<open>strconv\<close> functions the condition evaluator calls. A finite
  value is sign, mantissa and binary exponent, \<open>(-1)^s * m * 2^e\<close>, in IEEE normal form
  (\<open>normal\<close> below). \<open>ParseFloat\<close> reads the decimal and hexadecimal syntax of Go's floating-point
  literals and rounds to nearest, ties to even; \<open>FormatFloat_g\<close> is
  \<^verbatim>\<open>strconv.FormatFloat(x, 'g', -1, 64)\<close>, the shortest decimal that reads back as \<open>x\<close>.
\<close>

section \<open>Values, rounding and comparison\<close>

datatype f64 = FNaN | FInf bool | FFin bool nat int

fun normal :: "f64 \<Rightarrow> bool" where
  "normal (FFin s m e) \<longleftrightarrow> m < 2 ^ 53 \<and> -1074 \<le> e \<and> e \<le> 971 \<and> (2 ^ 52 \<le> m \<or> e = -1074)"
| "normal _ = True"

fun bitlen :: "nat \<Rightarrow> nat" where
  "bitlen n = (if n = 0 then 0 else Suc (bitlen (n div 2)))"

declare bitlen.simps [simp del]

lemma bitlen_literal [go_simps]:
  "bitlen 0 = 0" "bitlen 1 = 1" "bitlen (Suc 0) = 1"
  "bitlen (numeral k) = Suc (bitlen (numeral k div 2))"
  by (simp_all add: bitlen.simps [of "numeral k"] bitlen.simps [of 0] bitlen.simps [of "Suc 0"])

definition round_half_even :: "nat \<Rightarrow> nat \<Rightarrow> nat" where
  "round_half_even n d = (let q = n div d; r = n mod d in
     if 2 * r < d \<or> 2 * r = d \<and> even q then q else Suc q)"

definition scale_ratio :: "nat \<Rightarrow> nat \<Rightarrow> int \<Rightarrow> nat \<times> nat" where
  "scale_ratio n d e = (if e \<ge> 0 then (n, d * 2 ^ nat e) else (n * 2 ^ nat (- e), d))"

text \<open>The float64 nearest to \<open>n / d\<close>, with the given sign.\<close>

definition f64_exponent :: "nat \<Rightarrow> nat \<Rightarrow> int" where
  "f64_exponent n d = (let e0 = int (bitlen n) - int (bitlen d) - 53;
       (a, b) = scale_ratio n d e0 in
     max (-1074) (if b * 2 ^ 53 \<le> a then e0 + 1 else e0))"

definition round_f64 :: "bool \<Rightarrow> nat \<Rightarrow> nat \<Rightarrow> f64" where
  "round_f64 s n d =
     (if n = 0 then FFin s 0 (-1074)
      else let e = f64_exponent n d;
               (a, b) = scale_ratio n d e;
               m = round_half_even a b;
               (m', e') = (if m = 2 ^ 53 then (2 ^ 52, e + 1) else (m, e))
           in if e' > 971 then FInf s else FFin s m' e')"

fun f64_neg :: "f64 \<Rightarrow> bool" where
  "f64_neg (FInf s) = s"
| "f64_neg (FFin s m e) = s"
| "f64_neg FNaN = False"

definition signed_mant :: "bool \<Rightarrow> nat \<Rightarrow> int" where
  "signed_mant s m = (if s then - int m else int m)"

fun f64_lt :: "f64 \<Rightarrow> f64 \<Rightarrow> bool" where
  "f64_lt FNaN y = False"
| "f64_lt x FNaN = False"
| "f64_lt (FInf s) y = (s \<and> y \<noteq> FInf True)"
| "f64_lt x (FInf s) = (\<not> s)"
| "f64_lt (FFin s m e) (FFin t n f) = (let g = min e f in
     signed_mant s m * 2 ^ nat (e - g) < signed_mant t n * 2 ^ nat (f - g))"

fun f64_eq :: "f64 \<Rightarrow> f64 \<Rightarrow> bool" where
  "f64_eq FNaN y = False"
| "f64_eq x FNaN = False"
| "f64_eq (FInf s) y = (y = FInf s)"
| "f64_eq x (FInf s) = False"
| "f64_eq (FFin s m e) (FFin t n f) = (let g = min e f in
     signed_mant s m * 2 ^ nat (e - g) = signed_mant t n * 2 ^ nat (f - g))"

definition f64_le :: "f64 \<Rightarrow> f64 \<Rightarrow> bool" where
  "f64_le x y \<longleftrightarrow> f64_lt x y \<or> f64_eq x y"

text \<open>\<^verbatim>\<open>float64(x)\<close> of an \<^verbatim>\<open>int\<close> or \<^verbatim>\<open>int64\<close>.\<close>

definition f64_of_int :: "int \<Rightarrow> f64" where
  "f64_of_int i = round_f64 (i < 0) (nat \<bar>i\<bar>) 1"

definition f64_is_zero :: "f64 \<Rightarrow> bool" where
  "f64_is_zero x = f64_eq x (FFin False 0 (-1074))"

section \<open>\<^verbatim>\<open>strconv.ParseFloat(s, 64)\<close>\<close>

definition ccode :: "char \<Rightarrow> nat" where "ccode c = of_char c"

definition lower_c :: "char \<Rightarrow> char" where
  "lower_c c = (if 65 \<le> ccode c \<and> ccode c \<le> 90 then char_of (ccode c + 32) else c)"

definition dec_digit :: "char \<Rightarrow> nat option" where
  "dec_digit c = (if 48 \<le> ccode c \<and> ccode c \<le> 57 then Some (ccode c - 48) else None)"

definition hex_digit :: "char \<Rightarrow> nat option" where
  "hex_digit c = (case dec_digit c of Some d \<Rightarrow> Some d
     | None \<Rightarrow> (let l = ccode (lower_c c) in if 97 \<le> l \<and> l \<le> 102 then Some (l - 87) else None))"

definition digit_of :: "bool \<Rightarrow> char \<Rightarrow> nat option" where
  "digit_of hx c = (if hx then hex_digit c else dec_digit c)"

text \<open>
  \<^verbatim>\<open>readFloat\<close>'s digit loop: the mantissa so far, the digits after the dot, whether a digit and
  a dot were seen; it stops at the first character it does not know and returns the rest.
\<close>

fun read_mant :: "bool \<Rightarrow> string \<Rightarrow> nat \<Rightarrow> nat \<Rightarrow> bool \<Rightarrow> bool \<Rightarrow> nat \<times> nat \<times> bool \<times> string" where
  "read_mant hx [] m fr sawd dot = (m, fr, sawd, [])"
| "read_mant hx (c # cs) m fr sawd dot =
     (if c = CHR ''_'' then read_mant hx cs m fr sawd dot
      else if c = CHR ''.'' then
        (if dot then (m, fr, sawd, c # cs) else read_mant hx cs m fr sawd True)
      else case digit_of hx c of
        Some d \<Rightarrow> read_mant hx cs (m * (if hx then 16 else 10) + d)
                    (if dot then Suc fr else fr) True dot
      | None \<Rightarrow> (m, fr, sawd, c # cs))"

text \<open>The exponent's digits: it stops growing at 10000, as the source's \<^verbatim>\<open>e < 10000\<close> guard says.\<close>

fun read_exp :: "string \<Rightarrow> nat \<Rightarrow> nat \<times> string" where
  "read_exp [] e = (e, [])"
| "read_exp (c # cs) e =
     (if c = CHR ''_'' then read_exp cs e
      else case dec_digit c of
        Some d \<Rightarrow> read_exp cs (if e < 10000 then e * 10 + d else e)
      | None \<Rightarrow> (e, c # cs))"

text \<open>\<^verbatim>\<open>underscoreOK\<close>: every underscore stands between digits (or after a base prefix).\<close>

fun underscore_loop :: "bool \<Rightarrow> char \<Rightarrow> string \<Rightarrow> bool" where
  "underscore_loop hx saw [] = (saw \<noteq> CHR ''_'')"
| "underscore_loop hx saw (c # cs) =
     (if digit_of hx c \<noteq> None then underscore_loop hx CHR ''0'' cs
      else if c = CHR ''_'' then saw = CHR ''0'' \<and> underscore_loop hx CHR ''_'' cs
      else saw \<noteq> CHR ''_'' \<and> underscore_loop hx CHR ''!'' cs)"

definition drop_sign :: "string \<Rightarrow> bool \<times> string" where
  "drop_sign s = (case s of [] \<Rightarrow> (False, [])
     | c # cs \<Rightarrow> if c = CHR ''-'' then (True, cs) else if c = CHR ''+'' then (False, cs) else (False, s))"

definition underscoreOK :: "string \<Rightarrow> bool" where
  "underscoreOK s = (case snd (drop_sign s) of
       c0 # c1 # cs \<Rightarrow>
         (if c0 = CHR ''0'' \<and> lower_c c1 \<in> {CHR ''b'', CHR ''o'', CHR ''x''}
          then underscore_loop (lower_c c1 = CHR ''x'') CHR ''0'' cs
          else underscore_loop False CHR ''^'' (c0 # c1 # cs))
     | t \<Rightarrow> underscore_loop False CHR ''^'' t)"

text \<open>\<^verbatim>\<open>special\<close>: the spellings of infinity and NaN (NaN takes no sign).\<close>

definition special_float :: "string \<Rightarrow> f64 option" where
  "special_float s = (let (neg, t) = drop_sign s; l = map lower_c t in
     if l = ''inf'' \<or> l = ''infinity'' then Some (FInf neg)
     else if map lower_c s = ''nan'' then Some FNaN else None)"

text \<open>
  \<^verbatim>\<open>readFloat\<close> on the whole string: sign, mantissa, the exponent of its last digit, and whether
  the base is 16. \<open>None\<close> is a syntax error.
\<close>

definition read_float :: "string \<Rightarrow> (bool \<times> nat \<times> int \<times> bool) option" where
  "read_float s = (let (neg, t) = drop_sign s;
       hx = (length t > 2 \<and> t ! 0 = CHR ''0'' \<and> lower_c (t ! 1) = CHR ''x'');
       (m, fr, sawd, rest) = read_mant hx (if hx then drop 2 t else t) 0 0 False False;
       ok = (CHR ''_'' \<notin> set s \<or> underscoreOK s) in
     if \<not> sawd then None
     else case rest of
       [] \<Rightarrow> if hx \<or> \<not> ok then None else Some (neg, m, - int fr, hx)
     | c # cs \<Rightarrow>
         if lower_c c \<noteq> (if hx then CHR ''p'' else CHR ''e'') then None
         else let (eneg, ds) = drop_sign cs in
           (case ds of [] \<Rightarrow> None
            | d # _ \<Rightarrow> if dec_digit d = None then None
               else let (e, left) = read_exp ds 0; ee = (if eneg then - int e else int e) in
                 if left \<noteq> [] \<or> \<not> ok then None
                 else Some (neg, m, (if hx then ee - 4 * int fr else ee - int fr), hx)))"

definition f64_of_parts :: "bool \<Rightarrow> nat \<Rightarrow> int \<Rightarrow> bool \<Rightarrow> f64" where
  "f64_of_parts neg m e hx = (let b = (if hx then 2 else 10 :: nat) in
     if e \<ge> 0 then round_f64 neg (m * b ^ nat e) 1 else round_f64 neg m (b ^ nat (- e)))"

text \<open>\<open>None\<close> is any error: bad syntax, or a finite literal out of range (\<^verbatim>\<open>ErrRange\<close>).\<close>

definition ParseFloat :: "string \<Rightarrow> f64 option" where
  "ParseFloat s = (case special_float s of Some x \<Rightarrow> Some x
     | None \<Rightarrow> (case read_float s of None \<Rightarrow> None
         | Some (neg, m, e, hx) \<Rightarrow>
             (case f64_of_parts neg m e hx of FInf _ \<Rightarrow> None | x \<Rightarrow> Some x)))"

section \<open>\<^verbatim>\<open>strconv.FormatFloat(x, 'g', -1, 64)\<close>\<close>

definition ndigits :: "nat \<Rightarrow> nat" where "ndigits n = length (nat_digits n)"

definition f64_ratio :: "nat \<Rightarrow> int \<Rightarrow> nat \<times> nat" where
  "f64_ratio m e = (if e \<ge> 0 then (m * 2 ^ nat e, 1) else (m, 2 ^ nat (- e)))"

text \<open>The decimal point position: \<open>10^(dp-1) \<le> p / q < 10^dp\<close>.\<close>

definition dec_point :: "nat \<Rightarrow> nat \<Rightarrow> int" where
  "dec_point p q = (let k = int (ndigits p) - int (ndigits q) in
     if (if k \<ge> 0 then q * 10 ^ nat k \<le> p else q \<le> p * 10 ^ nat (- k)) then k + 1 else k)"

text \<open>\<open>p / q\<close> in units of \<open>10^k\<close>.\<close>

definition in_units :: "nat \<Rightarrow> nat \<Rightarrow> int \<Rightarrow> nat \<times> nat" where
  "in_units p q k = (if k \<ge> 0 then (p, q * 10 ^ nat k) else (p * 10 ^ nat (- k), q))"

definition reads_back :: "nat \<Rightarrow> int \<Rightarrow> nat \<Rightarrow> int \<Rightarrow> bool" where
  "reads_back m e c k \<longleftrightarrow> f64_of_parts False c k False = FFin False m e"

text \<open>
  The shortest digits: with \<open>n\<close> digits the value lies between the decimals \<open>c\<close> and \<open>c + 1\<close>
  (units of \<open>10^(dp-n)\<close>); one of them is taken when it reads back, the nearer when both do.
  Seventeen digits always read back; the function stops there.
\<close>

definition short_digits :: "nat \<Rightarrow> int \<Rightarrow> nat \<Rightarrow> (nat \<times> int) option" where
  "short_digits m e n = (let (p, q) = f64_ratio m e; dp = dec_point p q; k = dp - int n;
       (a, b) = in_units p q k; c = a div b;
       dn = reads_back m e c k; up = reads_back m e (Suc c) k in
     if dn \<and> up then Some (round_half_even a b, k)
     else if dn then Some (c, k) else if up then Some (Suc c, k) else None)"

definition shortest :: "nat \<Rightarrow> int \<Rightarrow> nat \<times> int" where
  "shortest m e = (case first_some (short_digits m e)
       [1, 2, 3, 4, 5, 6, 7, 8, 9, 10, 11, 12, 13, 14, 15, 16, 17] of
       Some r \<Rightarrow> r | None \<Rightarrow> (0, 0))"

definition trim_zeros :: "string \<Rightarrow> string" where
  "trim_zeros ds = rev (dropWhile (\<lambda>c. c = CHR ''0'') (rev ds))"

definition fmt_e :: "string \<Rightarrow> int \<Rightarrow> string" where
  "fmt_e ds x = (take 1 ds @ (if length ds > 1 then CHR ''.'' # drop 1 ds else [])
     @ ''e'' @ (if x < 0 then ''-'' else ''+'')
     @ (let a = nat \<bar>x\<bar> in (if a < 10 then ''0'' else []) @ nat_digits a))"

definition fmt_f :: "string \<Rightarrow> int \<Rightarrow> string" where
  "fmt_f ds dp = (let n = nat dp;
       whole = take n ds @ replicate (n - length ds) CHR ''0'';
       frac = replicate (nat (- dp)) CHR ''0'' @ drop n ds in
     (if whole = [] then ''0'' else whole) @ (if drop n ds = [] then [] else CHR ''.'' # frac))"

fun FormatFloat_g :: "f64 \<Rightarrow> string" where
  "FormatFloat_g FNaN = ''NaN''"
| "FormatFloat_g (FInf s) = (if s then ''-Inf'' else ''+Inf'')"
| "FormatFloat_g (FFin s m e) = (if s then ''-'' else []) @
     (if m = 0 then ''0''
      else let (c, k) = shortest m e; ds0 = nat_digits c; dp = int (length ds0) + k;
               ds = trim_zeros ds0; x = dp - 1 in
        if x < -4 \<or> 6 \<le> x then fmt_e ds x
        else fmt_f ds dp)"

text \<open>The equations that evaluate a float on a literal input.\<close>

lemmas float_simps = ParseFloat_def special_float_def drop_sign_def read_float_def lower_c_def
  ccode_def dec_digit_def hex_digit_def digit_of_def f64_of_parts_def round_f64_def
  f64_exponent_def scale_ratio_def round_half_even_def signed_mant_def underscoreOK_def
  shortest_def short_digits_def f64_ratio_def dec_point_def ndigits_def in_units_def
  reads_back_def trim_zeros_def fmt_e_def fmt_f_def digit_char_def go_simps

lemma f64_lt_irrefl [simp]: "\<not> f64_lt x x"
  by (cases x) auto

lemma f64_eq_FNaN [simp]: "\<not> f64_eq x FNaN"
  by (cases x) auto

lemma f64_eq_refl: "f64_eq x x \<longleftrightarrow> x \<noteq> FNaN"
  by (cases x) auto

lemma f64_eq_sym: "f64_eq x y = f64_eq y x"
  by (cases "(x, y)" rule: f64_eq.cases) (auto simp: Let_def min.commute)

text \<open>Any two values that are not NaN are ordered one way, the other, or equal.\<close>

lemma f64_trichotomy:
  "x \<noteq> FNaN \<Longrightarrow> y \<noteq> FNaN \<Longrightarrow> f64_lt x y \<or> f64_eq x y \<or> f64_lt y x"
  by (cases "(x, y)" rule: f64_lt.cases) (auto simp: Let_def min.commute)

lemma f64_eq_not_lt: "f64_eq x y \<Longrightarrow> \<not> f64_lt x y"
  by (cases "(x, y)" rule: f64_lt.cases) (auto simp: Let_def)

lemma f64_lt_asym: "f64_lt x y \<Longrightarrow> \<not> f64_lt y x"
  by (cases "(x, y)" rule: f64_lt.cases) (auto simp: Let_def min.commute)

end
