(* ===== verification/Go_Values.thy ===== *)
theory Go_Values
  imports Go_Float "HOL-Library.AList"
begin

text \<open>
  Go's dynamic values (\<^verbatim>\<open>any\<close>) as \<^verbatim>\<open>encoding/json\<close> builds them, and the part of \<^verbatim>\<open>encoding/json\<close>
  the handlers rely on. A wire message or an HTTP body is a \<open>gval\<close> once its text parses; text
  that does not parse is \<open>None\<close> where a component reads one. \<open>GObj\<close> keeps the members in the
  order of the text, duplicates included: in a Go map the last one wins, in a struct each member
  whose name matches the field up to case is assigned in turn, and \<^verbatim>\<open>null\<close> assigns nothing.
\<close>

datatype gval =
    GNil
  | GBool bool
  | GInt int
  | GInt64 int
  | GNum f64
  | GStr string
  | GArr "gval list"
  | GObj "(string \<times> gval) list"

type_synonym gmap = "(string \<times> gval) list"

definition obj_get :: "gmap \<Rightarrow> string \<Rightarrow> gval" where
  "obj_get m k = (case map_of (rev m) k of None \<Rightarrow> GNil | Some v \<Rightarrow> v)"

text \<open>\<^verbatim>\<open>fmt.Sprintf("%v", x)\<close>.\<close>

fun join :: "string \<Rightarrow> string list \<Rightarrow> string" where
  "join sep [] = []"
| "join sep [s] = s"
| "join sep (s # t # ts) = s @ sep @ join sep (t # ts)"

fun fmt_v :: "gval \<Rightarrow> string" where
  "fmt_v GNil = ''<nil>''"
| "fmt_v (GBool b) = (if b then ''true'' else ''false'')"
| "fmt_v (GInt i) = Itoa i"
| "fmt_v (GInt64 i) = Itoa i"
| "fmt_v (GNum x) = FormatFloat_g x"
| "fmt_v (GStr s) = s"
| "fmt_v (GArr xs) = ''['' @ join '' '' (map fmt_v xs) @ '']''"
| "fmt_v (GObj kvs) = ''map['' @ join '' '' (map (\<lambda>(k, s). k @ '':'' @ s)
     (sort_key fst (AList.clearjunk (rev (map (\<lambda>(k, v). (k, fmt_v v)) kvs))))) @ '']''"

section \<open>Decoding into a struct\<close>

definition fold_eq :: "string \<Rightarrow> string \<Rightarrow> bool" where
  "fold_eq a b \<longleftrightarrow> map lower_c a = map lower_c b"

text \<open>
  The value of a field after \<^verbatim>\<open>json.Unmarshal\<close>, \<open>None\<close> when some matching member has another
  type (the call then returns an error). \<open>conv\<close> assigns a member over the value so far.
\<close>

fun jscan :: "('a \<Rightarrow> gval \<Rightarrow> 'a option) \<Rightarrow> string \<Rightarrow> gmap \<Rightarrow> 'a \<Rightarrow> 'a option" where
  "jscan conv k [] d = Some d"
| "jscan conv k ((k', v) # r) d =
     (if fold_eq k' k \<and> v \<noteq> GNil
      then (case conv d v of None \<Rightarrow> None | Some x \<Rightarrow> jscan conv k r x)
      else jscan conv k r d)"

fun to_str :: "string \<Rightarrow> gval \<Rightarrow> string option" where
  "to_str d (GStr s) = Some s"
| "to_str d _ = None"

fun to_bool :: "bool \<Rightarrow> gval \<Rightarrow> bool option" where
  "to_bool d (GBool b) = Some b"
| "to_bool d _ = None"

fun to_map :: "gmap \<Rightarrow> gval \<Rightarrow> gmap option" where
  "to_map d (GObj m) = Some (d @ m)"
| "to_map d _ = None"

fun str_list :: "gval list \<Rightarrow> string list option" where
  "str_list [] = Some []"
| "str_list (GStr s # r) = map_option (Cons s) (str_list r)"
| "str_list (GNil # r) = map_option (Cons []) (str_list r)"
| "str_list (_ # r) = None"

fun to_strs :: "string list \<Rightarrow> gval \<Rightarrow> string list option" where
  "to_strs d (GArr xs) = str_list xs"
| "to_strs d _ = None"

fun str_map :: "gmap \<Rightarrow> (string \<times> string) list option" where
  "str_map [] = Some []"
| "str_map ((k, GStr s) # r) = map_option (Cons (k, s)) (str_map r)"
| "str_map ((k, GNil) # r) = map_option (Cons (k, [])) (str_map r)"
| "str_map (_ # r) = None"

fun to_strmap :: "(string \<times> string) list \<Rightarrow> gval \<Rightarrow> (string \<times> string) list option" where
  "to_strmap d (GObj m) = map_option (\<lambda>kvs. d @ kvs) (str_map m)"
| "to_strmap d _ = None"

text \<open>An integer field: the member must be an integral number in range of \<^verbatim>\<open>int\<close>.\<close>

fun f64_int :: "f64 \<Rightarrow> int option" where
  "f64_int (FFin s m e) =
     (if 0 \<le> e then Some (signed_mant s m * 2 ^ nat e)
      else if m mod 2 ^ nat (- e) = 0 then Some (signed_mant s (m div 2 ^ nat (- e))) else None)"
| "f64_int _ = None"

definition int64_ok :: "int \<Rightarrow> bool" where
  "int64_ok i \<longleftrightarrow> - (2 ^ 63) \<le> i \<and> i < 2 ^ 63"

fun to_int :: "int \<Rightarrow> gval \<Rightarrow> int option" where
  "to_int d (GNum x) = (case f64_int x of Some i \<Rightarrow> if int64_ok i then Some i else None | None \<Rightarrow> None)"
| "to_int d (GInt i) = Some i"
| "to_int d (GInt64 i) = Some i"
| "to_int d _ = None"

definition jstr :: "gmap \<Rightarrow> string \<Rightarrow> string option" where "jstr m k = jscan to_str k m []"
definition jbool :: "gmap \<Rightarrow> string \<Rightarrow> bool option" where "jbool m k = jscan to_bool k m False"
definition jint :: "gmap \<Rightarrow> string \<Rightarrow> int option" where "jint m k = jscan to_int k m 0"
definition jmap :: "gmap \<Rightarrow> string \<Rightarrow> gmap option" where "jmap m k = jscan to_map k m []"
definition jstrs :: "gmap \<Rightarrow> string \<Rightarrow> string list option" where "jstrs m k = jscan to_strs k m []"
definition jstrmap :: "gmap \<Rightarrow> string \<Rightarrow> (string \<times> string) list option" where
  "jstrmap m k = jscan to_strmap k m []"

lemmas json_get_defs = jstr_def jbool_def jint_def jmap_def jstrs_def jstrmap_def fold_eq_def
  lower_c_def ccode_def

text \<open>
  A member of a marshalled struct: with \<^verbatim>\<open>omitempty\<close> the zero value is left out.
\<close>

definition omit_str :: "string \<Rightarrow> string \<Rightarrow> gmap" where
  "omit_str k s = (if s = [] then [] else [(k, GStr s)])"

definition omit_map :: "string \<Rightarrow> gmap \<Rightarrow> gmap" where
  "omit_map k m = (if m = [] then [] else [(k, GObj m)])"

text \<open>A member with a nil map is written \<^verbatim>\<open>null\<close>; a \<open>gmap\<close> does not tell nil from empty.\<close>

lemma str_list_map_GStr [simp]: "str_list (map GStr xs) = Some xs"
  by (induction xs) auto

lemma str_map_map_GStr [simp]: "str_map (map (\<lambda>(k, s). (k, GStr s)) kvs) = Some kvs"
  by (induction kvs) auto

lemma obj_get_Nil [simp]: "obj_get [] k = GNil"
  by (simp add: obj_get_def)

lemma obj_get_snoc [simp]: "obj_get (m @ [(k, v)]) k' = (if k = k' then v else obj_get m k')"
  by (simp add: obj_get_def)

end
