(* ===== verification/Condition.thy ===== *)
theory Condition
  imports Go_Values
begin

text \<open>
  \<^verbatim>\<open>domains/workflows/engine/condition.go\<close>: the expression language of a workflow's condition
  steps, \<^verbatim>\<open><path> <op> <literal>\<close> or \<^verbatim>\<open><path>\<close>, evaluated against the event payload.
\<close>

text \<open>\<^verbatim>\<open>splitExpr\<close>: the operators in the order they are searched for, each at its first position.\<close>

fun split_at_ops :: "string list \<Rightarrow> string \<Rightarrow> (string \<times> string \<times> string) option" where
  "split_at_ops [] expr = None"
| "split_at_ops (o' # os) expr = (case str_index expr o' of
     Some idx \<Rightarrow> Some (o', TrimSpace (take idx expr), TrimSpace (drop (idx + length o') expr))
   | None \<Rightarrow> split_at_ops os expr)"

definition operators :: "string list" where
  "operators = [''=='', ''!='', ''>='', ''<='', ''>'', ''<'']"

definition splitExpr :: "string \<Rightarrow> string \<times> string \<times> string" where
  "splitExpr expr = (case split_at_ops operators expr of
     Some r \<Rightarrow> r | None \<Rightarrow> ([], TrimSpace expr, []))"

fun walk_path :: "gval \<Rightarrow> string list \<Rightarrow> gval" where
  "walk_path cur [] = cur"
| "walk_path (GObj m) (p # ps) = walk_path (obj_get m p) ps"
| "walk_path _ (p # ps) = GNil"

definition lookupPath :: "gmap \<Rightarrow> string \<Rightarrow> gval" where
  "lookupPath payload path =
     (if path = [] then GNil else walk_path (GObj payload) (split_on CHR ''.'' path))"

fun truthy :: "gval \<Rightarrow> bool" where
  "truthy GNil = False"
| "truthy (GBool b) = b"
| "truthy (GStr s) = (s \<noteq> [])"
| "truthy (GNum x) = (\<not> f64_is_zero x)"
| "truthy (GInt i) = (i \<noteq> 0)"
| "truthy _ = True"

definition parseNumber :: "string \<Rightarrow> f64 option" where
  "parseNumber s = ParseFloat s"

fun toNumber :: "gval \<Rightarrow> f64 option" where
  "toNumber (GNum x) = Some x"
| "toNumber (GInt i) = Some (f64_of_int i)"
| "toNumber (GInt64 i) = Some (f64_of_int i)"
| "toNumber (GStr s) = ParseFloat s"
| "toNumber _ = None"

fun toString :: "gval \<Rightarrow> string" where
  "toString GNil = []"
| "toString (GStr s) = s"
| "toString (GNum x) = FormatFloat_g x"
| "toString (GBool b) = (if b then ''true'' else ''false'')"
| "toString v = fmt_v v"

definition unquote :: "string \<Rightarrow> string" where
  "unquote s =
     (if length s \<ge> 2 \<and> (hd s = CHR 0x22 \<and> last s = CHR 0x22 \<or> hd s = CHR 0x27 \<and> last s = CHR 0x27)
      then butlast (tl s) else s)"

definition num_op :: "f64 \<Rightarrow> string \<Rightarrow> f64 \<Rightarrow> bool option" where
  "num_op v op l =
     (if op = ''=='' then Some (f64_eq v l) else if op = ''!='' then Some (\<not> f64_eq v l)
      else if op = ''>'' then Some (f64_lt l v) else if op = ''<'' then Some (f64_lt v l)
      else if op = ''>='' then Some (f64_le l v) else if op = ''<='' then Some (f64_le v l)
      else None)"

definition bool_op :: "bool \<Rightarrow> string \<Rightarrow> bool \<Rightarrow> bool option" where
  "bool_op v op l =
     (if op = ''=='' then Some (v = l) else if op = ''!='' then Some (v \<noteq> l) else None)"

definition str_op :: "string \<Rightarrow> string \<Rightarrow> string \<Rightarrow> bool option" where
  "str_op v op l =
     (if op = ''=='' then Some (v = l) else if op = ''!='' then Some (v \<noteq> l)
      else if op = ''>'' then Some (v > l) else if op = ''<'' then Some (v < l)
      else if op = ''>='' then Some (v \<ge> l) else if op = ''<='' then Some (v \<le> l)
      else None)"

definition compare_num :: "gval \<Rightarrow> string \<Rightarrow> string \<Rightarrow> bool option" where
  "compare_num val op lit = (case parseNumber lit of None \<Rightarrow> None
     | Some l \<Rightarrow> (case toNumber val of None \<Rightarrow> None | Some v \<Rightarrow> num_op v op l))"

definition compare_bool :: "gval \<Rightarrow> string \<Rightarrow> string \<Rightarrow> bool option" where
  "compare_bool val op lit =
     (if lit = ''true'' \<or> lit = ''false''
      then (case val of GBool b \<Rightarrow> bool_op b op (lit = ''true'') | _ \<Rightarrow> None) else None)"

definition compare :: "gval \<Rightarrow> string \<Rightarrow> string \<Rightarrow> bool res" where
  "compare val op lit = (case compare_num val op lit of Some b \<Rightarrow> Inr b
     | None \<Rightarrow> (case compare_bool val op lit of Some b \<Rightarrow> Inr b
       | None \<Rightarrow> (case str_op (toString val) op (unquote lit) of Some b \<Rightarrow> Inr b
         | None \<Rightarrow> Inl (Err (''unsupported operator '' @ quoted op)))))"

definition EvalCondition :: "string \<Rightarrow> gmap \<Rightarrow> bool res" where
  "EvalCondition expr0 payload = (let expr = TrimSpace expr0 in
     if expr = [] then Inl (Err ''empty condition'')
     else let (op, path, lit) = splitExpr expr; val = lookupPath payload path in
       if op = [] then Inr (truthy val) else compare val op lit)"

section \<open>Totality and the meaning of each operator\<close>

lemma split_at_ops_in: "split_at_ops os e = Some (op, p, l) \<Longrightarrow> op \<in> set os"
  by (induction os e rule: split_at_ops.induct) (auto split: option.splits)

lemma splitExpr_op: "splitExpr e = (op, p, l) \<Longrightarrow> op = [] \<or> op \<in> set operators"
  by (auto simp: splitExpr_def dest: split_at_ops_in split: option.splits)

lemma str_op_total: "op \<in> set operators \<Longrightarrow> str_op v op l \<noteq> None"
  by (auto simp: operators_def str_op_def)

lemma compare_total: "op \<in> set operators \<Longrightarrow> \<exists>b. compare v op l = Inr b"
  using str_op_total [of op "toString v" "unquote l"]
  by (auto simp: compare_def split: option.splits)

lemma compare_neq: "compare v ''!='' l = map_sum id Not (compare v ''=='' l)"
  by (auto simp: compare_def compare_num_def compare_bool_def num_op_def bool_op_def str_op_def
      split: option.splits gval.splits)

section \<open>Parsing\<close>

definition op_char :: "char \<Rightarrow> bool" where
  "op_char c \<longleftrightarrow> c \<in> set ''=!<>''"

definition graph_char :: "char \<Rightarrow> bool" where
  "graph_char c \<longleftrightarrow> 33 \<le> ccode c \<and> ccode c \<le> 126"

text \<open>An operand as the authors of conditions write it: no operator character in it, and printable at
  both ends (it may contain spaces and any byte in between).\<close>

definition operand :: "string \<Rightarrow> bool" where
  "operand s \<longleftrightarrow> s \<noteq> [] \<and> graph_char (hd s) \<and> graph_char (last s) \<and> (\<forall>c \<in> set s. \<not> op_char c)"

lemma wide_space_ends:
  "w \<in> set wide_spaces \<Longrightarrow> w \<noteq> [] \<and> \<not> graph_char (hd w) \<and> \<not> graph_char (last w)"
  by (auto simp: wide_spaces_def graph_char_def ccode_def byte_def upt_rec)

lemma find_wide_None:
  "(\<And>w. w \<in> set wide_spaces \<Longrightarrow> \<not> p w) \<Longrightarrow> find p wide_spaces = None"
  by (simp add: find_None_all)

lemma lead_space_graph: "s \<noteq> [] \<Longrightarrow> graph_char (hd s) \<Longrightarrow> lead_space s = 0"
proof (cases s)
  case (Cons c cs)
  assume g: "graph_char (hd s)"
  have "\<not> prefix w s" if "w \<in> set wide_spaces" for w
    using wide_space_ends [OF that] g Cons by (cases w) auto
  then have "find (\<lambda>w. prefix w s) wide_spaces = None" by (rule find_wide_None)
  with g Cons show ?thesis
    by (simp add: lead_space_def ascii_space_def graph_char_def ccode_def Let_def)
qed simp

lemma tail_space_graph: "s \<noteq> [] \<Longrightarrow> graph_char (last s) \<Longrightarrow> tail_space s = 0"
proof -
  assume g: "s \<noteq> []" "graph_char (last s)"
  have "\<not> suffix w s" if "w \<in> set wide_spaces" for w
    using wide_space_ends [OF that] g by (auto simp: suffix_def)
  then have "find (\<lambda>w. suffix w s) wide_spaces = None" by (rule find_wide_None)
  with g show ?thesis
    by (simp add: tail_space_def ascii_space_def graph_char_def ccode_def Let_def)
qed

lemma trim_left_graph: "s \<noteq> [] \<Longrightarrow> graph_char (hd s) \<Longrightarrow> trim_left s = s"
  by (simp add: trim_left.simps lead_space_graph)

lemma trim_right_graph: "s \<noteq> [] \<Longrightarrow> graph_char (last s) \<Longrightarrow> trim_right s = s"
  by (simp add: trim_right.simps tail_space_graph)

lemma TrimSpace_graph:
  "s \<noteq> [] \<Longrightarrow> graph_char (hd s) \<Longrightarrow> graph_char (last s) \<Longrightarrow> TrimSpace s = s"
  by (simp add: TrimSpace_def trim_left_graph trim_right_graph)

lemma TrimSpace_operand [simp]: "operand s \<Longrightarrow> TrimSpace s = s"
  by (simp add: operand_def TrimSpace_graph)

lemma TrimSpace_operand_space:
  assumes "operand s" shows "TrimSpace (s @ '' '') = s"
proof -
  have "trim_left (s @ '' '') = s @ '' ''"
    using assms by (simp add: operand_def trim_left_graph)
  moreover have "trim_right (s @ '' '') = trim_right s"
    by (subst trim_right.simps) (simp add: tail_space_def ascii_space_def)
  ultimately show ?thesis
    using assms by (simp add: TrimSpace_def operand_def trim_right_graph)
qed

lemma TrimSpace_space_operand:
  assumes "operand s" shows "TrimSpace ('' '' @ s) = s"
proof -
  have "trim_left (CHR '' '' # s) = trim_left s"
    by (subst trim_left.simps) (simp add: lead_space_def ascii_space_def)
  then show ?thesis
    using assms by (simp add: TrimSpace_def operand_def trim_left_graph trim_right_graph)
qed

lemma str_index_skip:
  "o' \<noteq> [] \<Longrightarrow> op_char (hd o') \<Longrightarrow> (\<forall>c \<in> set a. \<not> op_char c) \<Longrightarrow>
     str_index (a @ b) o' = map_option ((+) (length a)) (str_index b o')"
proof (induction a)
  case (Cons c a)
  then have "\<not> prefix o' (c # a @ b)" by (cases o') auto
  with Cons show ?case by (simp add: option.map_comp comp_def)
next
  case Nil
  show ?case by (cases "str_index b o'") auto
qed

lemma str_index_no_op:
  "o' \<noteq> [] \<Longrightarrow> op_char (hd o') \<Longrightarrow> (\<forall>c \<in> set a. \<not> op_char c) \<Longrightarrow> str_index a o' = None"
  using str_index_skip [of o' a "[]"] by simp

lemma operators_op_char: "o' \<in> set operators \<Longrightarrow> o' \<noteq> [] \<and> op_char (hd o')"
  by (auto simp: operators_def op_char_def)

lemma operators_op_chars: "o' \<in> set operators \<Longrightarrow> o' \<noteq> [] \<and> (\<forall>c \<in> set o'. op_char c)"
  by (auto simp: operators_def op_char_def)

lemma sublist_no_op:
  assumes "o' \<noteq> [] \<and> (\<forall>c \<in> set o'. op_char c)" and "\<forall>c \<in> set b. \<not> op_char c"
    and "sublist o' (op @ b)"
  shows "sublist o' op"
proof -
  have none: "xs = []" if "prefix xs b" "set xs \<subseteq> set o'" for xs
    using that assms(1,2) by (cases xs) (auto simp: prefix_def)
  from assms(3) consider "sublist o' op" | "sublist o' b"
    | xs ys where "o' = xs @ ys" "suffix xs op" "prefix ys b"
    by (auto simp: sublist_append)
  then show ?thesis
  proof cases
    case 2
    then show ?thesis using assms(1,2) by (cases o') (auto simp: sublist_def)
  next
    case 3
    then have "ys = []" by (intro none) auto
    with 3 show ?thesis by auto
  qed
qed

lemma split_at_ops_hit:
  "op \<in> set os \<Longrightarrow> \<forall>o' \<in> set (takeWhile (\<lambda>x. x \<noteq> op) os). str_index e o' = None \<Longrightarrow>
     str_index e op = Some i \<Longrightarrow>
     split_at_ops os e = Some (op, TrimSpace (take i e), TrimSpace (drop (i + length op) e))"
proof (induction os)
  case (Cons a os)
  then show ?case by (cases "a = op") simp_all
qed simp

lemma operators_order:
  "op \<in> set operators \<Longrightarrow> \<forall>o' \<in> set (takeWhile (\<lambda>x. x \<noteq> op) operators).
     o' \<in> set operators \<and> length op \<le> length o' \<and> o' \<noteq> op"
  by (auto simp: operators_def)

lemma split_at_ops_first:
  assumes op: "op \<in> set operators"
    and cut: "\<And>o'. o' \<in> set operators \<Longrightarrow>
      str_index (a @ op @ b) o' = map_option ((+) (length a)) (str_index (op @ b) o')"
    and tail: "\<And>o'. o' \<in> set operators \<Longrightarrow> str_index b o' = None"
    and b: "\<forall>c \<in> set b. \<not> op_char c"
  shows "split_at_ops operators (a @ op @ b) = Some (op, TrimSpace a, TrimSpace b)"
proof -
  have hit: "str_index (a @ op @ b) op = Some (length a)"
    using cut [OF op] operators_op_char [OF op] by (cases op) auto
  have miss: "str_index (a @ op @ b) o' = None"
    if o': "o' \<in> set operators" "length op \<le> length o'" "o' \<noteq> op" for o'
  proof -
    have "\<not> sublist o' op"
    proof
      assume "sublist o' op"
      then obtain ps ss where "op = ps @ o' @ ss" by (auto simp: sublist_def)
      moreover from this o'(2) have "ps = []" "ss = []" by simp_all
      ultimately show False using o'(3) by simp
    qed
    then have "\<not> sublist o' (op @ b)"
      using sublist_no_op [of o' b op] operators_op_chars [OF o'(1)] b by blast
    then show ?thesis using cut [OF o'(1)] str_index_None [of "op @ b" o'] by simp
  qed
  have "\<forall>o' \<in> set (takeWhile (\<lambda>x. x \<noteq> op) operators). str_index (a @ op @ b) o' = None"
    using op miss operators_order [OF op] by blast
  from split_at_ops_hit [OF op this hit] show ?thesis by simp
qed

lemma splitExpr_spaced:
  assumes op: "op \<in> set operators" and p: "operand p" and l: "operand l"
  shows "splitExpr (p @ '' '' @ op @ '' '' @ l) = (op, p, l)"
proof -
  let ?b = "'' '' @ l" and ?a = "p @ '' ''"
  have noop: "\<forall>c \<in> set ?a. \<not> op_char c" "\<forall>c \<in> set ?b. \<not> op_char c"
    using p l by (auto simp: operand_def op_char_def)
  have cut: "str_index (?a @ op @ ?b) o' = map_option ((+) (length ?a)) (str_index (op @ ?b) o')"
    if "o' \<in> set operators" for o'
    using operators_op_char [OF that] noop(1) by (blast intro: str_index_skip)
  have tail: "str_index ?b o' = None" if "o' \<in> set operators" for o'
    using operators_op_char [OF that] noop(2) by (blast intro: str_index_no_op)
  have trims: "TrimSpace ?a = p" "TrimSpace ?b = l"
    using p l by (simp_all only: TrimSpace_operand_space TrimSpace_space_operand)
  have "split_at_ops operators (?a @ op @ ?b) = Some (op, TrimSpace ?a, TrimSpace ?b)"
    using op by (rule split_at_ops_first) (use cut tail noop(2) in blast)+
  then show ?thesis using trims by (simp add: splitExpr_def)
qed

lemma EvalCondition_spaced:
  assumes "op \<in> set operators" "operand p" "operand l"
  shows "EvalCondition (p @ '' '' @ op @ '' '' @ l) payload
       = compare (lookupPath payload p) op l"
proof -
  let ?e = "p @ '' '' @ op @ '' '' @ l"
  have "TrimSpace ?e = ?e"
    using assms(2,3) by (intro TrimSpace_graph) (auto simp: operand_def)
  moreover have "op \<noteq> []" using assms(1) by (auto simp: operators_def)
  ultimately show ?thesis
    using splitExpr_spaced [OF assms] by (simp add: EvalCondition_def)
qed

lemma EvalCondition_op_in_literal:
  "EvalCondition (''name != '' @ [CHR 0x22] @ ''a==b'' @ [CHR 0x22]) [(''name'', GStr ''zz'')]
     = Inr False"
proof -
  let ?l = "''name != '' @ [CHR 0x22] @ ''a'' :: string" and ?r = "''b'' @ [CHR 0x22] :: string"
  have "TrimSpace ?l = ?l" "TrimSpace ?r = ?r" "TrimSpace (?l @ ''=='' @ ?r) = ?l @ ''=='' @ ?r"
    by (rule TrimSpace_graph; simp add: graph_char_def ccode_def)+
  then show ?thesis
    by (simp add: EvalCondition_def splitExpr_def operators_def lookupPath_def obj_get_def
        compare_def compare_num_def parseNumber_def compare_bool_def str_op_def unquote_def
        ParseFloat_def special_float_def drop_sign_def read_float_def lower_c_def ccode_def
        digit_of_def dec_digit_def)
qed

section \<open>Properties\<close>

text \<open>
  \<^verbatim>\<open>EvalCondition\<close> returns an error for a blank expression and for no other: every other
  string is some condition, and its evaluation on any payload produces a boolean.
\<close>

theorem EvalCondition_error_iff:
  "(\<exists>e. EvalCondition s payload = Inl e) = (TrimSpace s = [])"
proof (cases "TrimSpace s = []")
  case True
  then show ?thesis by (simp add: EvalCondition_def)
next
  case False
  obtain op p l where sp: "splitExpr (TrimSpace s) = (op, p, l)" by (cases "splitExpr (TrimSpace s)")
  show ?thesis
  proof (cases "op = []")
    case True
    with False sp show ?thesis by (simp add: EvalCondition_def)
  next
    case op: False
    with splitExpr_op [OF sp] obtain b where "compare (lookupPath payload p) op l = Inr b"
      using compare_total by blast
    with False sp op show ?thesis by (simp add: EvalCondition_def)
  qed
qed

text \<open>
  A condition written \<^verbatim>\<open>path op literal\<close>, with operands that contain no operator
  character, is read as that comparison whichever of the six operators it uses (so \<^verbatim>\<open>>=\<close> is
  never read as \<^verbatim>\<open>>\<close>), and \<^verbatim>\<open>!=\<close> is the negation of \<^verbatim>\<open>==\<close> on every payload.
\<close>

theorem EvalCondition_binary:
  assumes "op \<in> set operators" and "operand p" and "operand l"
  shows "EvalCondition (p @ '' '' @ op @ '' '' @ l) payload = compare (lookupPath payload p) op l
    \<and> EvalCondition (p @ '' '' @ ''!='' @ '' '' @ l) payload
      = map_sum id Not (EvalCondition (p @ '' '' @ ''=='' @ '' '' @ l) payload)"
proof -
  have "''=='' \<in> set operators" "''!='' \<in> set operators" by (simp_all add: operators_def)
  with assms show ?thesis by (simp only: EvalCondition_spaced compare_neq simp_thms)
qed

theorem EvalCondition_binary_witness:
  "EvalCondition ''user.age >= old'' [(''user'', GObj [(''age'', GStr ''zz'')])] = Inr True"
proof -
  have "EvalCondition (''user.age'' @ '' '' @ ''>='' @ '' '' @ ''old'')
      [(''user'', GObj [(''age'', GStr ''zz'')])]
    = compare (lookupPath [(''user'', GObj [(''age'', GStr ''zz'')])] ''user.age'') ''>='' ''old''"
    by (rule EvalCondition_binary [THEN conjunct1])
      (simp_all add: operators_def operand_def graph_char_def ccode_def op_char_def)
  also have "\<dots> = Inr True"
    by (simp add: compare_def compare_num_def compare_bool_def str_op_def parseNumber_def
        lookupPath_def obj_get_def unquote_def float_simps less_char_def)
  finally show ?thesis by simp
qed

definition holds :: "string \<Rightarrow> string \<Rightarrow> string \<Rightarrow> gmap \<Rightarrow> bool" where
  "holds p op l payload \<longleftrightarrow> EvalCondition (p @ '' '' @ op @ '' '' @ l) payload = Inr True"

lemma holds_numeric:
  assumes "operand p" "operand l" "op \<in> set operators"
    and "toNumber (lookupPath payload p) = Some x" "parseNumber l = Some y"
  shows "holds p op l payload \<longleftrightarrow> num_op x op y = Some True"
  using assms EvalCondition_spaced [of op p l payload]
  by (auto simp: holds_def compare_def compare_num_def num_op_def operators_def)



lemma split_on_dot_ne: "rest \<noteq> [] \<Longrightarrow> d \<notin> set k \<Longrightarrow> split_on d (k @ d # rest) = k # split_on d rest"
  by (simp add: split_on_append)

lemma walk_path_not_obj: "(\<And>m. v \<noteq> GObj m) \<Longrightarrow> ps \<noteq> [] \<Longrightarrow> walk_path v ps = GNil"
  by (cases v; cases ps) auto

text \<open>
  A dotted path descends into nested objects member by member; a missing member, or a value
  that is not an object before the last step, gives the nil value, never an error.
\<close>

theorem lookupPath_dotted:
  assumes "CHR ''.'' \<notin> set k" and "k \<noteq> []" and "rest \<noteq> []"
  shows "lookupPath payload (k @ ''.'' @ rest)
       = (case lookupPath payload k of GObj m \<Rightarrow> lookupPath m rest | _ \<Rightarrow> GNil)
    \<and> lookupPath payload k = obj_get payload k"
  using assms
  by (auto simp: lookupPath_def split_on_append walk_path_not_obj split: gval.splits)

theorem lookupPath_dotted_witness:
  "lookupPath [(''user'', GObj [(''tier'', GStr ''gold'')])] ''user.tier'' = GStr ''gold''"
  using lookupPath_dotted [of "''user''" "''tier''" "[(''user'', GObj [(''tier'', GStr ''gold'')])]"]
  by (simp add: lookupPath_def obj_get_def)

text \<open>
  Two limits of the language that its documentation does not mention. The operator search
  does not know about quotes: in \<^verbatim>\<open>name != "a==b"\<close> the \<^verbatim>\<open>==\<close> of the literal is taken for the
  operator, and the condition is false for a payload whose name differs from the literal. And a
  JSON number compared with a quoted literal is spelled as \<^verbatim>\<open>%g\<close> does, so
  \<^verbatim>\<open>amount == "1000000"\<close> is false for the number 1000000, while without the quotes it is true.
\<close>

theorem EvalCondition_spelling:
  "EvalCondition (''name != '' @ [CHR 0x22] @ ''a==b'' @ [CHR 0x22]) [(''name'', GStr ''zz'')]
     = Inr False
   \<and> EvalCondition (''amount == '' @ [CHR 0x22] @ ''1000000'' @ [CHR 0x22])
       [(''amount'', GNum (f64_of_int 1000000))] = Inr False
   \<and> EvalCondition ''amount == 1000000'' [(''amount'', GNum (f64_of_int 1000000))] = Inr True"
proof -
  have num: "f64_of_int 1000000 = FFin False (8589934592000000) (-33)"
    by (simp add: f64_of_int_def float_simps)
  have quoted: "operand ([CHR 0x22] @ ''1000000'' @ [CHR 0x22])" and am: "operand ''amount''"
    and bare: "operand ''1000000''"
    by (simp_all add: operand_def graph_char_def ccode_def op_char_def)
  have spell: "FormatFloat_g (FFin False (8589934592000000) (-33)) = ''1e+06''"
    by (simp add: float_simps)
  have q: "compare (GNum (FFin False (8589934592000000) (-33))) ''==''
      ([CHR 0x22] @ ''1000000'' @ [CHR 0x22]) = Inr False"
    by (simp add: compare_def compare_num_def parseNumber_def compare_bool_def str_op_def spell
        unquote_def ParseFloat_def special_float_def drop_sign_def read_float_def lower_c_def
        ccode_def digit_of_def dec_digit_def del: FormatFloat_g.simps)
  have b: "compare (GNum (FFin False (8589934592000000) (-33))) ''=='' ''1000000'' = Inr True"
    by (simp add: compare_def compare_num_def parseNumber_def num_op_def float_simps)
  have look: "lookupPath [(''amount'', v)] ''amount'' = v" for v
    by (simp add: lookupPath_def obj_get_def)
  have "EvalCondition (''amount'' @ '' '' @ ''=='' @ '' '' @ [CHR 0x22] @ ''1000000'' @ [CHR 0x22])
      [(''amount'', GNum (f64_of_int 1000000))] = Inr False"
    using EvalCondition_spaced [of "''==''", OF _ am quoted] q
    by (simp add: operators_def look num)
  moreover have "EvalCondition (''amount'' @ '' '' @ ''=='' @ '' '' @ ''1000000'')
      [(''amount'', GNum (f64_of_int 1000000))] = Inr True"
    using EvalCondition_spaced [of "''==''", OF _ am bare] b
    by (simp add: operators_def look num)
  moreover have "EvalCondition (''name != '' @ [CHR 0x22] @ ''a==b'' @ [CHR 0x22])
      [(''name'', GStr ''zz'')] = Inr False"
    by (rule EvalCondition_op_in_literal)
  ultimately show ?thesis by simp
qed

end
