(* ===== verification/World.thy ===== *)
theory World
  imports Go_Values
begin

text \<open>
  The state the services share, and the statements they issue against it: the PostgreSQL
  database with its transactions and row-level security, the NATS JetStream bus, Redis, outgoing
  HTTP, the clock and the source of fresh UUIDs.

  Everything outside the program that may fail does so by a schedule that is part of the state:
  each database statement, each publish and each Redis command consumes one entry of its fault
  list, and each HTTP request takes its answer from \<open>http_resp\<close>. A theorem about a handler that
  holds for every world therefore holds for every pattern of failures. One run of a handler is
  one sequence of statements; a rollback undoes the database changes of a transaction and nothing
  else (a message that was published stays published).

  Row-level security: migrations 0018 and 0019 force it for \<^verbatim>\<open>subscribers\<close>, \<^verbatim>\<open>suppressions\<close>,
  \<^verbatim>\<open>preferences\<close>, \<^verbatim>\<open>consent_ledger\<close> and \<^verbatim>\<open>audit_logs\<close>, whose rows are visible only when their
  tenant is the \<^verbatim>\<open>app.tenant_id\<close> of the transaction; the other tables' owner, the application,
  bypasses their policies. UUIDs are strings; a malformed UUID argument, which PostgreSQL
  rejects, is one of the failures of the schedule. Times in the database are microseconds,
  the clock's are nanoseconds.
\<close>

section \<open>Tables\<close>

record tenant_row =
  tn_id :: string
  tn_name :: string
  tn_slug :: string
  tn_key_hash :: string
  tn_key_prefix :: string

record subscriber_row =
  sb_id :: string
  sb_tenant :: string
  sb_external :: string
  sb_email :: "string option"
  sb_phone :: "string option"
  sb_whatsapp :: "string option"
  sb_push :: gval
  sb_locale :: string
  sb_timezone :: string
  sb_metadata :: gval
  sb_deleted :: bool
  sb_created :: int

record template_row =
  tp_id :: string
  tp_tenant :: string
  tp_name :: string
  tp_channel :: string
  tp_locale :: string
  tp_subject :: "string option"
  tp_body :: string
  tp_metadata :: gval
  tp_active :: bool
  tp_created :: int

record workflow_row =
  wf_id :: string
  wf_tenant :: string
  wf_name :: string
  wf_trigger :: string
  wf_steps :: gval
  wf_active :: bool
  wf_created :: int

datatype run_status = Running | Completed | Failed | Cancelled

record run_row =
  rn_id :: string
  rn_tenant :: string
  rn_workflow :: string
  rn_subscriber :: "string option"
  rn_event :: string
  rn_payload :: gval
  rn_status :: run_status
  rn_step :: int
  rn_resume_at :: "int option"
  rn_error :: "string option"
  rn_created :: int

record notification_row =
  nt_id :: string
  nt_tenant :: string
  nt_run :: "string option"
  nt_subscriber :: string
  nt_channel :: string
  nt_template :: "string option"
  nt_status :: string
  nt_provider :: "string option"
  nt_provider_msg :: "string option"
  nt_content :: gval
  nt_read :: bool
  nt_created :: int

record delivery_row =
  de_id :: string
  de_tenant :: string
  de_notification :: string
  de_type :: string
  de_provider :: "string option"
  de_response :: gval
  de_at :: int

record suppression_row =
  su_id :: string
  su_tenant :: string
  su_channel :: string
  su_hash :: string
  su_reason :: string
  su_created :: int

record preference_row =
  pf_tenant :: string
  pf_subscriber :: string
  pf_channel :: string
  pf_category :: string
  pf_opted_in :: bool

record dlt_row =
  dl_id :: string
  dl_tenant :: string
  dl_carrier :: string
  dl_channel :: string
  dl_ext :: string
  dl_name :: string
  dl_pe :: "string option"
  dl_sender :: "string option"
  dl_category :: string
  dl_regex :: string
  dl_status :: string
  dl_metadata :: gval
  dl_created :: int

record provider_row =
  pv_id :: string
  pv_tenant :: string
  pv_channel :: string
  pv_provider :: string
  pv_priority :: int
  pv_config :: string
  pv_active :: bool
  pv_created :: int

record ndnc_row =
  nd_hash :: string
  nd_category :: string

record api_key_row =
  ak_id :: string
  ak_tenant :: string
  ak_name :: string
  ak_hash :: string
  ak_prefix :: string
  ak_scope :: string
  ak_created :: int
  ak_revoked :: "int option"

record consent_row =
  cl_tenant :: string
  cl_subscriber :: string
  cl_channel :: string
  cl_category :: string
  cl_opted_in :: bool
  cl_source :: string
  cl_purpose :: "string option"
  cl_version :: "string option"
  cl_actor :: "string option"
  cl_ip :: "string option"
  cl_created :: int

record audit_row =
  au_id :: string
  au_tenant :: string
  au_actor_type :: string
  au_actor :: string
  au_action :: string
  au_resource :: string
  au_resource_id :: "string option"
  au_new :: gval
  au_ip :: "string option"
  au_agent :: "string option"
  au_at :: int

record db =
  tenants :: "tenant_row list"
  subscribers :: "subscriber_row list"
  templates :: "template_row list"
  workflows :: "workflow_row list"
  runs :: "run_row list"
  notifications :: "notification_row list"
  deliveries :: "delivery_row list"
  suppressions :: "suppression_row list"
  preferences :: "preference_row list"
  dlts :: "dlt_row list"
  providers :: "provider_row list"
  ndnc :: "ndnc_row list"
  api_keys :: "api_key_row list"
  consents :: "consent_row list"
  audits :: "audit_row list"

text \<open>The values the \<^verbatim>\<open>CHECK\<close> constraints admit.\<close>

definition channels :: "string list" where
  "channels = [''email'', ''sms'', ''whatsapp'', ''push'', ''inapp'', ''webhook'']"

definition notification_statuses :: "string list" where
  "notification_statuses =
     [''pending'', ''queued'', ''sent'', ''delivered'', ''failed'', ''skipped'', ''suppressed'']"

definition suppression_reasons :: "string list" where
  "suppression_reasons = [''hard_bounce'', ''spam_complaint'', ''manual'', ''unsubscribe'', ''ndnc'']"

definition dlt_categories :: "string list" where
  "dlt_categories = [''transactional'', ''promotional'', ''service_explicit'', ''service_implicit'']"

definition api_scopes :: "string list" where
  "api_scopes = [''full'', ''read'', ''send'']"

section \<open>The world\<close>

record txn =
  tx_guc :: string
  tx_aborted :: bool
  tx_now :: int
  tx_saved :: db

record http_request =
  rq_method :: string
  rq_url :: string
  rq_headers :: "(string \<times> string) list"
  rq_json :: gval
  rq_body :: string

record http_response =
  rs_status :: int
  rs_headers :: "(string \<times> string) list"
  rs_json :: "gval option"
  rs_text :: string

record world =
  db :: db
  tx :: "txn option"
  db_faults :: "bool list"
  bus :: "(string \<times> gval) list"
  bus_faults :: "bool list"
  kv :: "string \<Rightarrow> (string \<times> int option) option"
  kv_faults :: "bool list"
  pubsub :: "(string \<times> gval) list"
  http_log :: "http_request list"
  http_resp :: "nat \<Rightarrow> http_response option"
  clock :: "nat \<Rightarrow> int"
  ticks :: nat
  fresh :: "nat \<Rightarrow> string"
  next_id :: nat

type_synonym 'a app = "(world, 'a) state"

text \<open>Go's \<^verbatim>\<open>if err != nil { ... }\<close>.\<close>

definition on_err :: "'a res app \<Rightarrow> (goerr \<Rightarrow> 'b app) \<Rightarrow> ('a \<Rightarrow> 'b app) \<Rightarrow> 'b app" where
  "on_err m h k = do { r \<leftarrow> m; case r of Inl e \<Rightarrow> h e | Inr x \<Rightarrow> k x }"

definition and_then :: "'a res app \<Rightarrow> ('a \<Rightarrow> 'b res app) \<Rightarrow> 'b res app" where
  "and_then m k = on_err m (\<lambda>e. ret (Inl e)) k"

section \<open>Clock and fault schedules\<close>

text \<open>\<^verbatim>\<open>time.Now()\<close> in nanoseconds: every reading takes the next value of the clock.\<close>

definition time_now :: "int app" where
  "time_now = do {
     t \<leftarrow> gets (\<lambda>w. clock w (ticks w));
     modify (\<lambda>w. w\<lparr>ticks := Suc (ticks w)\<rparr>);
     ret t }"

definition next_fault :: "bool list \<Rightarrow> bool \<times> bool list" where
  "next_fault fs = (case fs of [] \<Rightarrow> (False, []) | f # r \<Rightarrow> (f, r))"

definition db_fault :: "bool app" where
  "db_fault = do {
     f \<leftarrow> gets (\<lambda>w. next_fault (db_faults w));
     modify (\<lambda>w. w\<lparr>db_faults := snd f\<rparr>);
     ret (fst f) }"

section \<open>Database statements and transactions\<close>

text \<open>What a statement sees beside the tables: the tenant setting, \<^verbatim>\<open>NOW()\<close>, a new UUID.\<close>

record sctx =
  guc :: string
  db_now :: int
  new_id :: string

definition pgerr :: goerr where "pgerr = Err ''database error''"
definition ErrNoRows :: goerr where "ErrNoRows = Err ''no rows in result set''"

text \<open>
  One statement: \<open>None\<close> is a constraint violation. Inside a transaction a failing statement
  aborts it, and every later statement fails too; outside, the statement commits by itself.
\<close>

definition db_stmt :: "(sctx \<Rightarrow> db \<Rightarrow> (db \<times> 'a) option) \<Rightarrow> 'a res app" where
  "db_stmt f = do {
     bad \<leftarrow> db_fault;
     t \<leftarrow> time_now;
     w \<leftarrow> State_Monad.get;
     let i = fresh w (next_id w);
     modify (\<lambda>w. w\<lparr>next_id := Suc (next_id w)\<rparr>);
     case tx w of
       None \<Rightarrow>
         (if bad then ret (Inl pgerr)
          else case f \<lparr>guc = [], db_now = t div 1000, new_id = i\<rparr> (db w) of
            None \<Rightarrow> ret (Inl pgerr)
          | Some (d, x) \<Rightarrow> do { modify (\<lambda>w. w\<lparr>db := d\<rparr>); ret (Inr x) })
     | Some T \<Rightarrow>
         (if bad \<or> tx_aborted T
          then do { modify (\<lambda>w. w\<lparr>tx := Some (T\<lparr>tx_aborted := True\<rparr>)\<rparr>); ret (Inl pgerr) }
          else case f \<lparr>guc = tx_guc T, db_now = tx_now T, new_id = i\<rparr> (db w) of
            None \<Rightarrow> do { modify (\<lambda>w. w\<lparr>tx := Some (T\<lparr>tx_aborted := True\<rparr>)\<rparr>); ret (Inl pgerr) }
          | Some (d, x) \<Rightarrow> do { modify (\<lambda>w. w\<lparr>db := d\<rparr>); ret (Inr x) }) }"

definition query :: "(sctx \<Rightarrow> db \<Rightarrow> 'a) \<Rightarrow> 'a res app" where
  "query f = db_stmt (\<lambda>c d. Some (d, f c d))"

text \<open>\<^verbatim>\<open>QueryRow(...).Scan(...)\<close>: no row is an error of its own, which does not abort.\<close>

definition query_row :: "(sctx \<Rightarrow> db \<Rightarrow> 'a option) \<Rightarrow> 'a res app" where
  "query_row f = and_then (query f)
     (\<lambda>r. case r of None \<Rightarrow> ret (Inl ErrNoRows) | Some x \<Rightarrow> ret (Inr x))"

definition exec :: "(sctx \<Rightarrow> db \<Rightarrow> db option) \<Rightarrow> unit res app" where
  "exec f = db_stmt (\<lambda>c d. map_option (\<lambda>d'. (d', ())) (f c d))"

text \<open>A row of a forced table is visible when its tenant is the transaction's.\<close>

definition sees :: "sctx \<Rightarrow> string \<Rightarrow> bool" where
  "sees c t \<longleftrightarrow> guc c \<noteq> [] \<and> t = guc c"

definition begin_tx :: "unit res app" where
  "begin_tx = do {
     bad \<leftarrow> db_fault;
     t \<leftarrow> time_now;
     if bad then ret (Inl pgerr)
     else do {
       modify (\<lambda>w. w\<lparr>tx := Some \<lparr>tx_guc = [], tx_aborted = False, tx_now = t div 1000,
                                tx_saved = db w\<rparr>\<rparr>);
       ret (Inr ()) } }"

definition set_tenant :: "string \<Rightarrow> unit res app" where
  "set_tenant tid = do {
     bad \<leftarrow> db_fault;
     w \<leftarrow> State_Monad.get;
     case tx w of
       None \<Rightarrow> ret (Inl pgerr)
     | Some T \<Rightarrow>
        (if bad \<or> tx_aborted T
         then do { modify (\<lambda>w. w\<lparr>tx := Some (T\<lparr>tx_aborted := True\<rparr>)\<rparr>); ret (Inl pgerr) }
         else do { modify (\<lambda>w. w\<lparr>tx := Some (T\<lparr>tx_guc := tid\<rparr>)\<rparr>); ret (Inr ()) }) }"

definition roll_back :: "unit app" where
  "roll_back = modify (\<lambda>w. case tx w of None \<Rightarrow> w
     | Some T \<Rightarrow> w\<lparr>db := tx_saved T, tx := None\<rparr>)"

text \<open>\<^verbatim>\<open>tx.Commit\<close> of an aborted transaction rolls it back and returns an error.\<close>

definition commit_tx :: "unit res app" where
  "commit_tx = do {
     bad \<leftarrow> db_fault;
     w \<leftarrow> State_Monad.get;
     case tx w of
       None \<Rightarrow> ret (Inl pgerr)
     | Some T \<Rightarrow> (if bad \<or> tx_aborted T then do { roll_back; ret (Inl pgerr) }
        else do { modify (\<lambda>w. w\<lparr>tx := None\<rparr>); ret (Inr ()) }) }"

text \<open>
  \<^verbatim>\<open>database.RunInTenant\<close> and \<^verbatim>\<open>database.WithTenant\<close>: \<open>fn\<close> in a transaction whose tenant setting
  is \<open>tid\<close>. A panic in \<open>fn\<close> unwinds through the deferred rollback. The closures of the source
  leave a result in a captured variable, read only after success; here \<open>fn\<close> returns it.
\<close>

definition in_tenant_tx :: "string \<Rightarrow> string \<Rightarrow> string \<Rightarrow> 'a res app \<Rightarrow> 'a res app" where
  "in_tenant_tx m1 m2 tid fn = on_err begin_tx (\<lambda>e. ret (Inl (Wrap m1 e))) (\<lambda>_.
     on_err (set_tenant tid) (\<lambda>e. do { roll_back; ret (Inl (Wrap m2 e)) }) (\<lambda>_.
     on_err fn (\<lambda>e. do { roll_back; ret (Inl e) }) (\<lambda>x.
     on_err commit_tx (\<lambda>e. ret (Inl e)) (\<lambda>_. ret (Inr x)))))"

definition RunInTenant :: "string \<Rightarrow> 'a res app \<Rightarrow> 'a res app" where
  "RunInTenant = in_tenant_tx ''begin tenant tx'' ''set app.tenant_id''"

definition WithTenant :: "string \<Rightarrow> 'a res app \<Rightarrow> 'a res app" where
  "WithTenant = in_tenant_tx ''begin tx'' ''set tenant_id''"

section \<open>The bus, Redis and HTTP\<close>

definition natserr :: goerr where "natserr = Err ''nats: publish failed''"

definition js_publish :: "string \<Rightarrow> gval \<Rightarrow> unit res app" where
  "js_publish subj msg = do {
     f \<leftarrow> gets (\<lambda>w. next_fault (bus_faults w));
     modify (\<lambda>w. w\<lparr>bus_faults := snd f\<rparr>);
     if fst f then ret (Inl natserr)
     else do { modify (\<lambda>w. w\<lparr>bus := bus w @ [(subj, msg)]\<rparr>); ret (Inr ()) } }"

definition kv_fault :: "bool app" where
  "kv_fault = do {
     f \<leftarrow> gets (\<lambda>w. next_fault (kv_faults w));
     modify (\<lambda>w. w\<lparr>kv_faults := snd f\<rparr>);
     ret (fst f) }"

definition rediserr :: goerr where "rediserr = Err ''redis error''"

text \<open>A key whose expiry has passed is not there.\<close>

definition kv_live :: "world \<Rightarrow> int \<Rightarrow> string \<Rightarrow> string option" where
  "kv_live w t k = (case kv w k of None \<Rightarrow> None
     | Some (v, x) \<Rightarrow> (case x of None \<Rightarrow> Some v | Some e \<Rightarrow> if t < e then Some v else None))"

definition redis_publish :: "string \<Rightarrow> gval \<Rightarrow> unit res app" where
  "redis_publish ch msg = do {
     bad \<leftarrow> kv_fault;
     if bad then ret (Inl rediserr)
     else do { modify (\<lambda>w. w\<lparr>pubsub := pubsub w @ [(ch, msg)]\<rparr>); ret (Inr ()) } }"

text \<open>\<open>http.Client.Do\<close>: the request is on the wire before the answer, or its absence, is known.\<close>

definition http_do :: "http_request \<Rightarrow> http_response res app" where
  "http_do rq = do {
     w \<leftarrow> State_Monad.get;
     let r = http_resp w (length (http_log w));
     modify (\<lambda>w. w\<lparr>http_log := http_log w @ [rq]\<rparr>);
     ret (case r of None \<Rightarrow> Inl (Err ''http request failed'') | Some x \<Rightarrow> Inr x) }"

section \<open>An empty installation\<close>

text \<open>No rows, no faults; every HTTP request goes unanswered; one tick of the clock is a second.\<close>

definition empty_db :: db where
  "empty_db = \<lparr>tenants = [], subscribers = [], templates = [], workflows = [], runs = [],
     notifications = [], deliveries = [], suppressions = [], preferences = [], dlts = [],
     providers = [], ndnc = [], api_keys = [], consents = [], audits = []\<rparr>"

definition world0 :: "db \<Rightarrow> world" where
  "world0 d = \<lparr>db = d, tx = None, db_faults = [], bus = [], bus_faults = [], kv = (\<lambda>_. None),
     kv_faults = [], pubsub = [], http_log = [], http_resp = (\<lambda>_. None),
     clock = (\<lambda>n. int n * 10 ^ 9), ticks = 0,
     fresh = (\<lambda>n. ''id-'' @ nat_digits n), next_id = 0\<rparr>"

text \<open>The same inside a transaction of tenant \<open>t\<close>.\<close>

definition tx_world :: "string \<Rightarrow> db \<Rightarrow> world" where
  "tx_world t d = (world0 d)\<lparr>tx := Some \<lparr>tx_guc = t, tx_aborted = False, tx_now = 0, tx_saved = d\<rparr>\<rparr>"

text \<open>One tenant with one subscriber.\<close>

definition sample_db :: db where
  "sample_db = empty_db\<lparr>tenants := [\<lparr>tn_id = ''t1'', tn_name = ''Acme'', tn_slug = ''acme'',
       tn_key_hash = ''h'', tn_key_prefix = ''p''\<rparr>],
     subscribers := [\<lparr>sb_id = ''s1'', sb_tenant = ''t1'', sb_external = ''x1'',
       sb_email = Some ''enc-mail'', sb_phone = Some ''enc-phone'', sb_whatsapp = None,
       sb_push = GArr [], sb_locale = ''en'', sb_timezone = ''UTC'', sb_metadata = GObj [],
       sb_deleted = False, sb_created = 0\<rparr>]\<rparr>"

lemmas sample_defs = sample_db_def empty_db_def world0_def tx_world_def

end
