(* ===== verification/World_Logic.thy ===== *)
theory World_Logic
  imports World
begin

text \<open>
  Reasoning about the statements of \<open>World\<close>: one weakest-precondition rule per statement, and the
  frame and invariant rules that \<open>keeps_rules\<close> collects. \<open>quiet s s'\<close> says that only the
  schedules, the clock and the id counter moved, and perhaps the transaction was aborted;
  \<open>in_tx t d s\<close> that a transaction of tenant \<open>t\<close> is open, whose rollback restores \<open>d\<close>.
\<close>

definition cur_guc :: "world \<Rightarrow> string" where
  "cur_guc w = (case tx w of None \<Rightarrow> [] | Some T \<Rightarrow> tx_guc T)"

definition saved :: "world \<Rightarrow> db option" where
  "saved w = map_option tx_saved (tx w)"

definition effects :: "world \<Rightarrow>
    (string \<times> gval) list \<times> (string \<Rightarrow> (string \<times> int option) option) \<times> (string \<times> gval) list
      \<times> http_request list \<times> (nat \<Rightarrow> http_response option) \<times> (nat \<Rightarrow> int)" where
  "effects w = (bus w, kv w, pubsub w, http_log w, http_resp w, clock w)"

text \<open>A schedule without faults stays without faults.\<close>

definition calm :: "world \<Rightarrow> world \<Rightarrow> bool" where
  "calm s s' \<longleftrightarrow> (db_faults s = [] \<longrightarrow> db_faults s' = []) \<and> (bus_faults s = [] \<longrightarrow> bus_faults s' = [])
     \<and> (kv_faults s = [] \<longrightarrow> kv_faults s' = [])"

definition quiet :: "world \<Rightarrow> world \<Rightarrow> bool" where
  "quiet s s' \<longleftrightarrow> db s' = db s \<and> effects s' = effects s \<and> cur_guc s' = cur_guc s \<and> saved s' = saved s
     \<and> calm s s'"

definition in_tx :: "string \<Rightarrow> db \<Rightarrow> world \<Rightarrow> bool" where
  "in_tx t d w \<longleftrightarrow> (\<exists>T. tx w = Some T \<and> tx_guc T = t \<and> tx_saved T = d)"

lemma calm_refl [simp]: "calm s s"
  by (simp add: calm_def)

lemma calm_trans: "calm a b \<Longrightarrow> calm b c \<Longrightarrow> calm a c"
  by (simp add: calm_def)

lemma calm_update [simp]: "calm s (s'\<lparr>db := d\<rparr>) = calm s s'" "calm s (s'\<lparr>bus := b\<rparr>) = calm s s'"
  "calm s (s'\<lparr>tx := t\<rparr>) = calm s s'" "calm s (s'\<lparr>http_log := l\<rparr>) = calm s s'"
  "calm s (s'\<lparr>pubsub := p\<rparr>) = calm s s'" "calm s (s'\<lparr>kv := k\<rparr>) = calm s s'"
  "calm (s\<lparr>db := d\<rparr>) s' = calm s s'" "calm (s\<lparr>bus := b\<rparr>) s' = calm s s'"
  by (simp_all add: calm_def)

lemma quiet_calm: "quiet s s' \<Longrightarrow> calm s s'"
  by (simp add: quiet_def)

lemma quiet_refl [simp]: "quiet s s"
  by (simp add: quiet_def)

lemma quiet_trans: "quiet a b \<Longrightarrow> quiet b c \<Longrightarrow> quiet a c"
  unfolding quiet_def using calm_trans by (metis (no_types))

lemma quietD:
  "quiet s s' \<Longrightarrow> db s' = db s" "quiet s s' \<Longrightarrow> bus s' = bus s" "quiet s s' \<Longrightarrow> kv s' = kv s"
  "quiet s s' \<Longrightarrow> pubsub s' = pubsub s" "quiet s s' \<Longrightarrow> http_log s' = http_log s"
  "quiet s s' \<Longrightarrow> http_resp s' = http_resp s" "quiet s s' \<Longrightarrow> clock s' = clock s"
  "quiet s s' \<Longrightarrow> cur_guc s' = cur_guc s" "quiet s s' \<Longrightarrow> saved s' = saved s"
  by (auto simp: quiet_def effects_def)

lemma quiet_effects: "quiet s s' \<Longrightarrow> effects s' = effects s"
  by (simp add: quiet_def)

lemma effects_update [simp]: "effects (s\<lparr>db := d\<rparr>) = effects s" "effects (s\<lparr>tx := t\<rparr>) = effects s"
  by (simp_all add: effects_def)

lemma in_tx_iff: "in_tx t d w \<longleftrightarrow> saved w = Some d \<and> cur_guc w = t"
  by (auto simp: in_tx_def saved_def cur_guc_def split: option.splits)

lemma quiet_in_tx: "quiet s s' \<Longrightarrow> in_tx t d s' = in_tx t d s"
  by (simp add: in_tx_iff quiet_def)

lemma no_tx_iff: "tx w = None \<longleftrightarrow> saved w = None"
  by (simp add: saved_def)

lemma in_tx_guc: "in_tx t d s \<Longrightarrow> cur_guc s = t"
  by (simp add: in_tx_iff)

lemma in_tx_update [simp]: "in_tx t d (s\<lparr>db := x\<rparr>) = in_tx t d s"
  "in_tx t d (s\<lparr>bus := y\<rparr>) = in_tx t d s" "in_tx t d (s\<lparr>http_log := z\<rparr>) = in_tx t d s"
  "in_tx t d (s\<lparr>pubsub := p\<rparr>) = in_tx t d s" "in_tx t d (s\<lparr>kv := k\<rparr>) = in_tx t d s"
  by (simp_all add: in_tx_def)

lemma cur_guc_update [simp]: "cur_guc (s\<lparr>db := x\<rparr>) = cur_guc s" "cur_guc (s\<lparr>bus := y\<rparr>) = cur_guc s"
  "cur_guc (s\<lparr>http_log := z\<rparr>) = cur_guc s" "cur_guc (s\<lparr>pubsub := p\<rparr>) = cur_guc s"
  "cur_guc (s\<lparr>kv := k\<rparr>) = cur_guc s"
  by (simp_all add: cur_guc_def)

section \<open>Weakest preconditions\<close>

lemma wp_get [simp]: "wp State_Monad.get Q s = Q s s"
  by (simp add: wp_def State_Monad.get_def)

lemma wp_return_fun [simp]: "wp (ret x) Q = Q x"
  by (rule ext) simp

lemma wp_on_err [simp]:
  "wp (on_err m h k) Q s = wp m (\<lambda>r. case r of Inl e \<Rightarrow> wp (h e) Q | Inr x \<Rightarrow> wp (k x) Q) s"
  by (auto simp: on_err_def wp_def split: prod.splits sum.splits)

lemma wp_and_then [simp]:
  "wp (and_then m k) Q s = wp m (\<lambda>r. case r of Inl e \<Rightarrow> Q (Inl e) | Inr x \<Rightarrow> wp (k x) Q) s"
  unfolding and_then_def wp_on_err wp_return_fun ..

lemma wp_case_sum: "wp (case r of Inl e \<Rightarrow> f e | Inr x \<Rightarrow> g x) Q s
    = (case r of Inl e \<Rightarrow> wp (f e) Q s | Inr x \<Rightarrow> wp (g x) Q s)"
  by (cases r) auto

lemma wp_case_option: "wp (case r of None \<Rightarrow> m | Some x \<Rightarrow> g x) Q s
    = (case r of None \<Rightarrow> wp m Q s | Some x \<Rightarrow> wp (g x) Q s)"
  by (cases r) auto

lemma wp_case_prod: "wp (case r of (x, y) \<Rightarrow> g x y) Q s = (case r of (x, y) \<Rightarrow> wp (g x y) Q s)"
  by (cases r) auto

lemmas wp_cases = wp_case_sum wp_case_option wp_case_prod wp_if

lemma wp_time_now: "(\<And>t s'. quiet s s' \<Longrightarrow> Q t s') \<Longrightarrow> wp time_now Q s"
  by (simp add: time_now_def quiet_def effects_def cur_guc_def saved_def calm_def next_fault_def)

lemma wp_time_now_clock: "(\<And>n s'. quiet s s' \<Longrightarrow> tx s' = tx s \<Longrightarrow> Q (clock s n) s') \<Longrightarrow> wp time_now Q s"
  by (simp add: time_now_def quiet_def effects_def cur_guc_def saved_def calm_def next_fault_def)

lemma wp_db_fault: "(\<And>b s'. quiet s s' \<Longrightarrow> tx s' = tx s \<Longrightarrow> Q b s') \<Longrightarrow> wp db_fault Q s"
  by (simp add: db_fault_def quiet_def effects_def cur_guc_def saved_def calm_def next_fault_def)

text \<open>A failing statement leaves its transaction aborted, and none succeeds in an aborted one.\<close>

definition broken :: "world \<Rightarrow> bool" where
  "broken w \<longleftrightarrow> (\<exists>T. tx w = Some T \<and> tx_aborted T)"

lemma broken_tx: "tx s' = tx s \<Longrightarrow> broken s' = broken s"
  by (simp add: broken_def)

lemma broken_update [simp]: "broken (s\<lparr>db := d\<rparr>) = broken s" "broken (s\<lparr>bus := b\<rparr>) = broken s"
  "broken (s\<lparr>http_log := l\<rparr>) = broken s" "broken (s\<lparr>pubsub := p\<rparr>) = broken s"
  "broken (s\<lparr>kv := k\<rparr>) = broken s"
  by (simp_all add: broken_def)

lemma wp_stmt_strong:
  assumes err: "\<And>s'. quiet s s' \<Longrightarrow> (saved s \<noteq> None \<longrightarrow> broken s') \<Longrightarrow>
      (db_faults s = [] \<longrightarrow> broken s \<or> (\<exists>c. guc c = cur_guc s \<and> f c (db s) = None)) \<Longrightarrow> Q (Inl pgerr) s'"
    and ok: "\<And>s' c d x. quiet s s' \<Longrightarrow> guc c = cur_guc s \<Longrightarrow> \<not> broken s \<Longrightarrow> tx s' = tx s \<Longrightarrow>
      f c (db s) = Some (d, x) \<Longrightarrow> Q (Inr x) (s'\<lparr>db := d\<rparr>)"
  shows "wp (db_stmt f) Q s"
proof -
  let ?step = "\<lambda>w. w\<lparr>db_faults := snd (next_fault (db_faults w)), ticks := Suc (ticks w),
      next_id := Suc (next_id w)\<rparr>"
  have q: "quiet s ((?step s)\<lparr>tx := Some (T\<lparr>tx_aborted := True\<rparr>)\<rparr>)"
    "broken ((?step s)\<lparr>tx := Some (T\<lparr>tx_aborted := True\<rparr>)\<rparr>)" if "tx s = Some T" for T
    using that by (simp_all add: quiet_def effects_def cur_guc_def saved_def calm_def next_fault_def broken_def)
  have no_fault: "db_faults s = [] \<Longrightarrow> \<not> fst (next_fault (db_faults s))"
    by (simp add: next_fault_def)
  have q0: "quiet s (?step s)"
    by (simp add: quiet_def effects_def cur_guc_def saved_def calm_def next_fault_def)
  let ?bad = "fst (next_fault (db_faults s))" and ?i = "fresh s (next_id s)"
  have why: "db_faults s = [] \<longrightarrow> broken s \<or> (\<exists>c. guc c = cur_guc s \<and> f c (db s) = None)"
    if "?bad \<or> broken s \<or> f c (db s) = None" "guc c = cur_guc s" for c
    using that no_fault by auto
  show ?thesis
  proof (cases "tx s")
    case None
    let ?c = "\<lparr>guc = [], db_now = clock s (ticks s) div 1000, new_id = ?i\<rparr>"
    have g: "guc ?c = cur_guc s" using None by (simp add: cur_guc_def)
    have nb: "\<not> broken s" "saved s = None" using None by (simp_all add: broken_def saved_def)
    note run = db_stmt_def db_fault_def time_now_def Let_def wp_cases
    show ?thesis
    proof (cases "?bad \<or> f ?c (db s) = None")
      case True
      then have "Q (Inl pgerr) (?step s)"
        by (intro err q0 why [OF _ g]) (auto simp: nb)
      with True None show ?thesis by (auto simp: run)
    next
      case False
      then show ?thesis using None ok [OF q0 g] nb by (auto simp: run)
    qed
  next
    case (Some T)
    let ?c = "\<lparr>guc = tx_guc T, db_now = tx_now T, new_id = ?i\<rparr>"
    have g: "guc ?c = cur_guc s" using Some by (simp add: cur_guc_def)
    have b: "broken s = tx_aborted T" using Some by (simp add: broken_def)
    note run = db_stmt_def db_fault_def time_now_def Let_def wp_cases
    show ?thesis
    proof (cases "?bad \<or> tx_aborted T \<or> f ?c (db s) = None")
      case True
      then have "Q (Inl pgerr) ((?step s)\<lparr>tx := Some (T\<lparr>tx_aborted := True\<rparr>)\<rparr>)"
        by (intro err q(1) [OF Some] why [OF _ g]) (auto simp: b q(2) [OF Some])
      with True Some show ?thesis by (auto simp: run)
    next
      case False
      then show ?thesis using Some ok [OF q0 g] b by (auto simp: run)
    qed
  qed
qed

lemma wp_stmt:
  assumes "\<And>s'. quiet s s' \<Longrightarrow> Q (Inl pgerr) s'"
    and "\<And>s' c d x. quiet s s' \<Longrightarrow> guc c = cur_guc s \<Longrightarrow> f c (db s) = Some (d, x) \<Longrightarrow>
      Q (Inr x) (s'\<lparr>db := d\<rparr>)"
  shows "wp (db_stmt f) Q s"
  by (rule wp_stmt_strong) (auto intro: assms)

lemma wp_query:
  assumes "\<And>s'. quiet s s' \<Longrightarrow> Q (Inl pgerr) s'"
    and "\<And>s' c. quiet s s' \<Longrightarrow> guc c = cur_guc s \<Longrightarrow> Q (Inr (f c (db s))) s'"
  shows "wp (query f) Q s"
  unfolding query_def
proof (rule wp_stmt)
  fix s' c d x
  assume q: "quiet s s'" "guc c = cur_guc s" "Some (db s, f c (db s)) = Some (d, x)"
  then have "s'\<lparr>db := d\<rparr> = s'" by (simp add: quiet_def)
  with q show "Q (Inr x) (s'\<lparr>db := d\<rparr>)" using assms(2) [OF q(1,2)] by auto
qed (rule assms(1))

lemma wp_query_row:
  assumes "\<And>s' e. quiet s s' \<Longrightarrow> Q (Inl e) s'"
    and "\<And>s' c x. quiet s s' \<Longrightarrow> guc c = cur_guc s \<Longrightarrow> f c (db s) = Some x \<Longrightarrow> Q (Inr x) s'"
  shows "wp (query_row f) Q s"
  unfolding query_row_def wp_and_then
  by (rule wp_query) (auto simp: wp_cases assms split: option.splits)

text \<open>The same three, telling whether the transaction broke.\<close>

lemma wp_query_row_strong:
  assumes "\<And>s' e. quiet s s' \<Longrightarrow> (e \<noteq> ErrNoRows \<Longrightarrow> saved s \<noteq> None \<Longrightarrow> broken s') \<Longrightarrow>
      (e \<noteq> ErrNoRows \<Longrightarrow> db_faults s = [] \<Longrightarrow> broken s) \<Longrightarrow>
      (e = ErrNoRows \<Longrightarrow> \<not> broken s \<and> (\<exists>c. guc c = cur_guc s \<and> f c (db s) = None)) \<Longrightarrow> Q (Inl e) s'"
    and "\<And>s' c x. quiet s s' \<Longrightarrow> guc c = cur_guc s \<Longrightarrow> \<not> broken s \<Longrightarrow> tx s' = tx s \<Longrightarrow>
      f c (db s) = Some x \<Longrightarrow> Q (Inr x) s'"
  shows "wp (query_row f) Q s"
  unfolding query_row_def wp_and_then query_def
proof (rule wp_stmt_strong, goal_cases)
  case (1 s')
  then show ?case using assms(1) [of s' pgerr] by (simp add: pgerr_def ErrNoRows_def)
next
  case (2 s' c d x)
  then have d: "s'\<lparr>db := d\<rparr> = s'" by (simp add: quiet_def)
  show ?case
  proof (cases "f c (db s)")
    case None
    with 2 d show ?thesis using assms(1) [of s' ErrNoRows] by (auto simp: wp_cases)
  next
    case (Some y)
    with 2 have "x = Some y" "d = db s" by auto
    with 2 d Some show ?thesis using assms(2) [of s' c y] by simp
  qed
qed

lemma wp_query_strong:
  assumes "\<And>s'. quiet s s' \<Longrightarrow> (saved s \<noteq> None \<longrightarrow> broken s') \<Longrightarrow>
      (db_faults s = [] \<longrightarrow> broken s) \<Longrightarrow> Q (Inl pgerr) s'"
    and "\<And>s' c. quiet s s' \<Longrightarrow> guc c = cur_guc s \<Longrightarrow> \<not> broken s \<Longrightarrow> tx s' = tx s \<Longrightarrow>
      Q (Inr (f c (db s))) s'"
  shows "wp (query f) Q s"
  unfolding query_def
proof (rule wp_stmt_strong)
  fix s' c d x
  assume q: "quiet s s'" "guc c = cur_guc s" "\<not> broken s" "tx s' = tx s" "Some (db s, f c (db s)) = Some (d, x)"
  then have "s'\<lparr>db := d\<rparr> = s'" by (simp add: quiet_def)
  with q show "Q (Inr x) (s'\<lparr>db := d\<rparr>)" using assms(2) [OF q(1-4)] by auto
qed (auto intro: assms(1))

lemma wp_exec_strong:
  assumes "\<And>s'. quiet s s' \<Longrightarrow> (saved s \<noteq> None \<longrightarrow> broken s') \<Longrightarrow>
      (db_faults s = [] \<longrightarrow> broken s \<or> (\<exists>c. guc c = cur_guc s \<and> f c (db s) = None)) \<Longrightarrow> Q (Inl pgerr) s'"
    and "\<And>s' c d. quiet s s' \<Longrightarrow> guc c = cur_guc s \<Longrightarrow> \<not> broken s \<Longrightarrow> tx s' = tx s \<Longrightarrow>
      f c (db s) = Some d \<Longrightarrow> Q (Inr ()) (s'\<lparr>db := d\<rparr>)"
  shows "wp (exec f) Q s"
  unfolding exec_def
  by (rule wp_stmt_strong) (auto intro: assms)

lemma wp_exec:
  assumes "\<And>s'. quiet s s' \<Longrightarrow> Q (Inl pgerr) s'"
    and "\<And>s' c d. quiet s s' \<Longrightarrow> guc c = cur_guc s \<Longrightarrow> f c (db s) = Some d \<Longrightarrow>
      Q (Inr ()) (s'\<lparr>db := d\<rparr>)"
  shows "wp (exec f) Q s"
  unfolding exec_def
  by (rule wp_stmt) (auto intro: assms)

lemma wp_js_publish:
  assumes "\<And>s'. quiet s s' \<Longrightarrow> tx s' = tx s \<Longrightarrow> bus_faults s \<noteq> [] \<Longrightarrow> Q (Inl natserr) s'"
    and "\<And>s'. quiet s s' \<Longrightarrow> tx s' = tx s \<Longrightarrow> Q (Inr ()) (s'\<lparr>bus := bus s @ [(subj, msg)]\<rparr>)"
  shows "wp (js_publish subj msg) Q s"
proof -
  have q: "quiet s (s\<lparr>bus_faults := snd (next_fault (bus_faults s))\<rparr>)"
    by (simp add: quiet_def effects_def cur_guc_def saved_def calm_def next_fault_def)
  show ?thesis
    using assms(1) [OF q] assms(2) [OF q]
    by (auto simp: js_publish_def next_fault_def split: list.splits)
qed

lemma wp_http_do:
  assumes "\<And>r. Q r (s\<lparr>http_log := http_log s @ [rq]\<rparr>)"
  shows "wp (http_do rq) Q s"
  using assms by (simp add: http_do_def Let_def)

lemma wp_kv_fault:
  assumes "\<And>b s'. quiet s s' \<Longrightarrow> tx s' = tx s \<Longrightarrow> (b \<Longrightarrow> kv_faults s \<noteq> []) \<Longrightarrow> Q b s'"
  shows "wp kv_fault Q s"
proof -
  have "quiet s (s\<lparr>kv_faults := snd (next_fault (kv_faults s))\<rparr>)"
    by (simp add: quiet_def effects_def cur_guc_def saved_def calm_def next_fault_def)
  then show ?thesis
    by (auto simp: kv_fault_def next_fault_def split: list.splits intro: assms)
qed

lemma wp_redis_publish:
  assumes "\<And>s'. quiet s s' \<Longrightarrow> Q (Inl rediserr) s'"
    and "\<And>s'. quiet s s' \<Longrightarrow> Q (Inr ()) (s'\<lparr>pubsub := pubsub s @ [(ch, msg)]\<rparr>)"
  shows "wp (redis_publish ch msg) Q s"
  unfolding redis_publish_def wp_bind
  by (rule wp_kv_fault) (auto simp: assms quietD)

section \<open>A tenant transaction\<close>

text \<open>
  The run of \<open>fn\<close> decides: an error rolls back, a success commits, unless the commit fails. The
  state after the rollback has the tables of the start and the effects \<open>fn\<close> had elsewhere.
\<close>

lemma wp_roll_back:
  "in_tx t d s \<Longrightarrow> wp roll_back Q s = Q () (s\<lparr>db := d, tx := None\<rparr>)"
  by (auto simp: roll_back_def in_tx_def)

lemma wp_commit_tx:
  assumes "in_tx t d s"
    and "\<And>s'. quiet s s' \<Longrightarrow> db_faults s \<noteq> [] \<or> broken s \<Longrightarrow> Q (Inl pgerr) (s'\<lparr>db := d, tx := None\<rparr>)"
    and "\<And>s'. quiet s s' \<Longrightarrow> \<not> broken s \<Longrightarrow> Q (Inr ()) (s'\<lparr>tx := None\<rparr>)"
  shows "wp commit_tx Q s"
proof -
  from assms(1) obtain T where T: "tx s = Some T" "tx_saved T = d" by (auto simp: in_tx_def)
  have q: "quiet s (s\<lparr>db_faults := snd (next_fault (db_faults s))\<rparr>)"
    by (simp add: quiet_def effects_def cur_guc_def saved_def calm_def next_fault_def)
  show ?thesis
    using T assms(2) [OF q] assms(3) [OF q]
    by (auto simp: commit_tx_def db_fault_def roll_back_def broken_def next_fault_def split: list.splits)
qed

lemma wp_begin_tx:
  assumes "saved s = None"
    and "\<And>s'. quiet s s' \<Longrightarrow> db_faults s \<noteq> [] \<Longrightarrow> Q (Inl pgerr) s'"
    and "\<And>s'. db s' = db s \<Longrightarrow> effects s' = effects s \<Longrightarrow> calm s s' \<Longrightarrow> \<not> broken s' \<Longrightarrow>
      in_tx [] (db s) s' \<Longrightarrow> Q (Inr ()) s'"
  shows "wp begin_tx Q s"
proof -
  have q: "quiet s (s\<lparr>db_faults := snd (next_fault (db_faults s)), ticks := n\<rparr>)" for n
    by (simp add: quiet_def effects_def cur_guc_def saved_def calm_def next_fault_def)
  show ?thesis
    using assms(2) [OF q] assms(3)
    by (auto simp: begin_tx_def db_fault_def time_now_def effects_def in_tx_def calm_def broken_def
        next_fault_def split: list.splits)
qed

lemma wp_set_tenant:
  assumes "in_tx t0 d s"
    and "\<And>s'. quiet s s' \<Longrightarrow> db_faults s \<noteq> [] \<or> broken s \<Longrightarrow> Q (Inl pgerr) s'"
    and "\<And>s'. db s' = db s \<Longrightarrow> effects s' = effects s \<Longrightarrow> calm s s' \<Longrightarrow> \<not> broken s' \<Longrightarrow>
      in_tx t d s' \<Longrightarrow> Q (Inr ()) s'"
  shows "wp (set_tenant t) Q s"
proof -
  from assms(1) obtain T where T: "tx s = Some T" "tx_saved T = d" by (auto simp: in_tx_def)
  have q: "quiet s (s\<lparr>db_faults := snd (next_fault (db_faults s)), tx := Some (T\<lparr>tx_aborted := True\<rparr>)\<rparr>)"
    using T by (simp add: quiet_def effects_def cur_guc_def saved_def calm_def next_fault_def)
  show ?thesis
    using T assms(2) [OF q] assms(3)
    by (auto simp: set_tenant_def db_fault_def effects_def in_tx_def calm_def broken_def
        next_fault_def split: list.splits)
qed

lemma wp_in_tenant_tx:
  assumes "saved s = None"
    and err: "\<And>e s'. db s' = db s \<Longrightarrow> effects s' = effects s \<Longrightarrow> calm s s' \<Longrightarrow> tx s' = None \<Longrightarrow>
      db_faults s \<noteq> [] \<Longrightarrow> Q (Inl e) s'"
    and run: "\<And>s1. db s1 = db s \<Longrightarrow> effects s1 = effects s \<Longrightarrow> calm s s1 \<Longrightarrow> \<not> broken s1 \<Longrightarrow>
      in_tx t (db s) s1 \<Longrightarrow>
      wp fn (\<lambda>r s2. in_tx t (db s) s2 \<and> (case r of
          Inl e \<Rightarrow> Q (Inl e) (s2\<lparr>db := db s, tx := None\<rparr>)
        | Inr x \<Rightarrow> (\<forall>s3. quiet s2 s3 \<longrightarrow>
             (db_faults s2 \<noteq> [] \<or> broken s2 \<longrightarrow> Q (Inl pgerr) (s3\<lparr>db := db s, tx := None\<rparr>))
             \<and> (\<not> broken s2 \<longrightarrow> Q (Inr x) (s3\<lparr>tx := None\<rparr>))))) s1"
  shows "wp (in_tenant_tx m1 m2 t fn) Q s"
proof -
  have none: "tx s' = None" if "quiet s s'" for s'
    using that assms(1) by (simp add: quiet_def no_tx_iff)
  show ?thesis
    unfolding in_tenant_tx_def wp_on_err
  proof (rule wp_begin_tx [OF assms(1)], goal_cases)
    case (1 s')
    then show ?case by (simp add: err none quiet_def effects_def)
  next
    case (2 s')
    note b = this
    show ?case
      unfolding sum.case wp_on_err
    proof (rule wp_set_tenant [OF b(5)], goal_cases)
      case (1 s'')
      then have tx: "in_tx [] (db s) s''" and f: "db_faults s \<noteq> []"
        using b by (auto simp: quiet_in_tx calm_def)
      have "calm s s''" using b(3) 1(1) by (auto simp: quiet_def intro: calm_trans)
      then show ?case using 1 b f by (auto simp: wp_roll_back [OF tx] quiet_effects intro!: err)
    next
      case (2 s'')
      note c = this
      have "wp fn (\<lambda>r s2. in_tx t (db s) s2 \<and> (case r of
          Inl e \<Rightarrow> Q (Inl e) (s2\<lparr>db := db s, tx := None\<rparr>)
        | Inr x \<Rightarrow> (\<forall>s3. quiet s2 s3 \<longrightarrow>
             (db_faults s2 \<noteq> [] \<or> broken s2 \<longrightarrow> Q (Inl pgerr) (s3\<lparr>db := db s, tx := None\<rparr>))
             \<and> (\<not> broken s2 \<longrightarrow> Q (Inr x) (s3\<lparr>tx := None\<rparr>))))) s''"
        using b c by (intro run) (auto intro: calm_trans)
      then show ?case
        unfolding sum.case wp_on_err
        by (rule wp_mono) (auto simp: wp_roll_back split: sum.splits intro!: wp_commit_tx)
    qed
  qed
qed

lemmas wp_RunInTenant = wp_in_tenant_tx [where ?m1.0 = "''begin tenant tx''"
    and ?m2.0 = "''set app.tenant_id''", folded RunInTenant_def]

section \<open>Frame rules\<close>

text \<open>\<open>same v x\<close>: the part \<open>v\<close> of the world is \<open>x\<close>.\<close>

definition same :: "(world \<Rightarrow> 'v) \<Rightarrow> 'v \<Rightarrow> world \<Rightarrow> bool" where
  "same v x w \<longleftrightarrow> v w = x"

lemma keeps_same: "keeps (same v x) m \<Longrightarrow> v s = x \<Longrightarrow> wp m (\<lambda>_ s'. v s' = x) s"
  using keeps_wp [of "same v x" m s] by (simp add: same_def [abs_def])

lemma keeps_by_wp: "(\<And>s. P s \<Longrightarrow> wp m (\<lambda>_. P) s) \<Longrightarrow> keeps P m"
  unfolding keeps_def wp_def by (metis (mono_tags, lifting) case_prod_beta)

lemma keeps_get [keeps_rules]: "keeps P State_Monad.get"
  by (simp add: keeps_def State_Monad.get_def)

lemma keeps_on_err [keeps_rules]:
  "keeps P m \<Longrightarrow> (\<And>e. keeps P (h e)) \<Longrightarrow> (\<And>x. keeps P (k x)) \<Longrightarrow> keeps P (on_err m h k)"
  unfolding on_err_def by (intro keeps_rules)

lemma keeps_and_then [keeps_rules]:
  "keeps P m \<Longrightarrow> (\<And>x. keeps P (k x)) \<Longrightarrow> keeps P (and_then m k)"
  unfolding and_then_def by (intro keeps_rules)

lemma keeps_let [keeps_rules]: "keeps P (f x) \<Longrightarrow> keeps P (Let x f)"
  by simp

text \<open>A part of the world that only some statements touch.\<close>

definition offline :: "(world \<Rightarrow> 'v) \<Rightarrow> bool" where
  "offline v \<longleftrightarrow> (\<forall>w w'. effects w = effects w' \<longrightarrow> v w = v w')"

lemma offline_http [simp]: "offline http_log" and offline_bus [simp]: "offline bus"
  and offline_pubsub [simp]: "offline pubsub" and offline_kv [simp]: "offline kv"
  by (auto simp: offline_def effects_def)

lemma offline_quiet: "offline v \<Longrightarrow> effects s' = effects s \<Longrightarrow> v s' = v s"
  unfolding offline_def by blast

lemma keeps_offline_stmt: "offline v \<Longrightarrow> keeps (same v x) (db_stmt f)"
  by (rule keeps_by_wp, rule wp_stmt) (auto simp: same_def quiet_effects intro: offline_quiet)

lemma keeps_offline_db [keeps_rules]:
  assumes "offline v"
  shows "keeps (same v x) (query f)" "keeps (same v x) (query_row g)" "keeps (same v x) (exec h)"
  unfolding query_def query_row_def exec_def
  by (intro keeps_rules keeps_offline_stmt assms)+

lemma keeps_time_now [keeps_rules]: "keeps (same db x) time_now" "offline v \<Longrightarrow> keeps (same v y) time_now"
  by (rule keeps_by_wp, rule wp_time_now, auto simp: same_def quiet_def intro: offline_quiet)+

lemma keeps_offline_effects:
  "offline v \<Longrightarrow> (\<And>s. effects (snd (run_state m s)) = effects s) \<Longrightarrow> keeps (same v x) m"
  unfolding keeps_def same_def by (metis offline_quiet)

lemma effects_sched [simp]: "effects (s\<lparr>db_faults := f\<rparr>) = effects s"
  "effects (s\<lparr>ticks := n\<rparr>) = effects s" "effects (s\<lparr>next_id := i\<rparr>) = effects s"
  by (simp_all add: effects_def)

lemma keeps_offline_set_tenant: "offline v \<Longrightarrow> keeps (same v x) (set_tenant t)"
  by (rule keeps_offline_effects)
    (auto simp: set_tenant_def db_fault_def gets_def modify_def State_Monad.get_def split: option.splits)

lemma keeps_offline_tx [keeps_rules]:
  assumes "offline v" and fn: "keeps (same v x) fn"
  shows "keeps (same v x) (in_tenant_tx m1 m2 t fn)"
proof -
  note defs = begin_tx_def roll_back_def commit_tx_def db_fault_def time_now_def gets_def modify_def
    State_Monad.get_def
  have "keeps (same v x) begin_tx" "keeps (same v x) roll_back" "keeps (same v x) commit_tx"
    by (rule keeps_offline_effects [OF assms(1)], auto simp: defs split: option.splits)+
  with assms show ?thesis
    unfolding in_tenant_tx_def by (intro keeps_rules keeps_offline_set_tenant)
qed

lemma keeps_offline_run [keeps_rules]:
  "offline v \<Longrightarrow> keeps (same v x) fn \<Longrightarrow> keeps (same v x) (RunInTenant t fn)"
  unfolding RunInTenant_def by (rule keeps_offline_tx)

lemma keeps_http_publish [keeps_rules]: "keeps (same http_log x) (js_publish s m)"
  "keeps (same pubsub y) (js_publish s m)" "keeps (same db z) (js_publish s m)"
  by (rule keeps_by_wp, rule wp_js_publish, auto simp: same_def quietD)+

lemma keeps_http_redis [keeps_rules]: "keeps (same http_log x) (redis_publish s m)"
  "keeps (same bus y) (redis_publish s m)" "keeps (same db z) (redis_publish s m)"
  by (rule keeps_by_wp, rule wp_redis_publish, auto simp: same_def quietD)+

lemma keeps_http_do [keeps_rules]: "keeps (same bus x) (http_do r)" "keeps (same pubsub y) (http_do r)"
  "keeps (same db z) (http_do r)"
  by (rule keeps_by_wp, rule wp_http_do, simp add: same_def)+

lemma keeps_query_db [keeps_rules]: "keeps (same db x) (query f)" "keeps (same db x) (query_row g)"
  by (rule keeps_by_wp, rule wp_query wp_query_row, auto simp: same_def quiet_def)+

section \<open>Running a concrete world\<close>

lemmas run_defs = State_Monad.bind_def State_Monad.get_def gets_def modify_def on_err_def
  and_then_def db_fault_def time_now_def next_fault_def db_stmt_def query_def query_row_def exec_def
  begin_tx_def set_tenant_def roll_back_def commit_tx_def in_tenant_tx_def RunInTenant_def
  js_publish_def kv_fault_def redis_publish_def http_do_def Let_def ErrNoRows_def pgerr_def

end
