(* ===== verification/Messaging.thy ===== *)
theory Messaging
  imports World_Logic
begin

text \<open>
  \<^verbatim>\<open>platform/messaging\<close> (streams.go, consume.go) and \<^verbatim>\<open>platform/events\<close> (subjects.go, types.go):
  the subject scheme, the streams that bind it, and what happens to a message whose handler
  fails. JetStream itself is the redelivery loop \<open>deliver\<close>: a message that was nak'd is delivered
  again until the consumer's \<^verbatim>\<open>MaxDeliver\<close> attempts are used up.
\<close>

section \<open>Subjects\<close>

definition EventSubject :: "string \<Rightarrow> string" where
  "EventSubject tid = ''qeet-notify.'' @ tid @ ''.events''"

definition ChannelSubject :: "string \<Rightarrow> string \<Rightarrow> string" where
  "ChannelSubject tid channel = ''qeet-notify.'' @ tid @ ''.channel.'' @ channel"

definition DeliverySubject :: "string \<Rightarrow> string" where
  "DeliverySubject tid = ''qeet-notify.'' @ tid @ ''.delivery''"

definition DLQSubject :: "string \<Rightarrow> string" where
  "DLQSubject tid = ''qeet-notify.'' @ tid @ ''.dlq''"

definition TenantFromSubject :: "string \<Rightarrow> string" where
  "TenantFromSubject subject = (let parts = splitN CHR ''.'' 3 subject in
     if length parts \<ge> 2 \<and> parts ! 0 = ''qeet-notify'' then parts ! 1 else [])"

text \<open>The functions of the same names in \<^verbatim>\<open>platform/events/subjects.go\<close>.\<close>

definition events_EventSubject :: "string \<Rightarrow> string" where
  "events_EventSubject tid = ''qeet-notify.'' @ tid @ ''.events''"

definition events_ChannelSubject :: "string \<Rightarrow> string \<Rightarrow> string" where
  "events_ChannelSubject tid channel = ''qeet-notify.'' @ tid @ ''.channel.'' @ channel"

definition events_DeliverySubject :: "string \<Rightarrow> string" where
  "events_DeliverySubject tid = ''qeet-notify.'' @ tid @ ''.delivery''"

definition events_DLQSubject :: "string \<Rightarrow> string" where
  "events_DLQSubject tid = ''qeet-notify.'' @ tid @ ''.dlq''"

text \<open>A tenant id is one token of a subject (a UUID has no dot).\<close>

definition token :: "string \<Rightarrow> bool" where
  "token t \<longleftrightarrow> t \<noteq> [] \<and> CHR ''.'' \<notin> set t"

lemma TenantFromSubject_any:
  assumes "CHR ''.'' \<notin> set t"
  shows "TenantFromSubject (''qeet-notify.'' @ t @ ''.'' @ rest) = t"
proof -
  have "splitN CHR ''.'' 3 (''qeet-notify'' @ CHR ''.'' # t @ CHR ''.'' # rest)
      = ''qeet-notify'' # splitN CHR ''.'' 2 (t @ CHR ''.'' # rest)"
    by (subst numeral_3_eq_3, subst splitN_append) (simp_all add: numeral_2_eq_2)
  also have "splitN CHR ''.'' 2 (t @ CHR ''.'' # rest) = t # splitN CHR ''.'' 1 rest"
    using assms by (subst numeral_2_eq_2, subst splitN_append) simp_all
  finally show ?thesis by (simp add: TenantFromSubject_def)
qed

text \<open>
  What the services rely on: the tenant can be read back from every subject of the scheme. The
  two packages that spell the subjects are both instances, so a publisher that uses one and a
  consumer that uses the other agree.
\<close>

locale subject_scheme =
  fixes event :: "string \<Rightarrow> string" and channel_of :: "string \<Rightarrow> string \<Rightarrow> string"
    and delivery :: "string \<Rightarrow> string" and dlq :: "string \<Rightarrow> string"
    and tenant_of :: "string \<Rightarrow> string"
  assumes event_tenant: "token t \<Longrightarrow> tenant_of (event t) = t"
    and channel_tenant: "token t \<Longrightarrow> tenant_of (channel_of t c) = t"
    and delivery_tenant: "token t \<Longrightarrow> tenant_of (delivery t) = t"
    and dlq_tenant: "token t \<Longrightarrow> tenant_of (dlq t) = t"
begin

lemma dlq_of_channel: "token t \<Longrightarrow> dlq (tenant_of (channel_of t c)) = dlq t"
  by (simp add: channel_tenant)

lemma subjects_separate_tenants:
  "token t \<Longrightarrow> token u \<Longrightarrow> t \<noteq> u \<Longrightarrow>
     event t \<noteq> event u \<and> channel_of t c \<noteq> channel_of u d \<and> delivery t \<noteq> delivery u \<and> dlq t \<noteq> dlq u"
  by (metis event_tenant channel_tenant delivery_tenant dlq_tenant)

end

interpretation messaging: subject_scheme EventSubject ChannelSubject DeliverySubject DLQSubject
    TenantFromSubject
  using TenantFromSubject_any
  by unfold_locales
    (auto simp: token_def EventSubject_def ChannelSubject_def DeliverySubject_def DLQSubject_def)

interpretation events: subject_scheme events_EventSubject events_ChannelSubject
    events_DeliverySubject events_DLQSubject TenantFromSubject
  using TenantFromSubject_any
  by unfold_locales
    (auto simp: token_def events_EventSubject_def events_ChannelSubject_def
      events_DeliverySubject_def events_DLQSubject_def)

section \<open>Streams\<close>

datatype retention = WorkQueuePolicy | LimitsPolicy

record stream_config =
  sc_name :: string
  sc_subjects :: "string list"
  sc_retention :: retention
  sc_max_age :: int

definition hour :: int where "hour = 3600 * 10 ^ 9"

definition streamDefs :: "stream_config list" where
  "streamDefs = map (\<lambda>(n, s, r, a). \<lparr>sc_name = n, sc_subjects = [s], sc_retention = r, sc_max_age = a\<rparr>)
    [(''NOTIFY_EVENTS'', ''qeet-notify.*.events'', WorkQueuePolicy, 7 * 24 * hour),
     (''NOTIFY_EMAIL'', ''qeet-notify.*.channel.email'', WorkQueuePolicy, 7 * 24 * hour),
     (''NOTIFY_SMS'', ''qeet-notify.*.channel.sms'', WorkQueuePolicy, 7 * 24 * hour),
     (''NOTIFY_WHATSAPP'', ''qeet-notify.*.channel.whatsapp'', WorkQueuePolicy, 7 * 24 * hour),
     (''NOTIFY_PUSH'', ''qeet-notify.*.channel.push'', WorkQueuePolicy, 7 * 24 * hour),
     (''NOTIFY_INAPP'', ''qeet-notify.*.channel.inapp'', WorkQueuePolicy, 7 * 24 * hour),
     (''NOTIFY_WEBHOOK'', ''qeet-notify.*.channel.webhook'', WorkQueuePolicy, 7 * 24 * hour),
     (''NOTIFY_DELIVERY'', ''qeet-notify.*.delivery'', LimitsPolicy, 30 * 24 * hour),
     (''NOTIFY_DLQ'', ''qeet-notify.*.dlq'', LimitsPolicy, 14 * 24 * hour)]"

text \<open>
  \<^verbatim>\<open>EnsureStreams\<close>; the server's \<^verbatim>\<open>CreateOrUpdateStream\<close> is the argument.
\<close>

fun ensure_streams :: "(stream_config \<Rightarrow> unit res app) \<Rightarrow> stream_config list \<Rightarrow> unit res app" where
  "ensure_streams create [] = ret (Inr ())"
| "ensure_streams create (d # ds) =
     on_err (create d) (\<lambda>e. ret (Inl (Wrap (''ensure stream '' @ sc_name d) e)))
       (\<lambda>_. ensure_streams create ds)"

definition EnsureStreams :: "(stream_config \<Rightarrow> unit res app) \<Rightarrow> unit res app" where
  "EnsureStreams create = ensure_streams create streamDefs"

text \<open>NATS matches a subject to a filter token by token; \<^verbatim>\<open>*\<close> stands for one token.\<close>

fun tokens_match :: "string list \<Rightarrow> string list \<Rightarrow> bool" where
  "tokens_match [] [] = True"
| "tokens_match (p # ps) (s # ss) = ((p = ''*'' \<and> s \<noteq> [] \<or> p = s) \<and> tokens_match ps ss)"
| "tokens_match _ _ = False"

definition subject_matches :: "string \<Rightarrow> string \<Rightarrow> bool" where
  "subject_matches pat subj = tokens_match (split_on CHR ''.'' pat) (split_on CHR ''.'' subj)"

definition streams_for :: "string \<Rightarrow> string list" where
  "streams_for subj =
     map sc_name (filter (\<lambda>d. \<exists>p \<in> set (sc_subjects d). subject_matches p subj) streamDefs)"

lemma split_subject:
  "CHR ''.'' \<notin> set t \<Longrightarrow> split_on CHR ''.'' (''qeet-notify.'' @ t @ ''.'' @ rest)
     = [''qeet-notify'', t] @ split_on CHR ''.'' rest"
  using split_on_append [of "CHR ''.''" t rest] by simp

lemma streams_for_subject:
  assumes "token t"
  shows "streams_for (''qeet-notify.'' @ t @ ''.'' @ rest) =
    map sc_name (filter (\<lambda>d. tokens_match (drop 2 (split_on CHR ''.'' (hd (sc_subjects d))))
      (split_on CHR ''.'' rest)) streamDefs)"
proof -
  have s: "split_on CHR ''.'' (''qeet-notify.'' @ t @ ''.'' @ rest)
      = ''qeet-notify'' # t # split_on CHR ''.'' rest"
    using assms split_subject [of t rest] by (simp add: token_def)
  show ?thesis
    unfolding streams_for_def subject_matches_def s
    using assms by (simp add: streamDefs_def token_def)
qed

section \<open>Failures, redelivery and the dead-letter queue\<close>

definition DefaultMaxDeliver :: nat where "DefaultMaxDeliver = 5"

datatype disposition = Ack | Nak | NakWithDelay int | Terminate

record js_msg =
  m_subject :: string
  m_text :: string
  m_json :: "gval option"
  m_delivered :: "nat option"

definition dlq_entry :: "string \<Rightarrow> string \<Rightarrow> nat \<Rightarrow> string \<Rightarrow> gval" where
  "dlq_entry subj e n text = GObj [(''data'', GStr text), (''delivered'', GInt (int n)),
     (''error'', GStr e), (''subject'', GStr subj)]"

definition HandleFailure :: "js_msg \<Rightarrow> nat \<Rightarrow> goerr option \<Rightarrow> disposition app" where
  "HandleFailure msg maxDeliver handlerErr = (let
       delivered = (case m_delivered msg of None \<Rightarrow> 1 | Some n \<Rightarrow> n) in
     if delivered < maxDeliver then ret Nak
     else let errMsg = (case handlerErr of None \<Rightarrow> ''unknown error'' | Some e \<Rightarrow> err_str e) in
       on_err (js_publish (DLQSubject (TenantFromSubject (m_subject msg)))
           (dlq_entry (m_subject msg) errMsg delivered (m_text msg)))
         (\<lambda>_. ret Nak)
         (\<lambda>_. ret Terminate))"

text \<open>
  The life of a message on a consumer with \<^verbatim>\<open>MaxDeliver = Suc r + k - 1\<close>: \<open>h\<close> is one run of the
  worker's handler on the \<open>k\<close>-th delivery. \<open>Dropped\<close>: nak'd on the last delivery the server makes.
\<close>

datatype fate = Handled | DeadLettered | Dropped

fun deliver :: "nat \<Rightarrow> nat \<Rightarrow> nat \<Rightarrow> (js_msg \<Rightarrow> unit res app) \<Rightarrow> js_msg \<Rightarrow> fate app" where
  "deliver 0 k maxDeliver h m = ret Dropped"
| "deliver (Suc r) k maxDeliver h m =
     on_err (h (m\<lparr>m_delivered := Some k\<rparr>))
       (\<lambda>e. do {
          d \<leftarrow> HandleFailure (m\<lparr>m_delivered := Some k\<rparr>) maxDeliver (Some e);
          case d of Nak \<Rightarrow> deliver r (Suc k) maxDeliver h m
            | NakWithDelay _ \<Rightarrow> deliver r (Suc k) maxDeliver h m
            | Terminate \<Rightarrow> ret DeadLettered
            | Ack \<Rightarrow> ret Handled })
       (\<lambda>_. ret Handled)"

text \<open>A handler that fails on every delivery, leaving the bus as it is.\<close>

definition always_fails :: "(js_msg \<Rightarrow> unit res app) \<Rightarrow> goerr \<Rightarrow> bool" where
  "always_fails h e \<longleftrightarrow> (\<forall>m w. run_state (h m) w = (Inl e, w))"

lemma deliver_fails:
  assumes "always_fails h e" and "k + r = maxDeliver" and "r < n"
  shows "run_state (deliver n k maxDeliver h m) w
    = run_state (deliver (n - r) maxDeliver maxDeliver h m) w"
  using assms(2,3)
proof (induction r arbitrary: n k)
  case (Suc r)
  then obtain n' where n: "n = Suc n'" by (cases n) auto
  have "run_state (deliver n k maxDeliver h m) w = run_state (deliver n' (Suc k) maxDeliver h m) w"
    using assms(1) Suc.prems
    by (simp add: n always_fails_def on_err_def HandleFailure_def)
  also have "\<dots> = run_state (deliver (n' - r) maxDeliver maxDeliver h m) w"
    using Suc.prems n by (intro Suc.IH) simp_all
  finally show ?case using n by simp
qed simp

section \<open>Properties\<close>

text \<open>
  Every subject the services publish to is bound by exactly one stream, the one its consumers
  read: an event by NOTIFY_EVENTS, a channel job by the stream of its channel, a delivery event by
  NOTIFY_DELIVERY and a dead letter by NOTIFY_DLQ, whatever the tenant.
\<close>

theorem subjects_one_stream:
  assumes "token t"
  shows "streams_for (EventSubject t) = [''NOTIFY_EVENTS'']
    \<and> map (\<lambda>c. streams_for (ChannelSubject t c)) channels
      = [[''NOTIFY_EMAIL''], [''NOTIFY_SMS''], [''NOTIFY_WHATSAPP''], [''NOTIFY_PUSH''],
         [''NOTIFY_INAPP''], [''NOTIFY_WEBHOOK'']]
    \<and> streams_for (DeliverySubject t) = [''NOTIFY_DELIVERY'']
    \<and> streams_for (DLQSubject t) = [''NOTIFY_DLQ'']"
proof -
  note s = streams_for_subject [OF assms, simplified]
  show ?thesis
    by (simp add: EventSubject_def ChannelSubject_def DeliverySubject_def DLQSubject_def
        s channels_def streamDefs_def)
qed

theorem subjects_one_stream_witness:
  "streams_for (ChannelSubject ''t1'' ''sms'') = [''NOTIFY_SMS'']"
  using subjects_one_stream [of "''t1''"] by (simp add: token_def channels_def)



text \<open>
  The comment in \<^verbatim>\<open>HandleFailure\<close> says a message that cannot be dead-lettered is nak'd so that
  it is not silently lost. It is lost: the nak answers the last delivery the consumer's
  \<^verbatim>\<open>MaxDeliver\<close> allows, nothing redelivers the message, and the dead-letter queue has no copy.
\<close>

theorem failed_dead_letter_is_lost:
  assumes "always_fails h e" and "bus_faults w = [True]"
  shows "run_state (deliver DefaultMaxDeliver 1 DefaultMaxDeliver h m) w
    = (Dropped, w\<lparr>bus_faults := []\<rparr>)"
proof -
  have "run_state (deliver DefaultMaxDeliver 1 DefaultMaxDeliver h m) w
      = run_state (deliver (DefaultMaxDeliver - 4) DefaultMaxDeliver DefaultMaxDeliver h m) w"
    by (rule deliver_fails [OF assms(1)]) (simp_all add: DefaultMaxDeliver_def)
  also have "\<dots> = (Dropped, w\<lparr>bus_faults := []\<rparr>)"
    using assms
    by (simp add: DefaultMaxDeliver_def always_fails_def on_err_def HandleFailure_def
        js_publish_def next_fault_def Let_def)
  finally show ?thesis .
qed

theorem failed_dead_letter_is_lost_witness:
  "fst (run_state (deliver DefaultMaxDeliver 1 DefaultMaxDeliver (\<lambda>_. ret (Inl (Err ''boom'')))
     \<lparr>m_subject = ChannelSubject ''t1'' ''sms'', m_text = ''x'', m_json = None, m_delivered = None\<rparr>)
     (world0 empty_db\<lparr>bus_faults := [True]\<rparr>)) = Dropped"
  by (subst failed_dead_letter_is_lost) (simp_all add: always_fails_def world0_def)

end
