(* ===== verification/Security.thy ===== *)
theory Security
  imports Go_Values "HOL-Library.Word"
begin

unbundle bit_operations_syntax

text \<open>
  \<^verbatim>\<open>platform/security\<close>: SHA-256 and HMAC-SHA-256 (FIPS 180-4 and RFC 2104, which
  \<^verbatim>\<open>crypto/sha256\<close> and \<^verbatim>\<open>crypto/hmac\<close> implement), their hexadecimal form, and the masking of
  personal data for the log. Suppression lists, API keys and the NDNC registry store the hex
  digest of a value and never the value.
\<close>

section \<open>SHA-256\<close>

text \<open>
  The constants, as FIPS 180-4 derives them: the first 32 bits of the fractional parts of the
  square roots of the first 8 primes and of the cube roots of the first 64. \<open>root_below k n b 0\<close> is
  the \<open>k\<close>-th root of \<open>n\<close>, rounded down, when that has at most \<open>b\<close> bits.
\<close>

fun root_below :: "nat \<Rightarrow> nat \<Rightarrow> nat \<Rightarrow> nat \<Rightarrow> nat" where
  "root_below k n 0 acc = acc"
| "root_below k n (Suc b) acc =
     root_below k n b (if (acc + 2 ^ b) ^ k \<le> n then acc + 2 ^ b else acc)"

definition primes_below :: "nat \<Rightarrow> nat list" where
  "primes_below m = filter (\<lambda>n. list_all (\<lambda>d. n mod d \<noteq> 0) [2..<n]) [2..<m]"

definition root_bits :: "nat \<Rightarrow> nat \<Rightarrow> 32 word" where
  "root_bits k p = word_of_nat (root_below k (p * 2 ^ (32 * k)) 36 0)"

definition sha_k :: "32 word list" where
  "sha_k = map (root_bits 3) (primes_below 312)"

definition sha_iv :: "32 word list" where
  "sha_iv = map (root_bits 2) (primes_below 20)"

definition rotr :: "nat \<Rightarrow> 32 word \<Rightarrow> 32 word" where
  "rotr n x = (drop_bit n x) OR (push_bit (32 - n) x)"

definition sha_s0 :: "32 word \<Rightarrow> 32 word" where
  "sha_s0 x = rotr 7 x XOR rotr 18 x XOR drop_bit 3 x"

definition sha_s1 :: "32 word \<Rightarrow> 32 word" where
  "sha_s1 x = rotr 17 x XOR rotr 19 x XOR drop_bit 10 x"

definition sha_S0 :: "32 word \<Rightarrow> 32 word" where
  "sha_S0 x = rotr 2 x XOR rotr 13 x XOR rotr 22 x"

definition sha_S1 :: "32 word \<Rightarrow> 32 word" where
  "sha_S1 x = rotr 6 x XOR rotr 11 x XOR rotr 25 x"

definition be32 :: "nat \<Rightarrow> nat \<Rightarrow> nat \<Rightarrow> nat \<Rightarrow> 32 word" where
  "be32 a b c d = of_nat (((a * 256 + b) * 256 + c) * 256 + d)"

fun words_of :: "nat list \<Rightarrow> 32 word list" where
  "words_of (a # b # c # d # r) = be32 a b c d # words_of r"
| "words_of _ = []"

text \<open>The message schedule, the newest word first.\<close>

fun schedule :: "nat \<Rightarrow> 32 word list \<Rightarrow> 32 word list" where
  "schedule 0 ws = rev ws"
| "schedule (Suc n) ws =
     schedule n ((sha_s1 (ws ! 1) + ws ! 6 + sha_s0 (ws ! 14) + ws ! 15) # ws)"

fun sha_rounds :: "(32 word \<times> 32 word) list \<Rightarrow> 32 word list \<Rightarrow> 32 word list" where
  "sha_rounds ((k, w) # r) [a, b, c, d, e, f, g, h] =
     (let t1 = h + sha_S1 e + ((e AND f) XOR (NOT e AND g)) + k + w;
          t2 = sha_S0 a + ((a AND b) XOR (a AND c) XOR (b AND c))
      in sha_rounds r [t1 + t2, a, b, c, d + t1, e, f, g])"
| "sha_rounds _ st = st"

definition sha_block :: "32 word list \<Rightarrow> nat list \<Rightarrow> 32 word list" where
  "sha_block st blk =
     map2 (+) st (sha_rounds (zip sha_k (schedule 48 (rev (words_of blk)))) st)"

function sha_blocks :: "32 word list \<Rightarrow> nat list \<Rightarrow> 32 word list" where
  "sha_blocks st bs =
     (if length bs < 64 then st else sha_blocks (sha_block st (take 64 bs)) (drop 64 bs))"
  by pat_completeness auto
termination by (relation "measure (\<lambda>(st, bs). length bs)") auto

declare sha_blocks.simps [simp del]

fun be_bytes :: "nat \<Rightarrow> nat \<Rightarrow> nat list" where
  "be_bytes 0 x = []"
| "be_bytes (Suc n) x = be_bytes n (x div 256) @ [x mod 256]"

definition sha_pad :: "nat list \<Rightarrow> nat list" where
  "sha_pad bs = bs @ [128] @ replicate ((119 - length bs mod 64) mod 64) 0
     @ be_bytes 8 (8 * length bs)"

definition sha256_bytes :: "nat list \<Rightarrow> nat list" where
  "sha256_bytes bs = concat (map (\<lambda>w. be_bytes 4 (unat w)) (sha_blocks sha_iv (sha_pad bs)))"

definition bytes_of :: "string \<Rightarrow> nat list" where
  "bytes_of s = map of_char s"

text \<open>\<^verbatim>\<open>hex.EncodeToString\<close>.\<close>

definition hex_char :: "nat \<Rightarrow> char" where
  "hex_char n = ''0123456789abcdef'' ! n"

definition EncodeToString :: "nat list \<Rightarrow> string" where
  "EncodeToString bs = concat (map (\<lambda>b. [hex_char (b div 16), hex_char (b mod 16)]) bs)"

text \<open>\<^verbatim>\<open>sha256.Sum256\<close> and \<^verbatim>\<open>hex.EncodeToString\<close> together, as every caller has them.\<close>

definition sha256_hex :: "string \<Rightarrow> string" where
  "sha256_hex s = EncodeToString (sha256_bytes (bytes_of s))"

section \<open>HMAC\<close>

definition hmac_key :: "nat list \<Rightarrow> nat list" where
  "hmac_key k = (let k' = (if length k > 64 then sha256_bytes k else k) in
     k' @ replicate (64 - length k') 0)"

definition xor_byte :: "nat \<Rightarrow> nat \<Rightarrow> nat" where
  "xor_byte a b = a XOR b"

definition hmac_sha256 :: "nat list \<Rightarrow> nat list \<Rightarrow> nat list" where
  "hmac_sha256 key msg = (let k = hmac_key key in
     sha256_bytes (map (xor_byte 92) k @ sha256_bytes (map (xor_byte 54) k @ msg)))"

definition SignHMAC :: "string \<Rightarrow> string \<Rightarrow> string" where
  "SignHMAC secret payload = EncodeToString (hmac_sha256 (bytes_of secret) (bytes_of payload))"

definition VerifyHMAC :: "string \<Rightarrow> string \<Rightarrow> string \<Rightarrow> bool" where
  "VerifyHMAC secret payload sig = (SignHMAC secret payload = sig)"

section \<open>Masking\<close>

definition MaskEmail :: "string \<Rightarrow> string" where
  "MaskEmail email = (case str_index email ''@'' of
     None \<Rightarrow> ''***''
   | Some at \<Rightarrow> if at \<le> 0 then ''***''
       else let local = take at email; dom = drop at email in
         if length local \<le> 2 then ''**'' @ dom
         else take 2 local @ replicate (length local - 2) CHR ''*'' @ dom)"

text \<open>
  The count of stars is computed before the length-7 guard, and \<^verbatim>\<open>strings.Repeat\<close> panics on a
  negative count.
\<close>

definition MaskPhone :: "string \<Rightarrow> string res" where
  "MaskPhone phone = (if length phone \<le> 4 then Inr ''****''
     else let pre = take 3 phone; suf = drop (length phone - 4) phone in
       case Repeat ''*'' (int (length phone) - 7) of
         None \<Rightarrow> Inl (Panic ''strings: negative Repeat count'')
       | Some middle \<Rightarrow> if length phone \<le> 7 then Inr (pre @ ''****'') else Inr (pre @ middle @ suf))"

section \<open>Sizes\<close>

lemma length_be_bytes [simp]: "length (be_bytes n x) = n"
  by (induction n arbitrary: x) auto

lemma length_sha_rounds: "length st = 8 \<Longrightarrow> length (sha_rounds r st) = 8"
  by (induction r st rule: sha_rounds.induct) (auto simp: Let_def)

lemma length_sha_block: "length st = 8 \<Longrightarrow> length (sha_block st blk) = 8"
  by (simp add: sha_block_def length_sha_rounds)

lemma length_sha_blocks: "length st = 8 \<Longrightarrow> length (sha_blocks st bs) = 8"
proof (induction st bs rule: sha_blocks.induct)
  case (1 st bs)
  then show ?case by (subst sha_blocks.simps) (simp add: length_sha_block)
qed

lemma length_concat_const: "(\<And>x. x \<in> set xs \<Longrightarrow> length (f x) = k) \<Longrightarrow> length (concat (map f xs)) = length xs * k"
  by (induction xs) auto

lemma length_sha_iv: "length sha_iv = 8"
  by (simp add: sha_iv_def primes_below_def upt_rec)

lemma length_sha256 [simp]: "length (sha256_bytes bs) = 32"
  unfolding sha256_bytes_def
  by (subst length_concat_const [where k = 4]) (simp_all add: length_sha_blocks length_sha_iv)

lemma length_sha256_hex [simp]: "length (sha256_hex s) = 64"
  unfolding sha256_hex_def EncodeToString_def
  by (subst length_concat_const [where k = 2]) simp_all

lemma length_SignHMAC [simp]: "length (SignHMAC k m) = 64"
  unfolding SignHMAC_def EncodeToString_def hmac_sha256_def Let_def
  by (subst length_concat_const [where k = 2]) simp_all

section \<open>Properties\<close>

text \<open>
  The masked form of an address keeps the domain and at most the first two characters of the
  local part: two addresses that agree there, and in length, are masked alike, so nothing else of
  the address reaches the log.
\<close>

theorem MaskEmail_hides:
  assumes "CHR ''@'' \<notin> set l" and "CHR ''@'' \<notin> set l'" and "length l = length l'"
    and "take 2 l = take 2 l'" and "l \<noteq> []"
  shows "MaskEmail (l @ ''@'' @ d) = MaskEmail (l' @ ''@'' @ d)
    \<and> length (MaskEmail (l @ ''@'' @ d)) \<le> length l + length d + 2"
proof -
  have ix: "str_index (k @ CHR ''@'' # d) ''@'' = Some (length k)" if "CHR ''@'' \<notin> set k" for k
    using that by (induction k) auto
  show ?thesis
    using assms by (auto simp: MaskEmail_def Let_def Suc_le_eq ix [OF assms(1)] ix [OF assms(2)])
qed

theorem MaskEmail_hides_witness:
  "MaskEmail ''anna@x.in'' = MaskEmail ''anzz@x.in''"
  using MaskEmail_hides [of "''anna''" "''anzz''" "''x.in''"] by simp

text \<open>
  \<^verbatim>\<open>MaskPhone\<close> panics on every number of five or six characters, although its later branch
  for at most seven characters is meant to mask them; it masks every other number, keeping at
  most the first three and the last four characters.
\<close>

theorem MaskPhone_panics:
  "(\<exists>e. MaskPhone p = Inl e) = (length p = 5 \<or> length p = 6)
   \<and> (7 < length p \<longrightarrow> MaskPhone p
        = Inr (take 3 p @ replicate (length p - 7) CHR ''*'' @ drop (length p - 4) p))"
proof -
  have rep: "concat (replicate n [c]) = replicate n c" for n and c :: char
    by (induction n) auto
  show ?thesis
    by (auto simp: MaskPhone_def Repeat_def Let_def rep nat_diff_distrib)
qed

theorem MaskPhone_panics_witness:
  "MaskPhone ''+91987'' = Inl (Panic ''strings: negative Repeat count'')
   \<and> MaskPhone ''+919876543210'' = Inr ''+91******3210''"
  using MaskPhone_panics [of "''+91987''"] MaskPhone_panics [of "''+919876543210''"]
  by (simp add: MaskPhone_def Repeat_def)

text \<open>
  The webhook signature is 64 hexadecimal characters, and exactly the signature of the same
  payload under the same secret verifies.
\<close>

theorem VerifyHMAC_iff:
  "VerifyHMAC k m sig = (sig = SignHMAC k m) \<and> length (SignHMAC k m) = 64"
  by (auto simp: VerifyHMAC_def)

end
