(* ===== verification/Preferences.thy ===== *)
theory Preferences
  imports World_Logic Security
begin

text \<open>
  \<^verbatim>\<open>domains/subscribers/preferences\<close> and \<^verbatim>\<open>domains/subscribers/consent\<close>: opt-outs, the
  suppression list, the consent ledger and the erasure of a subscriber's personal data. Every
  function takes the querier of its caller, here the current transaction of the world.
\<close>

definition hashValue :: "string \<Rightarrow> string" where
  "hashValue v = sha256_hex v"

definition nilIfEmpty :: "string \<Rightarrow> string option" where
  "nilIfEmpty s = (if s = [] then None else Some s)"

section \<open>Preferences\<close>

text \<open>
  The rows a lookup considers, and its \<^verbatim>\<open>ORDER BY\<close>: the channel's own row before that of
  \<^verbatim>\<open>all\<close>, then the category's own before that of \<^verbatim>\<open>all\<close>.
\<close>

definition pref_match :: "string \<Rightarrow> string \<Rightarrow> string \<Rightarrow> string \<Rightarrow> preference_row \<Rightarrow> bool" where
  "pref_match t s ch cat r \<longleftrightarrow> pf_tenant r = t \<and> pf_subscriber r = s
     \<and> (pf_channel r = ch \<or> pf_channel r = ''all'') \<and> (pf_category r = cat \<or> pf_category r = ''all'')"

definition pref_rank :: "string \<Rightarrow> string \<Rightarrow> preference_row \<Rightarrow> nat" where
  "pref_rank ch cat r = (if pf_channel r = ch then 0 else 2) + (if pf_category r = cat then 0 else 1)"

definition opted_in_row :: "sctx \<Rightarrow> db \<Rightarrow> string \<Rightarrow> string \<Rightarrow> string \<Rightarrow> string \<Rightarrow> bool option" where
  "opted_in_row c d t s ch cat =
     (case sort_key (pref_rank ch cat)
         (filter (\<lambda>r. sees c (pf_tenant r) \<and> pref_match t s ch cat r) (preferences d)) of
        [] \<Rightarrow> None | r # _ \<Rightarrow> Some (pf_opted_in r))"

text \<open>Any error, the missing row among them, counts as opted in.\<close>

definition IsOptedIn :: "string \<Rightarrow> string \<Rightarrow> string \<Rightarrow> string \<Rightarrow> bool res app" where
  "IsOptedIn tid sid ch cat =
     on_err (query_row (\<lambda>c d. opted_in_row c d tid sid ch cat))
       (\<lambda>_. ret (Inr True)) (\<lambda>b. ret (Inr b))"

definition suppressed_in :: "sctx \<Rightarrow> db \<Rightarrow> string \<Rightarrow> string \<Rightarrow> string \<Rightarrow> bool" where
  "suppressed_in c d t ch h = list_ex (\<lambda>r. sees c (su_tenant r) \<and> su_tenant r = t
     \<and> su_channel r = ch \<and> su_hash r = h) (suppressions d)"

definition IsSuppressed :: "string \<Rightarrow> string \<Rightarrow> string \<Rightarrow> bool res app" where
  "IsSuppressed tid ch plain = (let h = hashValue plain in
     on_err (query (\<lambda>c d. suppressed_in c d tid ch h))
       (\<lambda>e. ret (Inl (Wrap ''suppression check'' e))) (\<lambda>b. ret (Inr b)))"

text \<open>
  An insert into a forced table is refused when the row's tenant is not the transaction's. The
  \<^verbatim>\<open>ON CONFLICT DO NOTHING\<close> skips a row that breaks uniqueness, not one that breaks a check.
\<close>

definition insert_suppression :: "sctx \<Rightarrow> db \<Rightarrow> string \<Rightarrow> string \<Rightarrow> string \<Rightarrow> string \<Rightarrow> db option" where
  "insert_suppression c d t ch h reason =
     (if \<not> sees c t \<or> ch \<notin> set channels \<or> reason \<notin> set suppression_reasons
         \<or> t \<notin> tn_id ` set (tenants d) then None
      else if list_ex (\<lambda>r. su_tenant r = t \<and> su_channel r = ch \<and> su_hash r = h) (suppressions d)
      then Some d
      else Some (d\<lparr>suppressions := suppressions d @ [\<lparr>su_id = new_id c, su_tenant = t,
             su_channel = ch, su_hash = h, su_reason = reason, su_created = db_now c\<rparr>]\<rparr>))"

definition AddSuppression :: "string \<Rightarrow> string \<Rightarrow> string \<Rightarrow> string \<Rightarrow> unit res app" where
  "AddSuppression tid ch plain reason = (let h = hashValue plain in
     exec (\<lambda>c d. insert_suppression c d tid ch h reason))"

definition pref_key :: "preference_row \<Rightarrow> string \<times> string \<times> string \<times> string" where
  "pref_key r = (pf_tenant r, pf_subscriber r, pf_channel r, pf_category r)"

text \<open>\<^verbatim>\<open>INSERT ... ON CONFLICT (tenant, subscriber, channel, category) DO UPDATE\<close>.\<close>

definition upsert_preference :: "sctx \<Rightarrow> db \<Rightarrow> preference_row \<Rightarrow> db option" where
  "upsert_preference c d r =
     (if \<not> sees c (pf_tenant r) \<or> pf_channel r \<notin> set (''all'' # channels)
         \<or> pf_tenant r \<notin> tn_id ` set (tenants d) \<or> pf_subscriber r \<notin> sb_id ` set (subscribers d)
      then None
      else if list_ex (\<lambda>q. pref_key q = pref_key r) (preferences d)
      then Some (d\<lparr>preferences := update_where (\<lambda>q. pref_key q = pref_key r)
             (\<lambda>q. q\<lparr>pf_opted_in := pf_opted_in r\<rparr>) (preferences d)\<rparr>)
      else Some (d\<lparr>preferences := preferences d @ [r]\<rparr>))"

definition Unsubscribe :: "string \<Rightarrow> string \<Rightarrow> string \<Rightarrow> unit res app" where
  "Unsubscribe tid sid ch = exec (\<lambda>c d. upsert_preference c d
     \<lparr>pf_tenant = tid, pf_subscriber = sid, pf_channel = ch, pf_category = ''all'',
      pf_opted_in = False\<rparr>)"

definition erase_row :: "subscriber_row \<Rightarrow> subscriber_row" where
  "erase_row r = r\<lparr>sb_email := None, sb_phone := None, sb_whatsapp := None, sb_push := GArr [],
     sb_metadata := GObj [], sb_deleted := True\<rparr>"

definition EraseSubscriber :: "string \<Rightarrow> string \<Rightarrow> unit res app" where
  "EraseSubscriber tid sid = exec (\<lambda>c d. Some (d\<lparr>subscribers :=
     update_where (\<lambda>r. sees c (sb_tenant r) \<and> sb_id r = sid \<and> sb_tenant r = tid) erase_row
       (subscribers d)\<rparr>))"

section \<open>The consent ledger\<close>

record entry =
  ce_tenant :: string
  ce_subscriber :: string
  ce_channel :: string
  ce_category :: string
  ce_opted_in :: bool
  ce_source :: string
  ce_purpose :: string
  ce_version :: string
  ce_actor :: string
  ce_ip :: string

definition consent_of :: "sctx \<Rightarrow> entry \<Rightarrow> consent_row" where
  "consent_of c e = \<lparr>cl_tenant = ce_tenant e, cl_subscriber = ce_subscriber e,
     cl_channel = ce_channel e,
     cl_category = (if ce_category e = [] then ''all'' else ce_category e),
     cl_opted_in = ce_opted_in e,
     cl_source = (if ce_source e = [] then ''api'' else ce_source e),
     cl_purpose = nilIfEmpty (ce_purpose e), cl_version = nilIfEmpty (ce_version e),
     cl_actor = nilIfEmpty (ce_actor e), cl_ip = nilIfEmpty (ce_ip e), cl_created = db_now c\<rparr>"

definition insert_consent :: "sctx \<Rightarrow> db \<Rightarrow> entry \<Rightarrow> db option" where
  "insert_consent c d e =
     (if \<not> sees c (ce_tenant e) \<or> ce_tenant e \<notin> tn_id ` set (tenants d)
         \<or> ce_subscriber e \<notin> sb_id ` set (subscribers d) then None
      else Some (d\<lparr>consents := consents d @ [consent_of c e]\<rparr>))"

definition consent_Record :: "entry \<Rightarrow> unit res app" where
  "consent_Record e = on_err (exec (\<lambda>c d. insert_consent c d e))
     (\<lambda>err. ret (Inl (Wrap ''consent record'' err))) (\<lambda>_. ret (Inr ()))"

text \<open>Newest first: \<^verbatim>\<open>ORDER BY created_at DESC\<close>, a stable order on equal times.\<close>

definition history_rows :: "sctx \<Rightarrow> db \<Rightarrow> string \<Rightarrow> string \<Rightarrow> consent_row list" where
  "history_rows c d t s = sort_key (\<lambda>r. - cl_created r)
     (filter (\<lambda>r. sees c (cl_tenant r) \<and> cl_tenant r = t \<and> cl_subscriber r = s) (consents d))"

definition History :: "string \<Rightarrow> string \<Rightarrow> consent_row list res app" where
  "History tid sid = on_err (query (\<lambda>c d. history_rows c d tid sid))
     (\<lambda>e. ret (Inl (Wrap ''consent history'' e))) (\<lambda>rs. ret (Inr rs))"

section \<open>Isolation of tenants\<close>

text \<open>The rows of the forced tables that belong to other tenants.\<close>

definition foreign :: "string \<Rightarrow> db \<Rightarrow> subscriber_row list \<times> preference_row list
    \<times> suppression_row list \<times> consent_row list \<times> audit_row list" where
  "foreign t d = (filter (\<lambda>r. sb_tenant r \<noteq> t) (subscribers d),
     filter (\<lambda>r. pf_tenant r \<noteq> t) (preferences d), filter (\<lambda>r. su_tenant r \<noteq> t) (suppressions d),
     filter (\<lambda>r. cl_tenant r \<noteq> t) (consents d), filter (\<lambda>r. au_tenant r \<noteq> t) (audits d))"

definition isolated :: "string \<Rightarrow> db \<Rightarrow> world \<Rightarrow> bool" where
  "isolated t d0 w \<longleftrightarrow> in_tx t d0 w \<and> foreign t (db w) = foreign t d0"

lemma keeps_isolated_exec:
  assumes "\<And>c d d'. guc c = t \<Longrightarrow> f c d = Some d' \<Longrightarrow> foreign t d' = foreign t d"
  shows "keeps (isolated t d0) (exec f)"
  by (rule keeps_by_wp, rule wp_exec)
    (auto simp: isolated_def quiet_in_tx quietD(1) in_tx_guc intro: trans [OF assms])

lemma keeps_isolated_query [keeps_rules]:
  "keeps (isolated t d0) (query g)" "keeps (isolated t d0) (query_row h)"
  by (rule keeps_by_wp, rule wp_query wp_query_row, auto simp: isolated_def quiet_in_tx quietD(1))+

text \<open>
  What the callers of these functions rely on: an operation that runs in a tenant's transaction
  changes rows of that tenant only, even if it is handed another tenant's id.
\<close>

locale tenant_scoped =
  fixes act :: "'a \<Rightarrow> unit res app"
  assumes scoped: "keeps (isolated t d0) (act a)"
begin

lemma run_keeps_foreign:
  assumes "saved s = None"
  shows "wp (in_tenant_tx m1 m2 t (act a)) (\<lambda>_ s'. foreign t (db s') = foreign t (db s)) s"
proof (rule wp_in_tenant_tx [OF assms], goal_cases)
  case (2 s1)
  then have "isolated t (db s) s1" by (simp add: isolated_def)
  from keeps_wp [OF scoped this] show ?case
    by (rule wp_mono) (auto simp: isolated_def quietD(1) split: sum.splits)
qed simp

end

lemma foreign_insert_suppression:
  "insert_suppression c d t' ch h r = Some d' \<Longrightarrow> guc c = t \<Longrightarrow> foreign t d' = foreign t d"
  by (auto simp: insert_suppression_def foreign_def sees_def split: if_splits)

lemma foreign_upsert_preference:
  "upsert_preference c d r = Some d' \<Longrightarrow> guc c = t \<Longrightarrow> foreign t d' = foreign t d"
  by (auto simp: upsert_preference_def foreign_def sees_def pref_key_def split: if_splits
      intro!: filter_update_where)

lemma foreign_insert_consent:
  "insert_consent c d e = Some d' \<Longrightarrow> guc c = t \<Longrightarrow> foreign t d' = foreign t d"
  by (auto simp: insert_consent_def foreign_def sees_def consent_of_def split: if_splits)

lemma foreign_erase:
  "guc c = t \<Longrightarrow> foreign t (d\<lparr>subscribers := update_where
     (\<lambda>r. sees c (sb_tenant r) \<and> sb_id r = sid \<and> sb_tenant r = tid) erase_row (subscribers d)\<rparr>)
   = foreign t d"
  by (auto simp: foreign_def sees_def erase_row_def intro!: filter_update_where)

interpretation suppress: tenant_scoped "\<lambda>(t, ch, v, r). AddSuppression t ch v r"
  by unfold_locales (auto simp: AddSuppression_def Let_def split: prod.splits
      intro!: keeps_isolated_exec foreign_insert_suppression)

interpretation unsubscribe: tenant_scoped "\<lambda>(t, s, ch). Unsubscribe t s ch"
  by unfold_locales (auto simp: Unsubscribe_def split: prod.splits
      intro!: keeps_isolated_exec foreign_upsert_preference)

interpretation erase: tenant_scoped "\<lambda>(t, s). EraseSubscriber t s"
  by unfold_locales (auto simp: EraseSubscriber_def foreign_erase split: prod.splits
      intro!: keeps_isolated_exec)

interpretation ledger: tenant_scoped consent_Record
  by unfold_locales (auto simp: consent_Record_def foreign_insert_consent
      intro!: keeps_rules keeps_isolated_exec)

section \<open>Uniqueness\<close>

text \<open>The \<^verbatim>\<open>UNIQUE\<close> constraints of the two tables, which the conflict clauses keep.\<close>

definition sup_key :: "suppression_row \<Rightarrow> string \<times> string \<times> string" where
  "sup_key r = (su_tenant r, su_channel r, su_hash r)"

definition keys_unique :: "db \<Rightarrow> bool" where
  "keys_unique d \<longleftrightarrow> distinct (map pref_key (preferences d)) \<and> distinct (map sup_key (suppressions d))"

lemma distinct_snoc_key:
  "distinct (map f xs) \<Longrightarrow> \<forall>x \<in> set xs. f x \<noteq> f y \<Longrightarrow> distinct (map f (xs @ [y]))"
  by auto

lemma map_pref_key_update:
  "map pref_key (update_where p (\<lambda>q. q\<lparr>pf_opted_in := b\<rparr>) ps) = map pref_key ps"
  by (rule map_update_where) (simp add: pref_key_def)

lemma upsert_unique: "upsert_preference c d r = Some d' \<Longrightarrow> keys_unique d \<Longrightarrow> keys_unique d'"
  unfolding upsert_preference_def keys_unique_def
  by (auto simp: list_ex_iff map_pref_key_update simp del: map_append
      intro!: distinct_snoc_key split: if_splits)

lemma insert_suppression_unique:
  "insert_suppression c d t ch h x = Some d' \<Longrightarrow> keys_unique d \<Longrightarrow> keys_unique d'"
  unfolding insert_suppression_def keys_unique_def
  by (auto simp: list_ex_iff sup_key_def simp del: map_append
      intro!: distinct_snoc_key split: if_splits) metis

section \<open>Which preference row decides\<close>

text \<open>The four rows that can decide, the most specific first.\<close>

definition pref_row :: "db \<Rightarrow> string \<Rightarrow> string \<Rightarrow> string \<Rightarrow> string \<Rightarrow> bool option" where
  "pref_row d t s ch cat =
     map_option pf_opted_in (find (\<lambda>r. pref_key r = (t, s, ch, cat)) (preferences d))"

definition pref_chain :: "db \<Rightarrow> string \<Rightarrow> string \<Rightarrow> string \<Rightarrow> string \<Rightarrow> bool option" where
  "pref_chain d t s ch cat = first_some (\<lambda>(a, b). pref_row d t s a b)
     [(ch, cat), (ch, ''all''), (''all'', cat), (''all'', ''all'')]"

lemma opted_in_row_chain:
  assumes "sees c t" and "ch \<noteq> ''all''"
  shows "opted_in_row c d t s ch cat = pref_chain d t s ch cat"
proof -
  let ?m = "\<lambda>r. sees c (pf_tenant r) \<and> pref_match t s ch cat r"
  let ?f = "pref_rank ch cat" and ?P = "preferences d"
  have lt: "\<forall>x \<in> set (filter ?m ?P). ?f x < 4" by (simp add: pref_rank_def)
  have at: "find (\<lambda>x. ?f x = k) (filter ?m ?P)
      = find (\<lambda>r. ?m r \<and> ?f r = k) ?P" for k by (rule find_filter)
  have k0: "find (\<lambda>r. ?m r \<and> ?f r = 0) ?P = find (\<lambda>r. pref_key r = (t, s, ch, cat)) ?P"
    using assms by (intro find_cong') (auto simp: pref_match_def pref_rank_def pref_key_def)
  have k1: "find (\<lambda>r. ?m r \<and> ?f r = 1) ?P
      = (if cat = ''all'' then None else find (\<lambda>r. pref_key r = (t, s, ch, ''all'')) ?P)"
    using assms
    by (auto simp: find_None_all pref_match_def pref_rank_def pref_key_def intro!: find_cong')
  have k2: "find (\<lambda>r. ?m r \<and> ?f r = 2) ?P = find (\<lambda>r. pref_key r = (t, s, ''all'', cat)) ?P"
    using assms by (intro find_cong') (auto simp: pref_match_def pref_rank_def pref_key_def)
  have k3: "find (\<lambda>r. ?m r \<and> ?f r = 3) ?P
      = (if cat = ''all'' then None else find (\<lambda>r. pref_key r = (t, s, ''all'', ''all'')) ?P)"
    using assms
    by (auto simp: find_None_all pref_match_def pref_rank_def pref_key_def intro!: find_cong')
  have "opted_in_row c d t s ch cat = map_option pf_opted_in
      (first_some (\<lambda>k. find (\<lambda>x. ?f x = k) (filter ?m ?P)) [0..<4])"
    unfolding opted_in_row_def sort_key_first [OF lt, symmetric]
    by (simp split: list.splits)
  also have "\<dots> = pref_chain d t s ch cat"
    using k0 k1 k2 k3
    by (auto simp: at pref_chain_def pref_row_def upt_rec_numeral upt_rec [of 0] numeral_2_eq_2
        numeral_3_eq_3 eval_nat_numeral split: option.splits)
  finally show ?thesis .
qed

section \<open>Properties\<close>



text \<open>
  A value on the suppression list is found by every later check of its tenant and channel,
  adding it twice is the same as adding it once, and the insert never breaks uniqueness.
\<close>

theorem AddSuppression_IsSuppressed:
  assumes "insert_suppression c d t ch (hashValue v) x = Some d'"
  shows "suppressed_in c d' t ch (hashValue v)
    \<and> insert_suppression c d' t ch (hashValue v) x = Some d'
    \<and> (keys_unique d \<longrightarrow> keys_unique d')"
proof -
  have "suppressed_in c d' t ch (hashValue v)"
    using assms unfolding insert_suppression_def suppressed_in_def list_ex_iff
    by (auto split: if_splits) metis
  moreover have "insert_suppression c d' t ch (hashValue v) x = Some d'"
    using assms by (auto simp: insert_suppression_def list_ex_iff split: if_splits)
  ultimately show ?thesis using insert_suppression_unique [OF assms] by blast
qed

theorem AddSuppression_IsSuppressed_witness:
  "\<exists>d'. insert_suppression \<lparr>guc = ''t1'', db_now = 0, new_id = ''u''\<rparr> sample_db ''t1'' ''sms''
       (hashValue ''+911'') ''manual'' = Some d'
     \<and> suppressed_in \<lparr>guc = ''t1'', db_now = 0, new_id = ''u''\<rparr> d' ''t1'' ''sms'' (hashValue ''+911'')"
proof -
  let ?c = "\<lparr>guc = ''t1'', db_now = 0, new_id = ''u''\<rparr>"
  obtain d' where d': "insert_suppression ?c sample_db ''t1'' ''sms'' (hashValue ''+911'') ''manual'' = Some d'"
    by (simp add: insert_suppression_def sees_def channels_def suppression_reasons_def sample_defs)
  then show ?thesis using AddSuppression_IsSuppressed [OF d'] by blast
qed

lemma pref_row_upsert:
  assumes "upsert_preference c d r = Some d'"
  shows "pref_row d' t s ch cat
    = (if pref_key r = (t, s, ch, cat) then Some (pf_opted_in r) else pref_row d t s ch cat)"
proof -
  have upd: "map_option pf_opted_in (find (\<lambda>q. pref_key q = k)
      (update_where (\<lambda>q. pref_key q = pref_key r) (\<lambda>q. q\<lparr>pf_opted_in := pf_opted_in r\<rparr>) ps))
    = (if pref_key r = k \<and> list_ex (\<lambda>q. pref_key q = pref_key r) ps then Some (pf_opted_in r)
       else map_option pf_opted_in (find (\<lambda>q. pref_key q = k) ps))" for ps k
    by (induction ps) (auto simp: update_where_def pref_key_def)
  have app: "find p (ps @ [q]) = (case find p ps of None \<Rightarrow> if p q then Some q else None
      | Some y \<Rightarrow> Some y)" for p ps and q :: preference_row
    by (induction ps) auto
  have none: "find (\<lambda>q. pref_key q = pref_key r) (preferences d) = None"
    if "\<not> list_ex (\<lambda>q. pref_key q = pref_key r) (preferences d)"
    using that by (simp add: find_None_all list_ex_iff)
  show ?thesis
  proof (cases "list_ex (\<lambda>q. pref_key q = pref_key r) (preferences d)")
    case True
    with assms have "preferences d' = update_where (\<lambda>q. pref_key q = pref_key r)
        (\<lambda>q. q\<lparr>pf_opted_in := pf_opted_in r\<rparr>) (preferences d)"
      by (auto simp: upsert_preference_def split: if_splits)
    then show ?thesis
      using True upd [of "(t, s, ch, cat)" "preferences d"] by (simp add: pref_row_def)
  next
    case False
    with assms have "preferences d' = preferences d @ [r]"
      by (auto simp: upsert_preference_def split: if_splits)
    then show ?thesis
      using none [OF False] by (auto simp: pref_row_def app split: option.splits)
  qed
qed

text \<open>
  Unsubscribing from one channel opts the subscriber out of it for exactly the categories that
  have no row of their own for that channel: a stored opt-in for a category survives it. A
  lookup on another channel is unaffected.
\<close>

theorem Unsubscribe_scope:
  assumes "upsert_preference c d \<lparr>pf_tenant = t, pf_subscriber = s, pf_channel = ch,
      pf_category = ''all'', pf_opted_in = False\<rparr> = Some d'"
    and "ch \<noteq> ''all''" and "ch' \<noteq> ''all''" and "ch' \<noteq> ch" and "cat \<noteq> ''all''"
  shows "pref_chain d' t s ch cat
      = Some (case pref_row d t s ch cat of Some b \<Rightarrow> b | None \<Rightarrow> False)
    \<and> pref_chain d' t s ch' cat = pref_chain d t s ch' cat"
  using assms(2-)
  by (simp add: pref_chain_def pref_row_upsert [OF assms(1)] pref_key_def split: option.splits)

theorem Unsubscribe_scope_witness:
  "\<exists>d'. upsert_preference \<lparr>guc = ''t1'', db_now = 0, new_id = ''u''\<rparr> sample_db
       \<lparr>pf_tenant = ''t1'', pf_subscriber = ''s1'', pf_channel = ''sms'', pf_category = ''all'',
        pf_opted_in = False\<rparr> = Some d' \<and> pref_chain d' ''t1'' ''s1'' ''sms'' ''marketing'' = Some False"
proof -
  let ?r = "\<lparr>pf_tenant = ''t1'', pf_subscriber = ''s1'', pf_channel = ''sms'', pf_category = ''all'',
        pf_opted_in = False\<rparr>"
  obtain d' where d': "upsert_preference \<lparr>guc = ''t1'', db_now = 0, new_id = ''u''\<rparr> sample_db ?r = Some d'"
    by (simp add: upsert_preference_def sees_def channels_def sample_defs)
  have "pref_chain d' ''t1'' ''s1'' ''sms'' ''marketing'' = Some False"
    using Unsubscribe_scope [OF d', of "''email''" "''marketing''"]
    by (simp add: pref_row_def sample_defs)
  with d' show ?thesis by blast
qed

definition has_pii :: "subscriber_row \<Rightarrow> bool" where
  "has_pii r \<longleftrightarrow> sb_email r \<noteq> None \<or> sb_phone r \<noteq> None \<or> sb_whatsapp r \<noteq> None
     \<or> sb_push r \<noteq> GArr [] \<or> sb_metadata r \<noteq> GObj []"

text \<open>
  C17. Erasure removes every stored identifier of exactly the subscriber of the tenant whose
  transaction it runs in, keeps the row and its keys, and touches no other table and no other row.
\<close>

theorem EraseSubscriber_erases:
  assumes "in_tx t d0 w" and "t \<noteq> []"
  shows "wp (EraseSubscriber t s) (\<lambda>r w'. (\<forall>e. r = Inl e \<longrightarrow> db w' = db w) \<and>
     (r = Inr () \<longrightarrow> (\<exists>ss. db w' = (db w)\<lparr>subscribers := ss\<rparr>
        \<and> list_all2 (\<lambda>a b. if sb_tenant a = t \<and> sb_id a = s
             then \<not> has_pii b \<and> sb_deleted b \<and> sb_id b = s \<and> sb_tenant b = t
                \<and> sb_external b = sb_external a
             else b = a) (subscribers (db w)) ss))) w"
  unfolding EraseSubscriber_def
proof (rule wp_exec)
  fix s' c d
  assume q: "quiet w s'" and c: "guc c = cur_guc w" and d: "Some ((db w)\<lparr>subscribers := update_where
      (\<lambda>r. sees c (sb_tenant r) \<and> sb_id r = s \<and> sb_tenant r = t) erase_row (subscribers (db w))\<rparr>)
     = Some d"
  have s: "sees c u \<longleftrightarrow> u = t" for u using c assms by (simp add: sees_def in_tx_guc)
  show "(\<forall>e. (Inr () :: unit res) = Inl e \<longrightarrow> db (s'\<lparr>db := d\<rparr>) = db w) \<and>
    ((Inr () :: unit res) = Inr () \<longrightarrow> (\<exists>ss. db (s'\<lparr>db := d\<rparr>) = (db w)\<lparr>subscribers := ss\<rparr>
        \<and> list_all2 (\<lambda>a b. if sb_tenant a = t \<and> sb_id a = s
             then \<not> has_pii b \<and> sb_deleted b \<and> sb_id b = s \<and> sb_tenant b = t
                \<and> sb_external b = sb_external a
             else b = a) (subscribers (db w)) ss))"
    using d by (auto simp: s update_where_def list_all2_conv_all_nth erase_row_def has_pii_def)
qed (simp add: quietD)

theorem EraseSubscriber_erases_witness:
  "wp (EraseSubscriber ''t1'' ''s1'') (\<lambda>r w'. r = Inr () \<longrightarrow>
     (\<forall>b \<in> set (subscribers (db w')). \<not> has_pii b)) (tx_world ''t1'' sample_db)"
  using EraseSubscriber_erases [of "''t1''" sample_db "tx_world ''t1'' sample_db" "''s1''"]
  by (rule wp_mono) (auto simp: sample_defs in_tx_def list_all2_Cons1)

text \<open>
  Tenant isolation: whichever tenant id the suppression, unsubscribe, erasure and ledger
  functions are handed, when they run in a transaction of tenant \<open>t\<close> no row of another tenant in
  a protected table changes, whether the transaction commits or rolls back.
\<close>

theorem preferences_isolated:
  assumes "saved w = None"
  shows "wp (RunInTenant t (AddSuppression t1 ch v x)) (\<lambda>_ w'. foreign t (db w') = foreign t (db w)) w
    \<and> wp (RunInTenant t (Unsubscribe t1 s ch)) (\<lambda>_ w'. foreign t (db w') = foreign t (db w)) w
    \<and> wp (RunInTenant t (EraseSubscriber t1 s)) (\<lambda>_ w'. foreign t (db w') = foreign t (db w)) w
    \<and> wp (RunInTenant t (consent_Record e)) (\<lambda>_ w'. foreign t (db w') = foreign t (db w)) w"
  using suppress.run_keeps_foreign [OF assms, where a = "(t1, ch, v, x)"]
    unsubscribe.run_keeps_foreign [OF assms, where a = "(t1, s, ch)"]
    erase.run_keeps_foreign [OF assms, where a = "(t1, s)"]
    ledger.run_keeps_foreign [OF assms, where a = e]
  by (simp add: RunInTenant_def)

theorem preferences_isolated_witness:
  "wp (RunInTenant ''t2'' (EraseSubscriber ''t1'' ''s1''))
     (\<lambda>_ w'. foreign ''t2'' (db w') = foreign ''t2'' sample_db) (world0 sample_db)"
  using preferences_isolated [of "world0 sample_db" "''t2''"] by (simp add: saved_def world0_def)

text \<open>
  The consent ledger is append-only and complete: a successful record is one new row at the end
  with the given fields (an empty category is \<^verbatim>\<open>all\<close>, an empty source \<^verbatim>\<open>api\<close>), and the history of
  its subscriber then has it, in order of time, newest first.
\<close>

theorem consent_ledger_appends:
  assumes "insert_consent c d e = Some d'"
  shows "consents d' = consents d @ [consent_of c e]
    \<and> consent_of c e \<in> set (history_rows c d' (ce_tenant e) (ce_subscriber e))
    \<and> sorted_wrt (\<lambda>a b. cl_created a \<ge> cl_created b) (history_rows c d' (ce_tenant e) (ce_subscriber e))"
proof -
  have "sorted (map (\<lambda>r. - cl_created r) (history_rows c d' (ce_tenant e) (ce_subscriber e)))"
    by (simp add: history_rows_def)
  then have "sorted_wrt (\<lambda>a b. cl_created a \<ge> cl_created b)
      (history_rows c d' (ce_tenant e) (ce_subscriber e))"
    by (simp add: sorted_map)
  then show ?thesis
    using assms by (auto simp: insert_consent_def history_rows_def consent_of_def split: if_splits)
qed

theorem consent_ledger_appends_witness:
  "\<exists>d'. insert_consent \<lparr>guc = ''t1'', db_now = 0, new_id = ''u''\<rparr> sample_db
       \<lparr>ce_tenant = ''t1'', ce_subscriber = ''s1'', ce_channel = ''sms'', ce_category = [],
        ce_opted_in = True, ce_source = [], ce_purpose = [], ce_version = [], ce_actor = [], ce_ip = []\<rparr>
       = Some d' \<and> length (consents d') = 1"
proof -
  let ?e = "\<lparr>ce_tenant = ''t1'', ce_subscriber = ''s1'', ce_channel = ''sms'', ce_category = [],
        ce_opted_in = True, ce_source = [], ce_purpose = [], ce_version = [], ce_actor = [], ce_ip = []\<rparr>"
  obtain d' where d': "insert_consent \<lparr>guc = ''t1'', db_now = 0, new_id = ''u''\<rparr> sample_db ?e = Some d'"
    by (simp add: insert_consent_def sees_def sample_defs)
  show ?thesis using consent_ledger_appends [OF d'] d' by (auto simp: sample_defs)
qed

end
