(* ===== verification/Engine.thy ===== *)
theory Engine
  imports Condition Messaging Preferences
begin

text \<open>
  \<^verbatim>\<open>domains/workflows/engine\<close>: the consumer of NOTIFY_EVENTS. An event finds its workflow, a run is
  created and its steps are driven until the run pauses at a delay, ends or fails; the scheduler's
  resume signal continues a paused run. \<open>plan\<close> is the abstract specification of a run's
  steps and \<open>executeFrom\<close> the code's.
\<close>

section \<open>Data\<close>

datatype step_type = StepTypeChannel | StepTypeDelay | StepTypeCondition | OtherType string

record step =
  st_id :: string
  st_type :: step_type
  st_channel :: string
  st_template :: string
  st_delay :: int
  st_condition :: string
  st_true :: string
  st_false :: string
  st_next :: string

record event =
  ev_tenant :: string
  ev_subscriber :: string
  ev_event :: string
  ev_payload :: gmap
  ev_workflow :: string
  ev_run :: string

record channel_job =
  jb_tenant :: string
  jb_notification :: string
  jb_subscriber :: string
  jb_channel :: string
  jb_template :: string
  jb_payload :: gmap

text \<open>\<^verbatim>\<open>json.Unmarshal\<close> and \<^verbatim>\<open>json.Marshal\<close> of these types.\<close>

definition step_type_of :: "string \<Rightarrow> step_type" where
  "step_type_of s = (if s = ''channel'' then StepTypeChannel else if s = ''delay'' then StepTypeDelay
     else if s = ''condition'' then StepTypeCondition else OtherType s)"

definition zero_step :: step where
  "zero_step = \<lparr>st_id = [], st_type = OtherType [], st_channel = [], st_template = [], st_delay = 0,
     st_condition = [], st_true = [], st_false = [], st_next = []\<rparr>"

fun decode_step :: "gval \<Rightarrow> step option" where
  "decode_step GNil = Some zero_step"
| "decode_step (GObj m) =
     (case (jstr m ''id'', jstr m ''type'', jstr m ''channel'', jstr m ''template_id'',
            jint m ''delay_seconds'') of
        (Some i, Some t, Some ch, Some tp, Some dl) \<Rightarrow>
          (case (jstr m ''condition'', jstr m ''true_step'', jstr m ''false_step'',
                 jstr m ''next_step'', jmap m ''metadata'') of
             (Some co, Some tr, Some fa, Some nx, Some _) \<Rightarrow>
               Some \<lparr>st_id = i, st_type = step_type_of t, st_channel = ch, st_template = tp,
                 st_delay = dl, st_condition = co, st_true = tr, st_false = fa, st_next = nx\<rparr>
           | _ \<Rightarrow> None)
      | _ \<Rightarrow> None)"
| "decode_step _ = None"

fun decode_list :: "(gval \<Rightarrow> 'a option) \<Rightarrow> gval list \<Rightarrow> 'a list option" where
  "decode_list f [] = Some []"
| "decode_list f (v # vs) = (case (f v, decode_list f vs) of
     (Some x, Some xs) \<Rightarrow> Some (x # xs) | _ \<Rightarrow> None)"

fun decode_steps :: "gval \<Rightarrow> step list option" where
  "decode_steps GNil = Some []"
| "decode_steps (GArr vs) = decode_list decode_step vs"
| "decode_steps _ = None"

fun decode_event :: "gval \<Rightarrow> event option" where
  "decode_event GNil = Some \<lparr>ev_tenant = [], ev_subscriber = [], ev_event = [], ev_payload = [],
     ev_workflow = [], ev_run = []\<rparr>"
| "decode_event (GObj m) =
     (case (jstr m ''tenant_id'', jstr m ''subscriber_id'', jstr m ''event'') of
        (Some t, Some s, Some e) \<Rightarrow>
          (case (jmap m ''payload'', jstr m ''workflow_id'', jstr m ''workflow_run_id'') of
             (Some p, Some wid, Some r) \<Rightarrow> Some \<lparr>ev_tenant = t, ev_subscriber = s, ev_event = e,
               ev_payload = p, ev_workflow = wid, ev_run = r\<rparr>
           | _ \<Rightarrow> None)
      | _ \<Rightarrow> None)"
| "decode_event _ = None"

definition encode_event :: "event \<Rightarrow> gval" where
  "encode_event e = GObj ([(''tenant_id'', GStr (ev_tenant e)),
     (''subscriber_id'', GStr (ev_subscriber e)), (''event'', GStr (ev_event e)),
     (''payload'', GObj (ev_payload e))]
     @ omit_str ''workflow_id'' (ev_workflow e) @ omit_str ''workflow_run_id'' (ev_run e))"

definition encode_job :: "channel_job \<Rightarrow> gval" where
  "encode_job j = GObj [(''tenant_id'', GStr (jb_tenant j)),
     (''notification_id'', GStr (jb_notification j)), (''subscriber_id'', GStr (jb_subscriber j)),
     (''channel'', GStr (jb_channel j)), (''template_id'', GStr (jb_template j)),
     (''payload'', GObj (jb_payload j))]"

section \<open>Statements\<close>

definition select_workflow :: "db \<Rightarrow> string \<Rightarrow> string \<Rightarrow> (string \<times> gval) option" where
  "select_workflow d t e = map_option (\<lambda>f. (wf_id f, wf_steps f))
     (find (\<lambda>f. wf_tenant f = t \<and> wf_trigger f = e \<and> wf_active f) (workflows d))"

definition insert_run :: "sctx \<Rightarrow> db \<Rightarrow> event \<Rightarrow> string \<Rightarrow> (db \<times> string) option" where
  "insert_run c d ev wid =
     (if ev_tenant ev \<notin> tn_id ` set (tenants d) \<or> wid \<notin> wf_id ` set (workflows d)
         \<or> (ev_subscriber ev \<noteq> [] \<and> ev_subscriber ev \<notin> sb_id ` set (subscribers d))
         \<or> new_id c \<in> rn_id ` set (runs d) then None
      else Some (d\<lparr>runs := runs d @ [\<lparr>rn_id = new_id c, rn_tenant = ev_tenant ev,
             rn_workflow = wid, rn_subscriber = nilIfEmpty (ev_subscriber ev),
             rn_event = ev_event ev, rn_payload = GObj (ev_payload ev), rn_status = Running,
             rn_step = 0, rn_resume_at = None, rn_error = None,
             rn_created = db_now c\<rparr>]\<rparr>, new_id c))"

definition queued_row :: "sctx \<Rightarrow> event \<Rightarrow> step \<Rightarrow> string \<Rightarrow> notification_row" where
  "queued_row c ev s run = \<lparr>nt_id = new_id c, nt_tenant = ev_tenant ev, nt_run = Some run,
     nt_subscriber = ev_subscriber ev, nt_channel = st_channel s,
     nt_template = nilIfEmpty (st_template s), nt_status = ''queued'', nt_provider = None,
     nt_provider_msg = None, nt_content = GObj [], nt_read = False, nt_created = db_now c\<rparr>"

definition insert_notification :: "sctx \<Rightarrow> db \<Rightarrow> event \<Rightarrow> step \<Rightarrow> string \<Rightarrow> (db \<times> string) option" where
  "insert_notification c d ev s run =
     (if ev_tenant ev \<notin> tn_id ` set (tenants d) \<or> run \<notin> rn_id ` set (runs d)
         \<or> ev_subscriber ev = [] \<or> ev_subscriber ev \<notin> sb_id ` set (subscribers d)
         \<or> st_channel s \<notin> set channels
         \<or> (st_template s \<noteq> [] \<and> st_template s \<notin> tp_id ` set (templates d))
         \<or> new_id c \<in> nt_id ` set (notifications d) then None
      else Some (d\<lparr>notifications := notifications d @ [queued_row c ev s run]\<rparr>, new_id c))"

definition update_run :: "string \<Rightarrow> (run_row \<Rightarrow> run_row) \<Rightarrow> db \<Rightarrow> db" where
  "update_run run f d = d\<lparr>runs := update_where (\<lambda>r. rn_id r = run) f (runs d)\<rparr>"

section \<open>Driving a run\<close>

definition idxByID :: "step list \<Rightarrow> string \<Rightarrow> nat option" where
  "idxByID steps = map_of (rev (filter (\<lambda>(k, _). k \<noteq> []) (zip (map st_id steps) [0..<length steps])))"

definition nextIndex :: "step list \<Rightarrow> step \<Rightarrow> nat \<Rightarrow> nat" where
  "nextIndex steps s i =
     (if st_next s \<noteq> [] then (case idxByID steps (st_next s) of Some ni \<Rightarrow> ni | None \<Rightarrow> i + 1)
      else i + 1)"

text \<open>Where a condition step goes: a condition that does not evaluate counts as false.\<close>

definition branch :: "step list \<Rightarrow> gmap \<Rightarrow> step \<Rightarrow> nat \<Rightarrow> nat" where
  "branch steps payload s i = (let
       result = (case EvalCondition (st_condition s) payload of Inl _ \<Rightarrow> False | Inr b \<Rightarrow> b);
       target = (if result then st_true s else st_false s) in
     if target = [] then i + 1
     else case idxByID steps target of None \<Rightarrow> length steps | Some ti \<Rightarrow> ti)"

definition failRun :: "string \<Rightarrow> string \<Rightarrow> unit res app" where
  "failRun run reason = exec (\<lambda>c d. Some (update_run run
     (\<lambda>r. r\<lparr>rn_status := Failed, rn_error := Some reason\<rparr>) d))"

definition category_of :: "gmap \<Rightarrow> string" where
  "category_of payload = (case obj_get payload ''category'' of
     GStr s \<Rightarrow> if s = [] then ''all'' else s | _ \<Rightarrow> ''all'')"

definition job_of :: "event \<Rightarrow> step \<Rightarrow> string \<Rightarrow> channel_job" where
  "job_of ev s nid = \<lparr>jb_tenant = ev_tenant ev, jb_notification = nid,
     jb_subscriber = ev_subscriber ev, jb_channel = st_channel s, jb_template = st_template s,
     jb_payload = ev_payload ev\<rparr>"

definition dispatchChannel :: "event \<Rightarrow> step \<Rightarrow> string \<Rightarrow> unit res app" where
  "dispatchChannel ev s run = do {
     r \<leftarrow> IsOptedIn (ev_tenant ev) (ev_subscriber ev) (st_channel s) (category_of (ev_payload ev));
     let optedIn = (case r of Inl _ \<Rightarrow> False | Inr b \<Rightarrow> b);
     if \<not> optedIn then ret (Inr ())
     else on_err (db_stmt (\<lambda>c d. insert_notification c d ev s run))
       (\<lambda>e. ret (Inl (Wrap ''insert notification'' e)))
       (\<lambda>nid. js_publish (ChannelSubject (ev_tenant ev) (st_channel s)) (encode_job (job_of ev s nid))) }"

text \<open>
  \<^verbatim>\<open>time.Now().Add(time.Duration(n) * time.Second)\<close>: the product wraps at 64 bits. The result is
  in nanoseconds; the column keeps microseconds.
\<close>

definition resume_time :: "int \<Rightarrow> int \<Rightarrow> int" where
  "resume_time now n = now + sint (word_of_int n * word_of_int (10 ^ 9) :: 64 word)"

text \<open>
  The loop of \<^verbatim>\<open>executeFrom\<close>. \<open>left\<close> is \<^verbatim>\<open>maxIterations + 1 - visited\<close>: the iterations the
  cycle guard still allows.
\<close>

fun exec_loop :: "nat \<Rightarrow> event \<Rightarrow> step list \<Rightarrow> string \<Rightarrow> nat \<Rightarrow> unit res app" where
  "exec_loop left ev steps run i =
     (if length steps \<le> i then
        exec (\<lambda>c d. Some (update_run run
          (\<lambda>r. r\<lparr>rn_status := Completed, rn_step := int (length steps)\<rparr>) d))
      else case left of
        0 \<Rightarrow> failRun run ''workflow exceeded max steps (cycle?)''
      | Suc n \<Rightarrow> (let s = steps ! i in case st_type s of
          StepTypeChannel \<Rightarrow>
            on_err (dispatchChannel ev s run) (\<lambda>e. ret (Inl e))
              (\<lambda>_. exec_loop n ev steps run (nextIndex steps s i))
        | StepTypeDelay \<Rightarrow> do {
            now \<leftarrow> time_now;
            on_err (exec (\<lambda>c d. Some (update_run run
                (\<lambda>r. r\<lparr>rn_resume_at := Some (resume_time now (st_delay s) div 1000),
                       rn_step := int (nextIndex steps s i)\<rparr>) d)))
              (\<lambda>e. ret (Inl (Wrap ''set resume_at'' e)))
              (\<lambda>_. ret (Inr ())) }
        | StepTypeCondition \<Rightarrow> exec_loop n ev steps run (branch steps (ev_payload ev) s i)
        | OtherType _ \<Rightarrow> exec_loop n ev steps run (i + 1)))"

declare exec_loop.simps [simp del]

definition max_iterations :: "step list \<Rightarrow> nat" where
  "max_iterations steps = length steps * 2 + 10"

definition executeFrom :: "event \<Rightarrow> step list \<Rightarrow> string \<Rightarrow> int \<Rightarrow> unit res app" where
  "executeFrom ev steps run start =
     exec_loop (Suc (max_iterations steps)) ev steps run (nat (max 0 start))"

section \<open>Events\<close>

definition lookupWorkflow :: "string \<Rightarrow> string \<Rightarrow> (string \<times> step list) option res app" where
  "lookupWorkflow t e = on_err (query_row (\<lambda>c d. select_workflow d t e))
     (\<lambda>_. ret (Inr None))
     (\<lambda>(i, sj). case decode_steps sj of
        None \<Rightarrow> ret (Inl (Wrap ''parse steps'' (Err ''json'')))
      | Some steps \<Rightarrow> ret (Inr (Some (i, steps))))"

definition createRun :: "event \<Rightarrow> string \<Rightarrow> string res app" where
  "createRun ev wid = db_stmt (\<lambda>c d. insert_run c d ev wid)"

definition ProcessEvent :: "event \<Rightarrow> unit res app" where
  "ProcessEvent ev = and_then (lookupWorkflow (ev_tenant ev) (ev_event ev)) (\<lambda>wf.
     case wf of None \<Rightarrow> ret (Inr ())
     | Some (wid, steps) \<Rightarrow> and_then (createRun ev wid) (\<lambda>run. executeFrom ev steps run 0))"

text \<open>The join of \<^verbatim>\<open>Resume\<close>'s query: a running run and its workflow's current steps.\<close>

definition select_resume :: "db \<Rightarrow> string \<Rightarrow> (run_row \<times> gval) option" where
  "select_resume d run = (case find (\<lambda>r. rn_id r = run \<and> rn_status r = Running) (runs d) of
     None \<Rightarrow> None
   | Some r \<Rightarrow> map_option (\<lambda>f. (r, wf_steps f)) (find (\<lambda>f. wf_id f = rn_workflow r) (workflows d)))"

fun decode_payload :: "gval \<Rightarrow> gmap option" where
  "decode_payload GNil = Some []"
| "decode_payload (GObj m) = Some m"
| "decode_payload _ = None"

definition Resume :: "string \<Rightarrow> unit res app" where
  "Resume run = on_err (query_row (\<lambda>c d. select_resume d run))
     (\<lambda>_. ret (Inr ()))
     (\<lambda>(r, sj). case decode_payload (rn_payload r) of
        None \<Rightarrow> ret (Inl (Wrap ''parse resume payload'' (Err ''json'')))
      | Some p \<Rightarrow> (case decode_steps sj of
          None \<Rightarrow> ret (Inl (Wrap ''parse resume steps'' (Err ''json'')))
        | Some steps \<Rightarrow> executeFrom
            \<lparr>ev_tenant = rn_tenant r,
             ev_subscriber = (case rn_subscriber r of None \<Rightarrow> [] | Some s \<Rightarrow> s),
             ev_event = rn_event r, ev_payload = p, ev_workflow = [], ev_run = run\<rparr>
            steps run (rn_step r)))"

definition engine_handle :: "js_msg \<Rightarrow> unit res app" where
  "engine_handle msg = (case Option.bind (m_json msg) decode_event of
     None \<Rightarrow> ret (Inl (Wrap ''unmarshal event'' (Err ''json'')))
   | Some ev \<Rightarrow> RunInTenant (ev_tenant ev)
       (if ev_run ev \<noteq> [] then Resume (ev_run ev) else ProcessEvent ev))"

text \<open>One iteration of \<^verbatim>\<open>Engine.Run\<close>: the consumer has no delivery limit, an error is always nak'd.\<close>

definition engine_consume :: "js_msg \<Rightarrow> disposition app" where
  "engine_consume msg = on_err (engine_handle msg) (\<lambda>_. ret Nak) (\<lambda>_. ret Ack)"

end
