(* ===== verification/Engine_Spec.thy ===== *)
theory Engine_Spec
  imports Engine
begin

text \<open>
  What a run of a workflow does, stated without a database, a bus or failures: \<open>plan\<close> lists the
  channel steps it reaches, in order, and how it stops. The refinement theorem says that
  \<open>executeFrom\<close>, whenever it succeeds, has done exactly that; the others are about \<open>plan\<close>.
\<close>

section \<open>The abstract run\<close>

datatype outcome = Paused nat int | Finished | Cycled

fun plan :: "nat \<Rightarrow> step list \<Rightarrow> gmap \<Rightarrow> nat \<Rightarrow> step list \<times> outcome" where
  "plan left steps p i =
     (if length steps \<le> i then ([], Finished)
      else case left of 0 \<Rightarrow> ([], Cycled)
      | Suc n \<Rightarrow> (let s = steps ! i in case st_type s of
          StepTypeChannel \<Rightarrow> apfst (Cons s) (plan n steps p (nextIndex steps s i))
        | StepTypeDelay \<Rightarrow> ([], Paused (nextIndex steps s i) (st_delay s))
        | StepTypeCondition \<Rightarrow> plan n steps p (branch steps p s i)
        | OtherType _ \<Rightarrow> plan n steps p (i + 1)))"

declare plan.simps [simp del]

lemma plan_end [simp]: "length steps \<le> i \<Longrightarrow> plan left steps p i = ([], Finished)"
  and plan_0 [simp]: "\<not> length steps \<le> i \<Longrightarrow> plan 0 steps p i = ([], Cycled)"
  and plan_channel: "\<not> length steps \<le> i \<Longrightarrow> st_type (steps ! i) = StepTypeChannel \<Longrightarrow>
    plan (Suc n) steps p i = apfst (Cons (steps ! i)) (plan n steps p (nextIndex steps (steps ! i) i))"
  and plan_delay: "\<not> length steps \<le> i \<Longrightarrow> st_type (steps ! i) = StepTypeDelay \<Longrightarrow>
    plan (Suc n) steps p i = ([], Paused (nextIndex steps (steps ! i) i) (st_delay (steps ! i)))"
  and plan_condition: "\<not> length steps \<le> i \<Longrightarrow> st_type (steps ! i) = StepTypeCondition \<Longrightarrow>
    plan (Suc n) steps p i = plan n steps p (branch steps p (steps ! i) i)"
  and plan_other: "\<not> length steps \<le> i \<Longrightarrow> st_type (steps ! i) = OtherType x \<Longrightarrow>
    plan (Suc n) steps p i = plan n steps p (i + 1)"
  by (simp_all add: plan.simps [of left] plan.simps [of 0] plan.simps [of "Suc n"] Let_def)

lemmas plan_steps = plan_channel plan_delay plan_condition plan_other

text \<open>The same reading of the code's loop.\<close>

lemma exec_channel: "\<not> length steps \<le> i \<Longrightarrow> st_type (steps ! i) = StepTypeChannel \<Longrightarrow>
    exec_loop (Suc n) ev steps run i = on_err (dispatchChannel ev (steps ! i) run)
      (\<lambda>e. ret (Inl e)) (\<lambda>_. exec_loop n ev steps run (nextIndex steps (steps ! i) i))"
  and exec_condition: "\<not> length steps \<le> i \<Longrightarrow> st_type (steps ! i) = StepTypeCondition \<Longrightarrow>
    exec_loop (Suc n) ev steps run i = exec_loop n ev steps run (branch steps (ev_payload ev) (steps ! i) i)"
  and exec_other: "\<not> length steps \<le> i \<Longrightarrow> st_type (steps ! i) = OtherType x \<Longrightarrow>
    exec_loop (Suc n) ev steps run i = exec_loop n ev steps run (i + 1)"
  by (simp_all add: exec_loop.simps [of "Suc n"] Let_def)

lemma step_cases:
  obtains "length steps \<le> i"
  | "\<not> length steps \<le> i" "st_type (steps ! i) = StepTypeChannel"
  | "\<not> length steps \<le> i" "st_type (steps ! i) = StepTypeDelay"
  | "\<not> length steps \<le> i" "st_type (steps ! i) = StepTypeCondition"
  | x where "\<not> length steps \<le> i" "st_type (steps ! i) = OtherType x"
  by (cases "st_type (steps ! i)") blast+

definition run_plan :: "step list \<Rightarrow> gmap \<Rightarrow> nat \<Rightarrow> step list \<times> outcome" where
  "run_plan steps p i = plan (Suc (max_iterations steps)) steps p i"

text \<open>What the outcome writes into the run's row; \<open>now\<close> is the clock at a delay.\<close>

fun settle :: "outcome \<Rightarrow> step list \<Rightarrow> int \<Rightarrow> run_row \<Rightarrow> run_row" where
  "settle (Paused nxt dl) steps now r =
     r\<lparr>rn_resume_at := Some (resume_time now dl div 1000), rn_step := int nxt\<rparr>"
| "settle Finished steps now r = r\<lparr>rn_status := Completed, rn_step := int (length steps)\<rparr>"
| "settle Cycled steps now r =
     r\<lparr>rn_status := Failed, rn_error := Some ''workflow exceeded max steps (cycle?)''\<rparr>"

definition opted :: "db \<Rightarrow> event \<Rightarrow> step \<Rightarrow> bool" where
  "opted d ev s = (case opted_in_row \<lparr>guc = ev_tenant ev, db_now = 0, new_id = []\<rparr> d (ev_tenant ev)
       (ev_subscriber ev) (st_channel s) (category_of (ev_payload ev)) of
     None \<Rightarrow> True | Some b \<Rightarrow> b)"

definition job_msg :: "event \<Rightarrow> step \<Rightarrow> notification_row \<Rightarrow> string \<times> gval" where
  "job_msg ev s r =
     (ChannelSubject (ev_tenant ev) (st_channel s), encode_job (job_of ev s (nt_id r)))"

definition is_queued :: "event \<Rightarrow> string \<Rightarrow> step \<Rightarrow> notification_row \<Rightarrow> bool" where
  "is_queued ev run s r \<longleftrightarrow> (\<exists>c. r = queued_row c ev s run)"

text \<open>\<open>w'\<close> is \<open>w\<close> after queueing the steps \<open>ss\<close>: a notification row and a job for each.\<close>

definition queued :: "event \<Rightarrow> string \<Rightarrow> step list \<Rightarrow> notification_row list \<Rightarrow> world \<Rightarrow> world \<Rightarrow> bool" where
  "queued ev run ss rows w w' \<longleftrightarrow> list_all2 (is_queued ev run) ss rows
     \<and> bus w' = bus w @ map2 (job_msg ev) ss rows
     \<and> notifications (db w') = notifications (db w) @ rows"

definition only_runs_notifs :: "db \<Rightarrow> db \<Rightarrow> bool" where
  "only_runs_notifs d d' \<longleftrightarrow> d' = d\<lparr>runs := runs d', notifications := notifications d'\<rparr>"

definition performed :: "event \<Rightarrow> step list \<Rightarrow> string \<Rightarrow> step list \<times> outcome \<Rightarrow> world \<Rightarrow> world \<Rightarrow> bool" where
  "performed ev steps run po w w' \<longleftrightarrow>
     (\<exists>rows. queued ev run (filter (opted (db w) ev) (fst po)) rows w w')
     \<and> (\<exists>now. runs (db w') = update_where (\<lambda>r. rn_id r = run) (settle (snd po) steps now) (runs (db w)))
     \<and> only_runs_notifs (db w) (db w')"

section \<open>Dispatching one step\<close>

lemma opted_in_row_guc:
  "guc c = guc c' \<Longrightarrow> opted_in_row c d t s ch cat = opted_in_row c' d t s ch cat"
  by (simp add: opted_in_row_def sees_def)

lemma insert_notification_SomeD:
  "insert_notification c d ev s run = Some (d', nid) \<Longrightarrow>
     d' = d\<lparr>notifications := notifications d @ [queued_row c ev s run]\<rparr> \<and> nid = new_id c"
  by (auto simp: insert_notification_def split: if_splits)

definition dispatched :: "event \<Rightarrow> string \<Rightarrow> step \<Rightarrow> world \<Rightarrow> world \<Rightarrow> bool" where
  "dispatched ev run s w w' \<longleftrightarrow>
     (\<exists>rows. queued ev run (filter (opted (db w) ev) [s]) rows w w')
     \<and> db w' = (db w)\<lparr>notifications := notifications (db w')\<rparr>"

lemma IsOptedIn_in_tx:
  assumes "in_tx (ev_tenant ev) d0 w"
  shows "wp (IsOptedIn (ev_tenant ev) (ev_subscriber ev) (st_channel s) (category_of (ev_payload ev)))
    (\<lambda>r w'. quiet w w' \<and> (r = Inr (opted (db w) ev s) \<or> r = Inr True \<and> broken w')) w"
proof -
  have g: "cur_guc w = ev_tenant ev" using assms by (simp add: in_tx_guc)
  have sv: "saved w \<noteq> None" using assms by (simp add: in_tx_iff)
  have same: "opted_in_row c (db w) (ev_tenant ev) (ev_subscriber ev) (st_channel s)
        (category_of (ev_payload ev))
      = opted_in_row \<lparr>guc = ev_tenant ev, db_now = 0, new_id = []\<rparr> (db w) (ev_tenant ev)
        (ev_subscriber ev) (st_channel s) (category_of (ev_payload ev))"
    if "guc c = cur_guc w" for c
    using that g by (intro opted_in_row_guc) simp
  show ?thesis
    unfolding IsOptedIn_def wp_on_err
  proof (rule wp_query_row_strong, goal_cases)
    case (1 s' e)
    show ?case
    proof (cases "e = ErrNoRows")
      case True
      with 1 obtain c where "guc c = cur_guc w" "opted_in_row c (db w) (ev_tenant ev)
          (ev_subscriber ev) (st_channel s) (category_of (ev_payload ev)) = None" by auto
      with 1 show ?thesis using same [of c] by (simp add: opted_def)
    next
      case False
      with 1 sv show ?thesis by simp
    qed
  next
    case (2 s' c x)
    then show ?case using same [of c] by (simp add: opted_def)
  qed
qed

lemma queue_job_does:
  assumes q: "quiet w w1" and tx1: "in_tx (ev_tenant ev) d0 w1" and ok: "broken w1 \<or> opted (db w) ev s"
  shows "wp (on_err (db_stmt (\<lambda>c d. insert_notification c d ev s run))
       (\<lambda>e. ret (Inl (Wrap ''insert notification'' e)))
       (\<lambda>nid. js_publish (ChannelSubject (ev_tenant ev) (st_channel s)) (encode_job (job_of ev s nid))))
    (\<lambda>r w'. in_tx (ev_tenant ev) d0 w' \<and> (r = Inr () \<longrightarrow> dispatched ev run s w w')) w1"
  unfolding wp_on_err
proof (rule wp_stmt_strong, goal_cases)
  case (1 s')
  then show ?case using tx1 by (simp add: quiet_in_tx)
next
  case (2 s' c d nid)
  then have d: "d = (db w)\<lparr>notifications := notifications (db w) @ [queued_row c ev s run]\<rparr>"
    "nid = new_id c" and o': "opted (db w) ev s"
    using insert_notification_SomeD [OF 2(5)] q ok by (auto simp: quietD)
  have tx2: "in_tx (ev_tenant ev) d0 (s'\<lparr>db := d\<rparr>)" using tx1 2(1) by (simp add: quiet_in_tx)
  have bus: "bus s' = bus w" using q 2(1) by (simp add: quietD)
  show ?case
    unfolding sum.case
  proof (rule wp_js_publish, goal_cases)
    case (1 w2)
    then show ?case using tx2 by (simp add: quiet_in_tx)
  next
    case (2 w2)
    have "dispatched ev run s w (w2\<lparr>bus := bus (s'\<lparr>db := d\<rparr>) @
        [(ChannelSubject (ev_tenant ev) (st_channel s), encode_job (job_of ev s nid))]\<rparr>)"
      unfolding dispatched_def queued_def
      using o' 2 bus d
      by (auto intro!: exI [of _ "[queued_row c ev s run]"]
          simp: quietD(1) is_queued_def job_msg_def queued_row_def)
    then show ?case using tx2 2 by (simp add: quiet_in_tx)
  qed
qed

lemma dispatchChannel_does:
  assumes tx: "in_tx (ev_tenant ev) d0 w"
  shows "wp (dispatchChannel ev s run)
    (\<lambda>r w'. in_tx (ev_tenant ev) d0 w' \<and> (r = Inr () \<longrightarrow> dispatched ev run s w w')) w"
  unfolding dispatchChannel_def wp_bind
proof (rule wp_mono [OF IsOptedIn_in_tx [OF tx]], elim conjE)
  fix r w1
  assume q: "quiet w w1" and r: "r = Inr (opted (db w) ev s) \<or> r = Inr True \<and> broken w1"
  have tx1: "in_tx (ev_tenant ev) d0 w1" using tx q by (simp add: quiet_in_tx)
  let ?Q = "\<lambda>r w'. in_tx (ev_tenant ev) d0 w' \<and> (r = Inr () \<longrightarrow> dispatched ev run s w w')"
  note send = queue_job_does [OF q tx1, of s run]
  show "wp (let optedIn = case r of Inl x \<Rightarrow> False | Inr b \<Rightarrow> b
        in if \<not> optedIn then ret (Inr ())
           else on_err (db_stmt (\<lambda>c d. insert_notification c d ev s run))
                 (\<lambda>e. ret (Inl (Wrap ''insert notification'' e)))
                 (\<lambda>nid. js_publish (ChannelSubject (ev_tenant ev) (st_channel s))
                          (encode_job (job_of ev s nid)))) ?Q w1"
  proof (cases "r = Inr False")
    case True
    then have "\<not> opted (db w) ev s" using r by auto
    then have "dispatched ev run s w w1"
      using q by (simp add: dispatched_def queued_def quietD(1,2))
    with True tx1 show ?thesis by simp
  next
    case False
    with r have r': "r = Inr True" and b: "broken w1 \<or> opted (db w) ev s" by auto
    show ?thesis
      using send [OF b] by (simp only: r' sum.case Let_def not_True_eq_False if_False)
  qed
qed

section \<open>Driving the steps\<close>

lemma opted_cong: "preferences d' = preferences d \<Longrightarrow> opted d' = opted d"
  by (intro ext) (simp add: opted_def opted_in_row_def)

lemma queued_trans:
  assumes "queued ev run ss rows w w1" and "queued ev run ss' rows' w1 w2"
  shows "queued ev run (ss @ ss') (rows @ rows') w w2"
  using assms list_all2_lengthD
  by (fastforce simp: queued_def intro: list_all2_appendI)

lemma performed_quiet:
  "quiet w s' \<Longrightarrow> performed ev steps run po s' w' = performed ev steps run po w w'"
  by (simp add: performed_def queued_def quietD(1,2))

lemma settle_done:
  assumes "in_tx t d0 w" and f: "\<And>r. f r = settle o' steps now r"
  shows "wp (exec (\<lambda>c d. Some (update_run run f d)))
    (\<lambda>r w'. in_tx t d0 w' \<and> (r = Inr () \<longrightarrow> performed ev steps run ([], o') w w')) w"
proof (rule wp_exec, goal_cases)
  case (2 s' c d)
  have "f = settle o' steps now" using f by (rule ext)
  with 2 have "performed ev steps run ([], o') w (s'\<lparr>db := d\<rparr>)"
    by (auto simp: performed_def queued_def update_run_def quietD only_runs_notifs_def)
  then show ?case using assms 2 by (simp add: quiet_in_tx)
qed (use assms in \<open>simp add: quiet_in_tx\<close>)

text \<open>A dispatch followed by the rest of a plan performs the plan with its step in front.\<close>

lemma performed_Cons:
  assumes d: "dispatched ev run s w w1" and P: "performed ev steps run p w1 w'"
  shows "performed ev steps run (apfst (Cons s) p) w w'"
proof -
  have E: "db w1 = (db w)\<lparr>notifications := notifications (db w1)\<rparr>"
    using d by (simp add: dispatched_def)
  have rn: "runs (db w1) = runs (db w)" "preferences (db w1) = preferences (db w)"
    by (subst E, simp)+
  have pr: "opted (db w1) ev = opted (db w) ev" using opted_cong [OF rn(2)] by simp
  obtain rows rows' where
    "queued ev run (filter (opted (db w) ev) [s]) rows w w1"
    "queued ev run (filter (opted (db w) ev) (fst p)) rows' w1 w'"
    using d P pr by (auto simp: dispatched_def performed_def)
  from queued_trans [OF this]
  have "queued ev run (filter (opted (db w) ev) (s # fst p)) (rows @ rows') w w'"
    by (simp split: if_splits)
  moreover have "only_runs_notifs (db w) (db w')"
  proof -
    have "db w' = (db w1)\<lparr>runs := runs (db w'), notifications := notifications (db w')\<rparr>"
      using P by (simp add: performed_def only_runs_notifs_def)
    also have "\<dots> = (db w)\<lparr>runs := runs (db w'), notifications := notifications (db w')\<rparr>"
      by (subst E) simp
    finally show ?thesis by (simp add: only_runs_notifs_def)
  qed
  ultimately show ?thesis using P unfolding performed_def by (auto simp: rn)
qed

lemma exec_loop_performs:
  assumes "in_tx (ev_tenant ev) d0 w"
  shows "wp (exec_loop left ev steps run i)
    (\<lambda>r w'. in_tx (ev_tenant ev) d0 w' \<and>
       (r = Inr () \<longrightarrow> performed ev steps run (plan left steps (ev_payload ev) i) w w')) w"
  using assms
proof (induction left arbitrary: i w)
  case 0
  show ?case
    by (subst exec_loop.simps, subst plan.simps)
      (auto simp: failRun_def intro!: settle_done [OF 0])
next
  case (Suc n)
  let ?p = "ev_payload ev"
  show ?case
  proof (cases "length steps \<le> i")
    case True
    then show ?thesis
      by (subst exec_loop.simps, subst plan.simps) (auto intro!: settle_done [OF Suc.prems])
  next
    case False
    let ?s = "steps ! i"
    note unf = exec_loop.simps [of "Suc n" ev steps run i] plan.simps [of "Suc n" steps ?p i]
    show ?thesis
    proof (cases "st_type ?s")
      case StepTypeChannel
      have pl: "plan (Suc n) steps ?p i = apfst (Cons ?s) (plan n steps ?p (nextIndex steps ?s i))"
        unfolding unf(2) using False StepTypeChannel by (simp add: Let_def)
      have step: "wp (exec_loop n ev steps run (nextIndex steps ?s i))
          (\<lambda>r w'. in_tx (ev_tenant ev) d0 w' \<and> (r = Inr () \<longrightarrow> performed ev steps run
             (plan (Suc n) steps ?p i) w w')) w1"
        if tx1: "in_tx (ev_tenant ev) d0 w1" and d: "dispatched ev run ?s w w1" for w1
        unfolding pl by (rule wp_mono [OF Suc.IH [OF tx1]]) (use d in \<open>auto intro: performed_Cons\<close>)
      show ?thesis
        unfolding unf(1) using False StepTypeChannel
        by (auto simp: Let_def split: sum.splits intro!: step
            wp_mono [OF dispatchChannel_does [OF Suc.prems]])
    next
      case StepTypeDelay
      show ?thesis
        unfolding unf using False StepTypeDelay Suc.prems
        by (auto simp: Let_def performed_quiet quiet_in_tx intro!: wp_time_now
            wp_mono [OF settle_done [where o' = "Paused (nextIndex steps ?s i) (st_delay ?s)"]]
            split: sum.splits)
    next
      case StepTypeCondition
      show ?thesis
        unfolding unf using False StepTypeCondition Suc.IH [OF Suc.prems] by (simp add: Let_def)
    next
      case OtherType
      show ?thesis
        unfolding unf using False OtherType Suc.IH [OF Suc.prems] by (simp add: Let_def)
    qed
  qed
qed

section \<open>Safety of every run, the failing ones included\<close>

definition job_for :: "db \<Rightarrow> event \<Rightarrow> step list \<Rightarrow> string \<times> gval \<Rightarrow> bool" where
  "job_for d ev steps m \<longleftrightarrow> (\<exists>s \<in> set steps. st_type s = StepTypeChannel \<and> opted d ev s \<and>
     (\<exists>nid. m = (ChannelSubject (ev_tenant ev) (st_channel s), encode_job (job_of ev s nid))))"

definition sent :: "nat \<Rightarrow> event \<Rightarrow> step list \<Rightarrow> world \<Rightarrow> world \<Rightarrow> bool" where
  "sent n ev steps w w' \<longleftrightarrow> preferences (db w') = preferences (db w) \<and>
     (\<exists>ms. bus w' = bus w @ ms \<and> length ms \<le> n \<and> (\<forall>m \<in> set ms. job_for (db w) ev steps m))"

lemma sent_quiet: "quiet w w' \<Longrightarrow> sent n ev steps w w'"
  by (simp add: sent_def quietD)

lemma sent_trans:
  assumes "sent k ev steps w w1" and "sent n ev steps w1 w2"
  shows "sent (k + n) ev steps w w2"
proof -
  have "job_for (db w1) ev steps = job_for (db w) ev steps"
    using assms(1) opted_cong [of "db w1" "db w"] by (intro ext) (simp add: job_for_def sent_def)
  with assms show ?thesis by (fastforce simp: sent_def)
qed

lemma sent_mono: "sent k ev steps w w1 \<Longrightarrow> k \<le> n \<Longrightarrow> sent n ev steps w w1"
  by (fastforce simp: sent_def)

lemma dispatchChannel_sent:
  assumes tx: "in_tx (ev_tenant ev) d0 w" and s: "s \<in> set steps" "st_type s = StepTypeChannel"
  shows "wp (dispatchChannel ev s run)
    (\<lambda>r w'. in_tx (ev_tenant ev) d0 w' \<and> sent 1 ev steps w w') w"
  unfolding dispatchChannel_def wp_bind
proof (rule wp_mono [OF IsOptedIn_in_tx [OF tx]], elim conjE)
  fix r w1
  assume q: "quiet w w1" and r: "r = Inr (opted (db w) ev s) \<or> r = Inr True \<and> broken w1"
  have tx1: "in_tx (ev_tenant ev) d0 w1" using tx q by (simp add: quiet_in_tx)
  let ?Q = "\<lambda>r w'. in_tx (ev_tenant ev) d0 w' \<and> sent 1 ev steps w w'"
  have send: "wp (on_err (db_stmt (\<lambda>c d. insert_notification c d ev s run))
       (\<lambda>e. ret (Inl (Wrap ''insert notification'' e)))
       (\<lambda>nid. js_publish (ChannelSubject (ev_tenant ev) (st_channel s))
          (encode_job (job_of ev s nid)))) ?Q w1"
    if ok: "broken w1 \<or> opted (db w) ev s"
    unfolding wp_on_err
  proof (rule wp_stmt_strong, goal_cases)
    case (1 s')
    then show ?case using tx1 q by (auto simp: quiet_in_tx intro: sent_quiet quiet_trans)
  next
    case (2 s' c d nid)
    then have d: "preferences d = preferences (db w)" and o': "opted (db w) ev s"
      using insert_notification_SomeD [OF 2(5)] q ok by (auto simp: quietD)
    have tx2: "in_tx (ev_tenant ev) d0 (s'\<lparr>db := d\<rparr>)" using tx1 2(1) by (simp add: quiet_in_tx)
    have bus: "bus s' = bus w" using q 2(1) by (simp add: quietD)
    show ?case
      unfolding sum.case
      by (rule wp_js_publish)
        (use tx2 d o' bus s in \<open>auto simp: quiet_in_tx sent_def quietD job_for_def\<close>)
  qed
  show "wp (let optedIn = case r of Inl x \<Rightarrow> False | Inr b \<Rightarrow> b
        in if \<not> optedIn then ret (Inr ())
           else on_err (db_stmt (\<lambda>c d. insert_notification c d ev s run))
                 (\<lambda>e. ret (Inl (Wrap ''insert notification'' e)))
                 (\<lambda>nid. js_publish (ChannelSubject (ev_tenant ev) (st_channel s))
                          (encode_job (job_of ev s nid)))) ?Q w1"
  proof (cases "r = Inr False")
    case True
    with tx1 q show ?thesis by (simp add: sent_quiet)
  next
    case False
    with r have r': "r = Inr True" and b: "broken w1 \<or> opted (db w) ev s" by auto
    show ?thesis
      using send [OF b] by (simp only: r' sum.case Let_def not_True_eq_False if_False)
  qed
qed

lemma update_run_sent:
  assumes "in_tx t d0 w"
  shows "wp (exec (\<lambda>c d. Some (update_run run f d))) (\<lambda>r w'. in_tx t d0 w' \<and> sent n ev steps w w') w"
  by (rule wp_exec) (use assms in \<open>auto simp: quiet_in_tx sent_def quietD update_run_def\<close>)

lemma exec_loop_sent:
  assumes "in_tx (ev_tenant ev) d0 w"
  shows "wp (exec_loop left ev steps run i)
    (\<lambda>r w'. in_tx (ev_tenant ev) d0 w' \<and> sent left ev steps w w') w"
  using assms
proof (induction left arbitrary: i w)
  case 0
  then show ?case
    by (subst exec_loop.simps) (simp add: failRun_def update_run_sent)
next
  case (Suc n)
  let ?s = "steps ! i"
  let ?Q = "\<lambda>r w'. in_tx (ev_tenant ev) d0 w' \<and> sent (Suc n) ev steps w w'"
  have skip: "wp (exec_loop n ev steps run j) ?Q w" for j
    by (rule wp_mono [OF Suc.IH [OF Suc.prems]]) (auto intro: sent_mono)
  show ?case
  proof (cases rule: step_cases [of steps i])
    case 1
    with Suc.prems show ?thesis by (subst exec_loop.simps) (simp add: update_run_sent)
  next
    case 2
    have step: "wp (exec_loop n ev steps run j) ?Q w1"
      if "in_tx (ev_tenant ev) d0 w1" "sent 1 ev steps w w1" for w1 j
      by (rule wp_mono [OF Suc.IH [OF that(1)]]) (use sent_trans [OF that(2)] in fastforce)
    show ?thesis
      unfolding exec_channel [OF 2] wp_on_err
    proof (rule wp_mono [OF dispatchChannel_sent [OF Suc.prems, of ?s steps]], goal_cases)
      case (3 r w1)
      then show ?case by (cases r) (auto intro: step sent_mono)
    qed (use 2 in auto)
  next
    case 3
    have upd: "wp (exec (\<lambda>c d. Some (update_run run f d))) ?Q w1" if "quiet w w1" for w1 f
      by (rule wp_exec) (use that Suc.prems in \<open>auto simp: quiet_in_tx sent_def quietD update_run_def\<close>)
    show ?thesis
      using 3
      by (subst exec_loop.simps)
        (auto simp: Let_def split: sum.splits intro!: wp_time_now wp_mono [OF upd])
  next
    case 4
    show ?thesis unfolding exec_condition [OF 4] by (rule skip)
  next
    case 5
    show ?thesis unfolding exec_other [OF 5] by (rule skip)
  qed
qed

section \<open>Facts about plans\<close>

lemma plan_length: "length (fst (plan n steps p i)) \<le> n"
proof (induction n arbitrary: i)
  case (Suc n)
  then show ?case
    by (cases rule: step_cases [of steps i]) (simp_all add: plan_steps le_SucI)
qed (simp add: plan.simps)

lemma plan_channel_steps:
  "s \<in> set (fst (plan n steps p i)) \<Longrightarrow> s \<in> set steps \<and> st_type s = StepTypeChannel"
proof (induction n arbitrary: i)
  case 0
  then show ?case by (cases "length steps \<le> i") simp_all
next
  case (Suc n)
  show ?case
    using Suc.prems Suc.IH
    by (cases rule: step_cases [of steps i]) (auto simp: plan_steps)
qed

text \<open>Every jump of the workflow goes forward.\<close>

definition jumps_forward :: "step list \<Rightarrow> nat \<Rightarrow> string \<Rightarrow> bool" where
  "jumps_forward steps i target = (case idxByID steps target of None \<Rightarrow> True | Some j \<Rightarrow> i < j)"

definition forward :: "step list \<Rightarrow> bool" where
  "forward steps = list_all (\<lambda>i. jumps_forward steps i (st_next (steps ! i))
     \<and> jumps_forward steps i (st_true (steps ! i)) \<and> jumps_forward steps i (st_false (steps ! i)))
     [0..<length steps]"

lemma forwardD:
  "forward steps \<Longrightarrow> i < length steps \<Longrightarrow> jumps_forward steps i (st_next (steps ! i))
     \<and> jumps_forward steps i (st_true (steps ! i)) \<and> jumps_forward steps i (st_false (steps ! i))"
  by (simp add: forward_def list_all_iff)

lemma forward_next: "forward steps \<Longrightarrow> i < length steps \<Longrightarrow> i < nextIndex steps (steps ! i) i"
  using forwardD [of steps i] by (auto simp: nextIndex_def jumps_forward_def split: option.splits)

lemma forward_branch: "forward steps \<Longrightarrow> i < length steps \<Longrightarrow> i < branch steps p (steps ! i) i"
  using forwardD [of steps i]
  by (auto simp: branch_def jumps_forward_def Let_def split: option.splits if_splits)

lemma plan_forward:
  "forward steps \<Longrightarrow> length steps \<le> n + i \<Longrightarrow> snd (plan n steps p i) \<noteq> Cycled"
proof (induction n arbitrary: i)
  case (Suc n)
  have next_plan: "snd (plan n steps p j) \<noteq> Cycled" if "i < j" for j
    using that Suc.prems by (intro Suc.IH) simp_all
  show ?case
  proof (cases rule: step_cases [of steps i])
    case 2
    then show ?thesis using next_plan forward_next [OF Suc.prems(1), of i] by (simp add: plan_steps)
  next
    case 4
    then show ?thesis using next_plan forward_branch [OF Suc.prems(1), of i] by (simp add: plan_steps)
  qed (use next_plan in \<open>simp_all add: plan_steps\<close>)
qed simp

section \<open>A whole event\<close>

text \<open>\<open>ProcessEvent\<close> on success: no active workflow and nothing done, or one run created and driven.\<close>

definition processed :: "event \<Rightarrow> world \<Rightarrow> world \<Rightarrow> bool" where
  "processed ev w w' \<longleftrightarrow> (case select_workflow (db w) (ev_tenant ev) (ev_event ev) of
     None \<Rightarrow> quiet w w'
   | Some (wid, sj) \<Rightarrow> (\<exists>steps c d run w1. decode_steps sj = Some steps
       \<and> insert_run c (db w) ev wid = Some (d, run) \<and> db w1 = d \<and> bus w1 = bus w
       \<and> performed ev steps run (run_plan steps (ev_payload ev) 0) w1 w'))"

lemma executeFrom_does:
  assumes "in_tx (ev_tenant ev) d0 w"
  shows "wp (executeFrom ev steps run start)
    (\<lambda>r w'. in_tx (ev_tenant ev) d0 w' \<and> (r = Inr () \<longrightarrow>
       performed ev steps run (run_plan steps (ev_payload ev) (nat (max 0 start))) w w')) w"
  unfolding executeFrom_def run_plan_def by (rule exec_loop_performs [OF assms])

lemma ProcessEvent_does:
  assumes tx: "in_tx (ev_tenant ev) d0 w"
  shows "wp (ProcessEvent ev)
    (\<lambda>r w'. in_tx (ev_tenant ev) d0 w' \<and> (r = Inr () \<longrightarrow> \<not> broken w' \<longrightarrow> processed ev w w')) w"
  unfolding ProcessEvent_def lookupWorkflow_def wp_and_then wp_on_err
proof (rule wp_query_row_strong, goal_cases)
  case (1 s' e)
  have "saved w \<noteq> None" using tx by (simp add: in_tx_iff)
  with 1 tx show ?case
    by (cases "e = ErrNoRows") (auto simp: quiet_in_tx processed_def)
next
  case (2 s' c x)
  obtain wid sj where x: "x = (wid, sj)" by (cases x)
  have sel: "select_workflow (db w) (ev_tenant ev) (ev_event ev) = Some (wid, sj)" using 2 x by simp
  have tx1: "in_tx (ev_tenant ev) d0 s'" using tx 2 by (simp add: quiet_in_tx)
  have run: "wp (db_stmt (\<lambda>c d. insert_run c d ev wid)) (\<lambda>r. case r of
      Inl e \<Rightarrow> (\<lambda>w'. in_tx (ev_tenant ev) d0 w' \<and>
        ((Inl e :: unit res) = Inr () \<longrightarrow> \<not> broken w' \<longrightarrow> processed ev w w'))
    | Inr run \<Rightarrow> wp (executeFrom ev steps run 0) (\<lambda>r w'. in_tx (ev_tenant ev) d0 w' \<and>
        (r = Inr () \<longrightarrow> \<not> broken w' \<longrightarrow> processed ev w w'))) s'"
    if steps: "decode_steps sj = Some steps" for steps
  proof (rule wp_stmt, goal_cases)
    case (1 s2)
    then show ?case using tx1 by (simp add: quiet_in_tx)
  next
    case (2 s2 c2 d run)
    have tx2: "in_tx (ev_tenant ev) d0 (s2\<lparr>db := d\<rparr>)" using tx1 2 by (simp add: quiet_in_tx)
    have "insert_run c2 (db w) ev wid = Some (d, run)" "bus (s2\<lparr>db := d\<rparr>) = bus w"
      using 2 \<open>quiet w s'\<close> by (simp_all add: quietD)
    then have "processed ev w w'"
      if "performed ev steps run (run_plan steps (ev_payload ev) 0) (s2\<lparr>db := d\<rparr>) w'" for w'
      using that steps sel unfolding processed_def
      by (auto intro!: exI [of _ c2] exI [of _ d] exI [of _ run] exI [of _ "s2\<lparr>db := d\<rparr>"])
    then show ?case
      using executeFrom_does [OF tx2, of steps run 0] by (auto elim!: wp_mono)
  qed
  show ?case
    using run tx1
    by (auto simp: x createRun_def wp_cases split: option.splits)
qed

lemma Resume_does:
  assumes tx: "in_tx t d0 w" and sel: "select_resume (db w) run = Some (r, sj)"
    and t: "rn_tenant r = t"
    and p: "decode_payload (rn_payload r) = Some p" and st: "decode_steps sj = Some steps"
    and ev: "ev = \<lparr>ev_tenant = t, ev_subscriber = (case rn_subscriber r of None \<Rightarrow> [] | Some s \<Rightarrow> s),
        ev_event = rn_event r, ev_payload = p, ev_workflow = [], ev_run = run\<rparr>"
  shows "wp (Resume run) (\<lambda>x w'. in_tx t d0 w' \<and> (x = Inr () \<longrightarrow> \<not> broken w' \<longrightarrow>
      performed ev steps run (run_plan steps p (nat (max 0 (rn_step r)))) w w')) w"
  unfolding Resume_def wp_on_err
proof (rule wp_query_row_strong, goal_cases)
  case (1 s' e)
  have "saved w \<noteq> None" using tx by (simp add: in_tx_iff)
  with 1 tx sel show ?case by (cases "e = ErrNoRows") (auto simp: quiet_in_tx)
next
  case (2 s' c x)
  then have x: "x = (r, sj)" using sel by simp
  have tx': "in_tx (ev_tenant ev) d0 s'" using tx 2 by (simp add: quiet_in_tx ev)
  show ?case
    using executeFrom_does [OF tx', of steps run "rn_step r"] 2(1)
    by (auto simp: x p st ev t performed_quiet elim!: wp_mono)
qed

lemma Resume_idle:
  assumes "select_resume (db w) run = None"
  shows "wp (Resume run) (\<lambda>x w'. x = Inr () \<and> quiet w w') w"
  unfolding Resume_def wp_on_err
  by (rule wp_query_row) (use assms in auto)

lemma event_decode: "decode_event (encode_event ev) = Some ev"
  by (cases ev) (simp add: encode_event_def json_get_defs omit_str_def)

section \<open>A concrete installation\<close>

definition sms_step :: step where
  "sms_step = zero_step\<lparr>st_id := ''a'', st_type := StepTypeChannel, st_channel := ''sms''\<rparr>"

definition wf_db :: db where
  "wf_db = sample_db\<lparr>workflows := [\<lparr>wf_id = ''w1'', wf_tenant = ''t1'', wf_name = ''n'',
     wf_trigger = ''user.welcome'',
     wf_steps = GArr [GObj [(''id'', GStr ''a''), (''type'', GStr ''channel''), (''channel'', GStr ''sms'')]],
     wf_active = True, wf_created = 0\<rparr>],
     runs := [\<lparr>rn_id = ''r1'', rn_tenant = ''t1'', rn_workflow = ''w1'', rn_subscriber = Some ''s1'',
       rn_event = ''user.welcome'', rn_payload = GObj [], rn_status = Running, rn_step = 0,
       rn_resume_at = Some 0, rn_error = None, rn_created = 0\<rparr>]\<rparr>"

definition signup :: event where
  "signup = \<lparr>ev_tenant = ''t1'', ev_subscriber = ''s1'', ev_event = ''user.welcome'',
     ev_payload = [], ev_workflow = [], ev_run = []\<rparr>"

definition signup_msg :: js_msg where
  "signup_msg = \<lparr>m_subject = EventSubject ''t1'', m_text = [], m_json = Some (encode_event signup),
     m_delivered = Some 1\<rparr>"

text \<open>The concrete run with a schedule of database faults; the bus and the disposition it ends with.\<close>

definition signup_run :: "bool list \<Rightarrow> disposition \<times> world" where
  "signup_run faults = run_state (engine_consume signup_msg) ((world0 wf_db)\<lparr>db_faults := faults\<rparr>)"

section \<open>Properties\<close>

text \<open>
  C1. Refinement. Whenever \<^verbatim>\<open>executeFrom\<close> succeeds inside its tenant's transaction, whatever faults
  the schedule holds, it has done what the abstract plan says and nothing else: for the channel
  steps the plan reaches, in order, less those the subscriber opted out of, one queued
  notification row and one job on the tenant's channel subject with that row's id; and the run's
  row is paused at the right index, completed or failed as the plan ends.
\<close>

theorem executeFrom_refines:
  assumes "in_tx (ev_tenant ev) d0 w"
  shows "wp (executeFrom ev steps run start) (\<lambda>r w'. r = Inr () \<longrightarrow>
     performed ev steps run (run_plan steps (ev_payload ev) (nat (max 0 start))) w w') w"
  using executeFrom_does [OF assms] by (rule wp_mono) simp

theorem executeFrom_refines_witness:
  "wp (executeFrom signup [sms_step] ''r1'' 0) (\<lambda>r w'. r = Inr () \<longrightarrow>
     performed signup [sms_step] ''r1'' (run_plan [sms_step] [] 0) (tx_world ''t1'' wf_db) w')
     (tx_world ''t1'' wf_db)
   \<and> run_plan [sms_step] [] 0 = ([sms_step], Finished)"
  using executeFrom_refines [of signup wf_db "tx_world ''t1'' wf_db" "[sms_step]" "''r1''" 0]
  by (simp add: in_tx_def tx_world_def signup_def run_plan_def max_iterations_def plan.simps sms_step_def
      zero_step_def nextIndex_def idxByID_def Let_def)

text \<open>
  C4. Safety on every path, the failing ones included: all that a run ever publishes are jobs for
  channel steps of its own workflow that the subscriber has not opted out of, addressed to its
  own tenant's channel subjects, at most \<open>2 * len + 11\<close> of them even when the steps form a cycle.
\<close>

theorem executeFrom_publishes_only:
  assumes "in_tx (ev_tenant ev) d0 w"
  shows "wp (executeFrom ev steps run start) (\<lambda>r w'. \<exists>ms. bus w' = bus w @ ms
     \<and> length ms \<le> 2 * length steps + 11 \<and> (\<forall>m \<in> set ms. job_for (db w) ev steps m)) w"
  unfolding executeFrom_def max_iterations_def
  by (rule wp_mono [OF exec_loop_sent [OF assms]]) (auto simp: sent_def)

theorem executeFrom_publishes_only_witness:
  "wp (executeFrom signup [sms_step] ''r1'' 0) (\<lambda>r w'. length (bus w') \<le> 13) (tx_world ''t1'' wf_db)"
  using executeFrom_publishes_only [of signup wf_db "tx_world ''t1'' wf_db" "[sms_step]" "''r1''" 0]
  by (rule wp_mono) (auto simp: in_tx_def tx_world_def world0_def signup_def)



text \<open>
  A delay of up to 9223372036 seconds resumes exactly that many seconds later; one second
  more wraps the 64-bit duration, and the run is due in the past.
\<close>

theorem resume_time_exact:
  assumes "0 \<le> n" and "n \<le> 9223372036"
  shows "resume_time now n = now + n * 10 ^ 9 \<and> resume_time now 9223372037 < now"
proof -
  have w: "word_of_int k * word_of_int (10 ^ 9) = (word_of_int (k * 10 ^ 9) :: 64 word)" for k
    by simp
  have "sint (word_of_int (n * 10 ^ 9) :: 64 word) = n * 10 ^ 9"
    unfolding sint_sbintrunc' by (rule signed_take_bit_int_eq_self) (use assms in simp_all)
  moreover have "sint (word_of_int (9223372037 * 10 ^ 9) :: 64 word) < 0"
    by (simp add: signed_take_bit_eq_take_bit_minus take_bit_int_def)
  ultimately show ?thesis by (simp add: resume_time_def w)
qed

theorem resume_time_exact_witness: "resume_time 0 3600 = 3600 * 10 ^ 9"
  using resume_time_exact [of 3600 0] by simp

text \<open>An event in its transaction.\<close>

lemma wp_event_tx:
  assumes "saved w = None"
  shows "wp (RunInTenant (ev_tenant ev) (ProcessEvent ev)) (\<lambda>r w'. tx w' = None \<and> (case r of
       Inl _ \<Rightarrow> db w' = db w
     | Inr _ \<Rightarrow> \<exists>w1 w2. db w1 = db w \<and> bus w1 = bus w \<and> processed ev w1 w2
         \<and> db w' = db w2 \<and> bus w' = bus w2)) w"
proof (rule wp_RunInTenant [OF assms], goal_cases)
  case (2 s1)
  then have b: "bus s1 = bus w" by (simp add: effects_def)
  show ?case
    by (rule wp_mono [OF ProcessEvent_does [OF 2(5)]])
      (use 2 b in \<open>fastforce simp: quietD split: sum.splits\<close>)
qed simp

text \<open>
  C3. An event is handled atomically in the database: an error of any kind leaves every table as
  it was, and success means the matching active workflow was looked up, its run created and its
  plan performed, or nothing at all when no workflow matches.
\<close>

theorem engine_handle_atomic:
  assumes "saved w = None" and "m_json msg = Some v" and "decode_event v = Some ev"
    and "ev_run ev = []"
  shows "wp (engine_handle msg) (\<lambda>r w'. tx w' = None \<and> (case r of
       Inl _ \<Rightarrow> db w' = db w
     | Inr _ \<Rightarrow> \<exists>w1 w2. db w1 = db w \<and> bus w1 = bus w \<and> processed ev w1 w2
         \<and> db w' = db w2 \<and> bus w' = bus w2)) w"
  using wp_event_tx [OF assms(1), of ev] assms(2-) by (simp add: engine_handle_def)

theorem engine_handle_atomic_witness:
  "wp (engine_handle signup_msg) (\<lambda>r w'. r \<noteq> Inr () \<longrightarrow> db w' = wf_db) (world0 wf_db)"
  using engine_handle_atomic [of "world0 wf_db" signup_msg "encode_event signup" signup]
  by (rule wp_mono)
    (auto simp: signup_msg_def event_decode saved_def world0_def signup_def split: sum.splits)

text \<open>
  C28. A resume signal acts on a running run only, from the step its row records and with the
  event it records; for a run that is completed, failed, cancelled or gone it does nothing.
\<close>

theorem Resume_continues:
  assumes "in_tx t d0 w" and "select_resume (db w) run = Some (r, sj)" and "rn_tenant r = t"
    and "decode_payload (rn_payload r) = Some p" and "decode_steps sj = Some steps"
  shows "wp (Resume run) (\<lambda>x w'. x = Inr () \<longrightarrow> \<not> broken w' \<longrightarrow>
      performed \<lparr>ev_tenant = t, ev_subscriber = (case rn_subscriber r of None \<Rightarrow> [] | Some s \<Rightarrow> s),
        ev_event = rn_event r, ev_payload = p, ev_workflow = [], ev_run = run\<rparr> steps run
        (run_plan steps p (nat (max 0 (rn_step r)))) w w') w
    \<and> (\<forall>run'. select_resume (db w) run' = None \<longrightarrow>
        wp (Resume run') (\<lambda>x w'. x = Inr () \<and> quiet w w') w)"
  using Resume_does [OF assms refl] Resume_idle
  by (auto elim!: wp_mono)

theorem Resume_continues_witness:
  "wp (Resume ''r9'') (\<lambda>x w'. x = Inr () \<and> quiet (tx_world ''t1'' wf_db) w') (tx_world ''t1'' wf_db)
   \<and> (\<exists>r sj. select_resume (db (tx_world ''t1'' wf_db)) ''r1'' = Some (r, sj))"
proof -
  obtain r sj where r: "select_resume (db (tx_world ''t1'' wf_db)) ''r1'' = Some (r, sj)"
    "rn_tenant r = ''t1''" "decode_payload (rn_payload r) = Some []"
    "decode_steps sj = Some [sms_step]"
    by (simp add: select_resume_def tx_world_def world0_def wf_db_def json_get_defs step_type_of_def
        sms_step_def zero_step_def)
  have none: "select_resume (db (tx_world ''t1'' wf_db)) ''r9'' = None"
    by (simp add: select_resume_def tx_world_def world0_def wf_db_def)
  have "in_tx ''t1'' wf_db (tx_world ''t1'' wf_db)" by (simp add: in_tx_def tx_world_def)
  from Resume_continues [OF this r, THEN conjunct2] none r(1) show ?thesis by blast
qed

text \<open>
  An event survives its trip through the stream: decoding what was encoded gives it back.
\<close>

theorem event_roundtrip: "decode_event (encode_event ev) = Some ev"
  by (rule event_decode)

text \<open>
  The engine publishes its jobs before its transaction commits. If the commit then fails, the
  run and the notification rows are gone and the event is nak'd for another try, but the job is
  already on the channel's stream: it refers to a notification that does not exist, and the
  retry will publish a second job for the same step.
\<close>

theorem job_outlives_failed_commit:
  "fst (signup_run [False, False, False, False, False, False, False, True]) = Nak
   \<and> db (snd (signup_run [False, False, False, False, False, False, False, True])) = wf_db
   \<and> map fst (bus (snd (signup_run [False, False, False, False, False, False, False, True])))
     = [ChannelSubject ''t1'' ''sms'']
   \<and> fst (signup_run []) = Ack"
  by (simp add: signup_run_def run_defs signup_msg_def signup_def wf_db_def sample_defs
      engine_consume_def engine_handle_def event_decode ProcessEvent_def lookupWorkflow_def
      select_workflow_def json_get_defs step_type_of_def createRun_def insert_run_def
      executeFrom_def exec_loop.simps max_iterations_def nat_digits_literal digit_char_def
      nextIndex_def idxByID_def dispatchChannel_def IsOptedIn_def opted_in_row_def
      insert_notification_def channels_def category_of_def update_run_def queued_row_def
      update_where_def nilIfEmpty_def zero_step_def)

end

