(* ===== verification/Scheduler.thy ===== *)
theory Scheduler
  imports Engine_Spec
begin

text \<open>
  \<^verbatim>\<open>domains/scheduler/scheduler.go\<close>: every tick scans each tenant's runs for those whose delay has
  passed and re-enqueues them, at most \<open>batch\<close> per tenant, the longest due first. Clearing
  \<^verbatim>\<open>resume_at\<close> and publishing the resume event happen in the tenant's transaction.
\<close>

record scheduler =
  sch_interval :: int
  sch_batch :: nat

definition scheduler_New :: scheduler where
  "scheduler_New = \<lparr>sch_interval = 30 * 10 ^ 9, sch_batch = 50\<rparr>"

definition is_due :: "string \<Rightarrow> int \<Rightarrow> run_row \<Rightarrow> bool" where
  "is_due t now r \<longleftrightarrow> rn_tenant r = t \<and> rn_status r = Running \<and>
     (case rn_resume_at r of None \<Rightarrow> False | Some x \<Rightarrow> x \<le> now)"

definition due_order :: "run_row \<Rightarrow> int" where
  "due_order r = (case rn_resume_at r of None \<Rightarrow> 0 | Some x \<Rightarrow> x)"

definition select_due :: "db \<Rightarrow> string \<Rightarrow> int \<Rightarrow> nat \<Rightarrow> string list" where
  "select_due d t now n =
     map rn_id (take n (sort_key due_order (filter (is_due t now) (runs d))))"

definition resume_event :: "string \<Rightarrow> string \<Rightarrow> event" where
  "resume_event t run = \<lparr>ev_tenant = t, ev_subscriber = [], ev_event = [], ev_payload = [],
     ev_workflow = [], ev_run = run\<rparr>"

definition clear_due :: "run_row \<Rightarrow> run_row" where
  "clear_due r = r\<lparr>rn_resume_at := None\<rparr>"

text \<open>One run: a failed clear skips it, a failed publish is only logged.\<close>

definition requeue :: "string \<Rightarrow> string \<Rightarrow> unit app" where
  "requeue t run = on_err (exec (\<lambda>c d. Some (update_run run clear_due d)))
     (\<lambda>_. ret ())
     (\<lambda>_. do { _ \<leftarrow> js_publish (EventSubject t) (encode_event (resume_event t run)); ret () })"

definition tick_tenant :: "nat \<Rightarrow> string \<Rightarrow> unit res app" where
  "tick_tenant n t = RunInTenant t
     (and_then (query (\<lambda>c d. select_due d t (db_now c) n))
       (\<lambda>ids. do { for_each ids (requeue t); ret (Inr ()) }))"

definition Tick :: "scheduler \<Rightarrow> unit app" where
  "Tick sch = on_err (query (\<lambda>c d. map tn_id (tenants d)))
     (\<lambda>_. ret ())
     (\<lambda>tids. for_each tids (\<lambda>t. do { _ \<leftarrow> tick_tenant (sch_batch sch) t; ret () }))"

section \<open>Requeueing a list of runs\<close>

definition resume_msg :: "string \<Rightarrow> string \<Rightarrow> string \<times> gval" where
  "resume_msg t run = (EventSubject t, encode_event (resume_event t run))"

definition clear_runs :: "string list \<Rightarrow> db \<Rightarrow> db" where
  "clear_runs ids d = d\<lparr>runs := update_where (\<lambda>r. rn_id r \<in> set ids) clear_due (runs d)\<rparr>"

text \<open>
  \<open>w'\<close> is \<open>w\<close> with those runs cleared and the resume events of some of them published, all of
  them if the bus has no faults.
\<close>

definition requeued :: "string \<Rightarrow> string list \<Rightarrow> world \<Rightarrow> world \<Rightarrow> bool" where
  "requeued t ids w w' \<longleftrightarrow> db w' = clear_runs ids (db w) \<and> calm w w' \<and>
     (\<exists>sub. subseq sub ids \<and> bus w' = bus w @ map (resume_msg t) sub
        \<and> (bus_faults w = [] \<longrightarrow> sub = ids))"

lemma clear_runs_Cons: "clear_runs (x # ids) d = clear_runs ids (update_run x clear_due d)"
  by (auto simp: clear_runs_def update_run_def update_where_def clear_due_def)

lemma clear_runs_Nil [simp]: "clear_runs [] d = d"
  by (simp add: clear_runs_def update_where_def)

lemma update_run_cong: "db a = db b \<Longrightarrow> update_run x f (db a) = update_run x f (db b)"
  by simp

lemma requeued_Nil: "quiet w w' \<Longrightarrow> requeued t [] w w'"
  by (auto simp: requeued_def quietD quiet_calm)

lemma requeued_Cons:
  assumes one: "db w1 = update_run x clear_due (db w)" "calm w w1"
    "bus w1 = bus w \<and> bus_faults w \<noteq> [] \<or> bus w1 = bus w @ [resume_msg t x]"
    and rest: "requeued t ids w1 w2"
  shows "requeued t (x # ids) w w2"
proof -
  from rest obtain sub where sub: "subseq sub ids" "bus w2 = bus w1 @ map (resume_msg t) sub"
    "bus_faults w1 = [] \<longrightarrow> sub = ids" by (auto simp: requeued_def)
  have "bus_faults w = [] \<Longrightarrow> bus_faults w1 = []" using one(2) by (simp add: calm_def)
  then have "\<exists>sub'. subseq sub' (x # ids) \<and> bus w2 = bus w @ map (resume_msg t) sub'
      \<and> (bus_faults w = [] \<longrightarrow> sub' = x # ids)"
    using one(3) sub
    by (auto intro: exI [of _ "x # sub"] exI [of _ sub] list_emb_Cons)
  then show ?thesis
    using rest one by (auto simp: requeued_def clear_runs_Cons intro: calm_trans)
qed

text \<open>The loop over the due runs: the transaction survives only when every run was requeued.\<close>

lemma requeue_does:
  assumes "in_tx t d0 w"
  shows "wp (requeue t x) (\<lambda>_ w'. in_tx t d0 w' \<and> calm w w' \<and> (broken w \<longrightarrow> broken w') \<and> (\<not> broken w' \<longrightarrow>
     db w' = update_run x clear_due (db w) \<and>
     (bus w' = bus w \<and> bus_faults w \<noteq> [] \<or> bus w' = bus w @ [resume_msg t x]))
     \<and> (db_faults w = [] \<longrightarrow> \<not> broken w \<longrightarrow> \<not> broken w' \<and> db_faults w' = [])) w"
  unfolding requeue_def wp_on_err
proof (rule wp_exec_strong, goal_cases)
  case (1 s')
  have "saved w \<noteq> None" using assms by (simp add: in_tx_iff)
  with 1 assms show ?case by (auto simp: quiet_in_tx quiet_calm)
next
  case (2 s' c d)
  have tx: "in_tx t d0 (s'\<lparr>db := d\<rparr>)" using 2 assms by (simp add: quiet_in_tx)
  have cm: "calm w s'" using 2 by (simp add: quiet_calm)
  then have bf: "bus_faults s' \<noteq> [] \<Longrightarrow> bus_faults w \<noteq> []" by (auto simp: calm_def)
  have ct: "calm w s''" if "quiet (s'\<lparr>db := d\<rparr>) s''" for s''
    using quiet_calm [OF that] cm by (auto intro: calm_trans)
  have br: "\<not> broken s''" if "tx s'' = tx (s'\<lparr>db := d\<rparr>)" for s''
    using that 2 broken_tx [of s'' w] by simp
  show ?case
    unfolding sum.case wp_bind
    by (rule wp_js_publish)
      (use 2 tx bf ct br in \<open>auto simp: quiet_in_tx quietD resume_msg_def calm_def\<close>)
qed

lemma requeue_loop:
  assumes "in_tx t d0 w"
  shows "wp (for_each ids (requeue t)) (\<lambda>_ w'. in_tx t d0 w' \<and> calm w w' \<and> (broken w \<longrightarrow> broken w') \<and>
     (\<not> broken w' \<longrightarrow> requeued t ids w w')
     \<and> (db_faults w = [] \<longrightarrow> \<not> broken w \<longrightarrow> \<not> broken w' \<and> db_faults w' = [])) w"
  using assms
proof (induction ids arbitrary: w)
  case Nil
  then show ?case by (simp add: requeued_Nil)
next
  case (Cons x ids)
  have step: "wp (for_each ids (requeue t)) (\<lambda>_ w'. in_tx t d0 w' \<and> calm w w' \<and> (broken w \<longrightarrow> broken w') \<and>
      (\<not> broken w' \<longrightarrow> requeued t (x # ids) w w')
      \<and> (db_faults w = [] \<longrightarrow> \<not> broken w \<longrightarrow> \<not> broken w' \<and> db_faults w' = [])) w1"
    if "in_tx t d0 w1" "calm w w1" "broken w \<longrightarrow> broken w1" "\<not> broken w1 \<longrightarrow>
       db w1 = update_run x clear_due (db w) \<and>
       (bus w1 = bus w \<and> bus_faults w \<noteq> [] \<or> bus w1 = bus w @ [resume_msg t x])"
      "db_faults w = [] \<longrightarrow> \<not> broken w \<longrightarrow> \<not> broken w1 \<and> db_faults w1 = []" for w1
    by (rule wp_mono [OF Cons.IH [OF that(1)]]) (use that requeued_Cons calm_trans in blast)
  show ?case
    unfolding for_each.simps wp_bind
    by (rule wp_mono [OF requeue_does [OF Cons.prems]]) (use step in blast)
qed

text \<open>A tick of one tenant, at the time \<open>now\<close> its transaction reads.\<close>

definition ticked :: "nat \<Rightarrow> string \<Rightarrow> world \<Rightarrow> world \<Rightarrow> bool" where
  "ticked n t w w' \<longleftrightarrow> (\<exists>now. let ids = select_due (db w) t now n in
     db w' = clear_runs ids (db w) \<and>
     (\<exists>sub. subseq sub ids \<and> bus w' = bus w @ map (resume_msg t) sub
        \<and> (bus_faults w = [] \<longrightarrow> sub = ids)))"

lemma tick_tenant_does:
  assumes "saved w = None"
  shows "wp (tick_tenant n t) (\<lambda>r w'. tx w' = None \<and> calm w w' \<and> (case r of
       Inl _ \<Rightarrow> db w' = db w \<and> db_faults w \<noteq> []
     | Inr _ \<Rightarrow> ticked n t w w')) w"
  unfolding tick_tenant_def
proof (rule wp_RunInTenant [OF assms], goal_cases)
  case (1 e s')
  then show ?case by simp
next
  case (2 s1)
  note s1 = this
  have b: "bus s1 = bus w" using s1 by (simp add: effects_def)
  show ?case
    unfolding wp_and_then
  proof (rule wp_query_strong, goal_cases)
    case (1 s2)
    have "calm w s2" using s1(3) quiet_calm [OF 1(1)] by (rule calm_trans)
    moreover have "db_faults w \<noteq> []" using 1 s1 by (auto simp: calm_def)
    ultimately show ?case using s1 1 by (simp add: quiet_in_tx)
  next
    case (2 s2 c)
    note s2 = this
    let ?ids = "select_due (db w) t (db_now c) n"
    have tx2: "in_tx t (db w) s2" using s1 s2 by (simp add: quiet_in_tx)
    have c2: "calm w s2" using s1(3) quiet_calm [OF s2(1)] by (rule calm_trans)
    have nb: "\<not> broken s2" using s2 s1 broken_tx [of s2 s1] by simp
    have tk: "ticked n t w w'" if "requeued t ?ids s2 w'" for w'
    proof -
      have "db s2 = db w" "bus s2 = bus w" using s1 s2 b by (simp_all add: quietD)
      moreover have "bus_faults w = [] \<Longrightarrow> bus_faults s2 = []" using c2 by (simp add: calm_def)
      ultimately show ?thesis
        using that unfolding ticked_def requeued_def Let_def by (intro exI [of _ "db_now c"]) auto
    qed
    have fin: "calm w s4 \<and> (db_faults s3 \<noteq> [] \<or> broken s3 \<longrightarrow> db_faults w \<noteq> [])
        \<and> (\<not> broken s3 \<longrightarrow> ticked n t w (s4\<lparr>tx := None\<rparr>))"
      if l: "calm s2 s3" "quiet s3 s4" "\<not> broken s3 \<longrightarrow> requeued t ?ids s2 s3"
        "db_faults s2 = [] \<longrightarrow> \<not> broken s2 \<longrightarrow> \<not> broken s3 \<and> db_faults s3 = []" for s3 s4
    proof (intro conjI impI)
      show "calm w s4"
        using c2 l(1) quiet_calm [OF l(2)] by (blast intro: calm_trans)
      show "db_faults w \<noteq> []" if "db_faults s3 \<noteq> [] \<or> broken s3"
        using that l(4) nb c2 by (auto simp: calm_def)
      show "ticked n t w (s4\<lparr>tx := None\<rparr>)" if "\<not> broken s3"
        using tk [of s3] l that by (simp add: ticked_def quietD)
    qed
    have ids: "select_due (db s1) t (db_now c) n = ?ids" using s1 by simp
    show ?case
      unfolding sum.case wp_bind ids
      by (rule wp_mono [OF requeue_loop [OF tx2]]) (auto dest: fin)
  qed
qed

section \<open>Which runs are taken\<close>

lemma select_due_rows:
  "\<exists>rs. set rs \<subseteq> set (filter (is_due t now) (runs d)) \<and> length rs \<le> n
     \<and> select_due d t now n = map rn_id rs"
  by (rule exI [of _ "take n (sort_key due_order (filter (is_due t now) (runs d)))"])
    (auto simp: select_due_def dest: in_set_takeD)

lemma sort_key_take_least:
  assumes "x \<in> set (take n (sort_key f xs))" and "y \<in> set (drop n (sort_key f xs))"
  shows "f x \<le> f y"
proof -
  have "sorted (map f (take n (sort_key f xs) @ drop n (sort_key f xs)))"
    by (simp only: append_take_drop_id sorted_sort_key)
  with assms show ?thesis unfolding map_append sorted_append by auto
qed

lemma cleared_not_due:
  assumes "x \<in> set ids"
  shows "x \<notin> set (select_due (clear_runs ids d) t now n)"
proof
  assume "x \<in> set (select_due (clear_runs ids d) t now n)"
  then obtain rs r where "set rs \<subseteq> set (filter (is_due t now) (runs (clear_runs ids d)))"
    "r \<in> set rs" "rn_id r = x"
    using select_due_rows [of t now "clear_runs ids d" n] by auto
  then have r: "r \<in> set (runs (clear_runs ids d))" "is_due t now r" "rn_id r = x" by auto
  then obtain q where "r = (if rn_id q \<in> set ids then clear_due q else q)"
    by (auto simp: clear_runs_def in_update_where)
  with r assms show False by (auto simp: is_due_def clear_due_def split: if_splits)
qed

section \<open>Properties\<close>



text \<open>
  The selection takes at most the batch, only running runs of the tenant whose time has come,
  the longest due first (a due run left out is due no earlier than any taken), and a run that was
  taken is not taken again by any later tick until a delay step sets its time anew.
\<close>

theorem select_due_selects:
  "length (select_due d t now n) \<le> n
   \<and> (\<forall>x. x \<in> set (select_due d t now n) \<longrightarrow>
        (\<exists>r. r \<in> set (runs d) \<and> rn_id r = x \<and> is_due t now r \<and>
          (\<forall>q. q \<in> set (runs d) \<and> is_due t now q \<and> rn_id q \<notin> set (select_due d t now n) \<longrightarrow>
             due_order r \<le> due_order q))
        \<and> x \<notin> set (select_due (clear_runs (select_due d t now n) d) t' now' n'))"
proof (intro conjI allI impI)
  let ?S = "sort_key due_order (filter (is_due t now) (runs d))"
  show "length (select_due d t now n) \<le> n" by (simp add: select_due_def)
  fix x
  assume x: "x \<in> set (select_due d t now n)"
  then show "x \<notin> set (select_due (clear_runs (select_due d t now n) d) t' now' n')"
    by (rule cleared_not_due)
  from x obtain r where r: "r \<in> set (take n ?S)" "rn_id r = x" by (auto simp: select_due_def)
  have "due_order r \<le> due_order q"
    if q: "q \<in> set (runs d)" "is_due t now q" "rn_id q \<notin> set (select_due d t now n)" for q
  proof -
    have "set ?S = set (take n ?S) \<union> set (drop n ?S)"
      by (metis append_take_drop_id set_append)
    moreover have "q \<in> set ?S" using q(1,2) by simp
    moreover have "q \<notin> set (take n ?S)" using q(3) by (auto simp: select_due_def)
    ultimately have "q \<in> set (drop n ?S)" by blast
    then show ?thesis by (rule sort_key_take_least [OF r(1)])
  qed
  moreover have "r \<in> set (runs d)" "is_due t now r" using in_set_takeD [OF r(1)] by auto
  ultimately show "\<exists>r. r \<in> set (runs d) \<and> rn_id r = x \<and> is_due t now r \<and>
      (\<forall>q. q \<in> set (runs d) \<and> is_due t now q \<and> rn_id q \<notin> set (select_due d t now n) \<longrightarrow>
         due_order r \<le> due_order q)"
    using r(2) by blast
qed

theorem select_due_selects_witness:
  "select_due wf_db ''t1'' 5 50 = [''r1'']
   \<and> ''r1'' \<notin> set (select_due (clear_runs (select_due wf_db ''t1'' 5 50) wf_db) ''t1'' 99 50)"
proof -
  have s: "select_due wf_db ''t1'' 5 50 = [''r1'']"
    by (simp add: select_due_def wf_db_def is_due_def)
  then show ?thesis using select_due_selects [of wf_db "''t1''" 5 50 "''t1''" 99 50] by simp
qed

definition two_ticks :: "bool list \<Rightarrow> world" where
  "two_ticks faults = snd (run_state (do { Tick scheduler_New; Tick scheduler_New })
     ((world0 wf_db)\<lparr>bus_faults := faults\<rparr>))"

text \<open>
  A run whose resume event fails to publish is lost: the error is only logged, the cleared
  \<^verbatim>\<open>resume_at\<close> commits, and the run stays running with nothing left to wake it, in this tick and
  in the next, although the bus works again.
\<close>

theorem failed_publish_loses_run:
  "bus (two_ticks [True]) = []
   \<and> map rn_status (runs (db (two_ticks [True]))) = [Running]
   \<and> map rn_resume_at (runs (db (two_ticks [True]))) = [None]
   \<and> bus (two_ticks []) = [resume_msg ''t1'' ''r1'']"
  by (simp add: two_ticks_def run_defs Tick_def scheduler_New_def tick_tenant_def select_due_def
      requeue_def update_run_def update_where_def clear_due_def is_due_def wf_db_def sample_defs
      nat_digits_literal digit_char_def resume_msg_def)

end
