(* ===== verification/Compliance.thy ===== *)
theory Compliance
  imports World_Logic Security
begin

text \<open>
  \<^verbatim>\<open>domains/compliance\<close> (dlt, ndnc) and \<^verbatim>\<open>domains/templates/rendering\<close>: the TRAI rules an Indian SMS
  has to meet (an approved DLT template, the do-not-call registry, the promotional hours of
  10:00 to 21:00 IST) and the rendering of a template. Code outside the repository is a field of
  \<open>env\<close>: pgcrypto's decryption behind \<^verbatim>\<open>notify_decrypt\<close>, the Handlebars renderer, the regular
  expression engine, the text form of JSON and the request signing of the AWS SDK.
\<close>

record env =
  e_key :: string
  e_decrypt :: "string \<Rightarrow> string \<Rightarrow> string"
  e_render :: "string \<Rightarrow> gmap \<Rightarrow> string res"
  e_regex :: "string \<Rightarrow> (string \<Rightarrow> bool) option"
  e_parse :: "string \<Rightarrow> gval option"
  e_marshal :: "gval \<Rightarrow> string"
  e_url_ok :: "string \<Rightarrow> bool"
  e_ses_config :: "string \<Rightarrow> string \<Rightarrow> string \<Rightarrow> bool"
  e_ses_request :: "string \<times> string \<times> string \<Rightarrow> gval \<Rightarrow> http_request"
  e_ses_reply :: "http_response \<Rightarrow> string res"
  e_encrypt :: "string \<Rightarrow> string \<Rightarrow> string \<Rightarrow> string"

text \<open>The function of migration 0013: an empty column stays empty.\<close>

definition notify_decrypt :: "env \<Rightarrow> string \<Rightarrow> string" where
  "notify_decrypt E x = (if x = [] then [] else e_decrypt E x (e_key E))"

section \<open>Promotional hours\<close>

text \<open>
  Times are nanoseconds since the Unix epoch; \<^verbatim>\<open>Asia/Kolkata\<close> is five and a half hours ahead of
  UTC, without daylight saving, as the code's own fallback zone.
\<close>

definition ist_offset :: int where "ist_offset = (5 * 3600 + 30 * 60) * 10 ^ 9"
definition hour_ns :: int where "hour_ns = 3600 * 10 ^ 9"
definition day_ns :: int where "day_ns = 24 * hour_ns"

definition ist_hour :: "int \<Rightarrow> int" where
  "ist_hour t = ((t + ist_offset) mod day_ns) div hour_ns"

definition window_open_at :: "int \<Rightarrow> bool" where
  "window_open_at t \<longleftrightarrow> 10 \<le> ist_hour t \<and> ist_hour t < 21"

definition IsPromotionalWindowOpen :: "bool app" where
  "IsPromotionalWindowOpen = do { now \<leftarrow> time_now; ret (window_open_at now) }"

definition next_window :: "int \<Rightarrow> int" where
  "next_window now = (let next10 = ((now + ist_offset) div day_ns) * day_ns + 10 * hour_ns - ist_offset in
     if now > next10 \<or> now = next10 then next10 + day_ns else next10)"

definition ResumeAtNextWindow :: "int app" where
  "ResumeAtNextWindow = do { now \<leftarrow> time_now; ret (next_window now) }"

section \<open>DLT templates\<close>

record dlt_template =
  dt_id :: string
  dt_carrier :: string
  dt_regex :: "string \<Rightarrow> bool"

definition select_approved :: "db \<Rightarrow> string \<Rightarrow> string \<Rightarrow> dlt_row list" where
  "select_approved d t carrier = filter (\<lambda>r. dl_tenant r = t \<and> dl_channel r = ''sms''
     \<and> (dl_carrier r = carrier \<or> dl_carrier r = ''all'') \<and> dl_status r = ''approved'') (dlts d)"

text \<open>A row whose expression does not compile is skipped.\<close>

fun compile_rows :: "env \<Rightarrow> dlt_row list \<Rightarrow> dlt_template list" where
  "compile_rows E [] = []"
| "compile_rows E (r # rs) = (case e_regex E (dl_regex r) of
     None \<Rightarrow> compile_rows E rs
   | Some f \<Rightarrow> \<lparr>dt_id = dl_id r, dt_carrier = dl_carrier r, dt_regex = f\<rparr> # compile_rows E rs)"

definition LoadApprovedTemplates :: "env \<Rightarrow> string \<Rightarrow> string \<Rightarrow> dlt_template list res app" where
  "LoadApprovedTemplates E t carrier = on_err (query (\<lambda>c d. select_approved d t carrier))
     (\<lambda>e. ret (Inl (Wrap ''load DLT templates'' e)))
     (\<lambda>rs. ret (Inr (compile_rows E rs)))"

fun MatchTemplate :: "dlt_template list \<Rightarrow> string \<Rightarrow> string" where
  "MatchTemplate [] body = []"
| "MatchTemplate (t # ts) body = (if dt_regex t body then dt_id t else MatchTemplate ts body)"

section \<open>The do-not-call registry\<close>

definition hashPhone :: "string \<Rightarrow> string" where
  "hashPhone v = sha256_hex v"

definition registered_in :: "db \<Rightarrow> string \<Rightarrow> bool" where
  "registered_in d h = list_ex (\<lambda>r. nd_hash r = h) (ndnc d)"

definition IsRegistered :: "string \<Rightarrow> bool res app" where
  "IsRegistered phone = (let h = hashPhone phone in
     on_err (query (\<lambda>c d. registered_in d h))
       (\<lambda>e. ret (Inl (Wrap ''ndnc lookup'' e))) (\<lambda>b. ret (Inr b)))"

definition insert_ndnc :: "db \<Rightarrow> string \<Rightarrow> string \<Rightarrow> db" where
  "insert_ndnc d h cat = (if list_ex (\<lambda>r. nd_hash r = h \<and> nd_category r = cat) (ndnc d) then d
     else d\<lparr>ndnc := ndnc d @ [\<lparr>nd_hash = h, nd_category = cat\<rparr>]\<rparr>)"

definition ndnc_Register :: "string \<Rightarrow> string \<Rightarrow> string \<Rightarrow> unit res app" where
  "ndnc_Register phone category source = (let cat = (if category = [] then ''all'' else category);
       h = hashPhone phone in
     on_err (exec (\<lambda>c d. Some (insert_ndnc d h cat)))
       (\<lambda>e. ret (Inl (Wrap ''ndnc register'' e))) (\<lambda>_. ret (Inr ())))"

section \<open>Rendering\<close>

record rendered =
  rd_subject :: string
  rd_body :: string

definition select_template :: "db \<Rightarrow> string \<Rightarrow> string \<Rightarrow> (string \<times> string) option" where
  "select_template d t i = map_option (\<lambda>r. (case tp_subject r of None \<Rightarrow> [] | Some s \<Rightarrow> s, tp_body r))
     (find (\<lambda>r. tp_id r = i \<and> tp_tenant r = t \<and> tp_active r) (templates d))"

definition Fetch :: "string \<Rightarrow> string \<Rightarrow> (string \<times> string) res app" where
  "Fetch t i = on_err (query_row (\<lambda>c d. select_template d t i))
     (\<lambda>e. ret (Inl (Wrap (''fetch template '' @ i) e))) (\<lambda>r. ret (Inr r))"

definition Render :: "env \<Rightarrow> string \<Rightarrow> gmap \<Rightarrow> string res" where
  "Render E tmpl data = (case e_render E tmpl data of
     Inl e \<Rightarrow> Inl (Wrap ''render template'' e) | Inr s \<Rightarrow> Inr s)"

definition RenderEmail :: "env \<Rightarrow> string \<Rightarrow> string \<Rightarrow> gmap \<Rightarrow> rendered res app" where
  "RenderEmail E t i data = and_then (Fetch t i) (\<lambda>(subject, body).
     case Render E subject data of
       Inl e \<Rightarrow> ret (Inl (Wrap ''render subject'' e))
     | Inr s \<Rightarrow> (case Render E body data of
         Inl e \<Rightarrow> ret (Inl (Wrap ''render body'' e))
       | Inr b \<Rightarrow> ret (Inr \<lparr>rd_subject = s, rd_body = b\<rparr>)))"

section \<open>Properties\<close>

text \<open>A moment as the IST day it falls in and the nanoseconds since that day began.\<close>

lemma ist_parts:
  obtains k r where "t = k * day_ns + r - ist_offset" "0 \<le> r" "r < day_ns"
proof
  show "t = ((t + ist_offset) div day_ns) * day_ns + (t + ist_offset) mod day_ns - ist_offset"
    using div_mult_mod_eq [of "t + ist_offset" day_ns] by linarith
qed (simp_all add: day_ns_def hour_ns_def)

lemma ist_hour_parts:
  "0 \<le> r \<Longrightarrow> r < day_ns \<Longrightarrow> ist_hour (k * day_ns + r - ist_offset) = r div hour_ns"
  by (simp add: ist_hour_def)

lemma le_div_mult: "0 < (h :: int) \<Longrightarrow> (a \<le> r div h) = (a * h \<le> r)"
proof
  assume h: "0 < h" and "a \<le> r div h"
  then have "a * h \<le> (r div h) * h" by (simp add: mult_right_mono)
  also have "\<dots> \<le> r" using h div_mult_mod_eq [of r h] pos_mod_sign [of h r] by linarith
  finally show "a * h \<le> r" .
next
  assume h: "0 < h" and "a * h \<le> r"
  then have "(a * h) div h \<le> r div h" by (intro zdiv_mono1)
  with h show "a \<le> r div h" by simp
qed

lemma hour_bounds: "(10 \<le> r div hour_ns) = (10 * hour_ns \<le> r)" "(r div hour_ns < 21) = (r < 21 * hour_ns)"
  using le_div_mult [of hour_ns 10 r] le_div_mult [of hour_ns 21 r] by (auto simp: hour_ns_def)

lemma window_parts:
  "0 \<le> r \<Longrightarrow> r < day_ns \<Longrightarrow>
     window_open_at (k * day_ns + r - ist_offset) = (10 * hour_ns \<le> r \<and> r < 21 * hour_ns)"
  by (simp add: window_open_at_def ist_hour_parts hour_bounds)

lemma next_window_parts:
  "0 \<le> r \<Longrightarrow> r < day_ns \<Longrightarrow> next_window (k * day_ns + r - ist_offset)
     = (if r < 10 * hour_ns then k else k + 1) * day_ns + 10 * hour_ns - ist_offset"
  by (simp add: next_window_def Let_def algebra_simps)

text \<open>
  C29. Outside the promotional hours, the next window is a moment at which the window is open, the
  start of its first hour (10:00 IST); it lies in the future, at most thirteen hours ahead, and
  the window stays closed until then.
\<close>

theorem next_window_is_next:
  assumes "\<not> window_open_at t"
  shows "window_open_at (next_window t) \<and> ist_hour (next_window t) = 10
    \<and> t < next_window t \<and> next_window t - t \<le> 13 * hour_ns
    \<and> (t \<le> u \<and> u < next_window t \<longrightarrow> \<not> window_open_at u)"
proof -
  obtain k r where t: "t = k * day_ns + r - ist_offset" "0 \<le> r" "r < day_ns" by (rule ist_parts)
  obtain l q where u: "u = l * day_ns + q - ist_offset" "0 \<le> q" "q < day_ns" by (rule ist_parts)
  have day: "day_ns = 24 * hour_ns" "0 < hour_ns" by (simp_all add: day_ns_def hour_ns_def)
  let ?k = "if r < 10 * hour_ns then k else k + 1"
  have closed: "r < 10 * hour_ns \<or> 21 * hour_ns \<le> r" using assms t by (auto simp: window_parts)
  have nx: "next_window t = ?k * day_ns + 10 * hour_ns - ist_offset"
    using t by (simp add: next_window_parts)
  have "window_open_at (next_window t)" "ist_hour (next_window t) = 10"
    using day unfolding nx by (simp_all add: window_parts ist_hour_parts)
  moreover have "t < next_window t" "next_window t - t \<le> 13 * hour_ns"
    using closed day t by (auto simp: nx algebra_simps)
  moreover have "\<not> window_open_at u" if b: "t \<le> u" "u < next_window t"
  proof
    assume "window_open_at u"
    then have o': "10 * hour_ns \<le> q" "q < 21 * hour_ns" using u by (simp_all add: window_parts)
    have D: "0 < day_ns" using day by simp
    have "k * day_ns < (l + 1) * day_ns" using b(1) t u(1,3) by (simp add: algebra_simps)
    moreover have "l * day_ns < (?k + 1) * day_ns"
      using b(2) u(1,2) nx day by (simp add: algebra_simps)
    ultimately have "k < l + 1" "l < ?k + 1" using D by (simp_all only: mult_less_cancel_right_pos)
    then have "l = k \<or> l = k + 1 \<and> 21 * hour_ns \<le> r" using closed day by (auto split: if_splits)
    moreover have "u < ?k * day_ns + 10 * hour_ns - ist_offset" using b(2) nx by simp
    ultimately show False using b(1) t u o' closed day by (auto split: if_splits simp: algebra_simps)
  qed
  ultimately show ?thesis by blast
qed

theorem next_window_is_next_witness:
  "\<not> window_open_at 0 \<and> next_window 0 - 0 \<le> 13 * hour_ns"
proof -
  have "\<not> window_open_at 0" by (simp add: window_open_at_def ist_hour_def ist_offset_def day_ns_def hour_ns_def)
  with next_window_is_next [OF this] show ?thesis by blast
qed

end
