(* ===== verification/Providers.thy ===== *)
theory Providers
  imports Compliance
begin

text \<open>
  \<^verbatim>\<open>domains/routing\<close> and the delivery adapters of \<^verbatim>\<open>domains/channels/{email,sms,whatsapp}\<close>: the
  tenant's provider records, the adapters built from them and what each adapter puts on the wire
  and reads from the answer. An adapter is its name
  and its send function; every send is one HTTP request of the world's log. The AWS SDK turns
  the SES input into such a request (\<open>e_ses_request\<close>) and its answer into a message id.
\<close>

text \<open>
  Every adapter's \<^verbatim>\<open>Send\<close> is one exchange: it builds a request or fails, sends it, and turns the
  answer, or the transport error, into a message id or an error.
\<close>

record 'm provider =
  p_name :: string
  p_request :: "'m \<Rightarrow> http_request res"
  p_reply :: "http_response res \<Rightarrow> string res"

definition p_send :: "'m provider \<Rightarrow> 'm \<Rightarrow> string res app" where
  "p_send p m = (case p_request p m of
     Inl e \<Rightarrow> ret (Inl e)
   | Inr rq \<Rightarrow> do { r \<leftarrow> http_do rq; ret (p_reply p r) })"

definition transport :: "string \<Rightarrow> (http_response \<Rightarrow> string res) \<Rightarrow> http_response res \<Rightarrow> string res" where
  "transport what rd r = (case r of Inl e \<Rightarrow> Inl (Wrap what e) | Inr rs \<Rightarrow> rd rs)"

section \<open>Routing records\<close>

record routing_record =
  rr_name :: string
  rr_config :: string
  rr_priority :: int

definition select_providers :: "db \<Rightarrow> string \<Rightarrow> string \<Rightarrow> provider_row list" where
  "select_providers d t ch = sort_key pv_priority
     (filter (\<lambda>r. pv_tenant r = t \<and> pv_channel r = ch \<and> pv_active r) (providers d))"

definition routing_Load :: "env \<Rightarrow> string \<Rightarrow> string \<Rightarrow> routing_record list res app" where
  "routing_Load E t ch = on_err (query (\<lambda>c d. select_providers d t ch))
     (\<lambda>e. ret (Inl (Wrap ''routing.Load'' e)))
     (\<lambda>rs. ret (Inr (map (\<lambda>r. \<lparr>rr_name = pv_provider r,
         rr_config = notify_decrypt E (pv_config r), rr_priority = pv_priority r\<rparr>) rs)))"

text \<open>\<^verbatim>\<open>BuildProviders\<close>: all records or an error that names the first bad one.\<close>

fun build_all :: "string \<Rightarrow> (routing_record \<Rightarrow> 'm provider res) \<Rightarrow> routing_record list \<Rightarrow>
    'm provider list res" where
  "build_all what f [] = Inr []"
| "build_all what f (r # rs) = (case f r of
     Inl e \<Rightarrow> Inl (Wrap (what @ '' routing: '' @ rr_name r) e)
   | Inr p \<Rightarrow> (case build_all what f rs of Inl e \<Rightarrow> Inl e | Inr ps \<Rightarrow> Inr (p # ps)))"

text \<open>The config of a record as a JSON object; \<^verbatim>\<open>null\<close> leaves every field empty.\<close>

definition config_obj :: "env \<Rightarrow> routing_record \<Rightarrow> gmap option" where
  "config_obj E r = (case e_parse E (rr_config r) of
     Some (GObj m) \<Rightarrow> Some m | Some GNil \<Rightarrow> Some [] | _ \<Rightarrow> None)"

definition reply_obj :: "http_response \<Rightarrow> gmap option" where
  "reply_obj rs = (case rs_json rs of Some (GObj m) \<Rightarrow> Some m | Some GNil \<Rightarrow> Some [] | _ \<Rightarrow> None)"

definition status_error :: "string \<Rightarrow> http_response \<Rightarrow> goerr" where
  "status_error what rs = Err (what @ '' '' @ Itoa (rs_status rs) @ '': '' @ rs_text rs)"

section \<open>Email\<close>

record email_message =
  em_from :: string
  em_from_name :: string
  em_to :: string
  em_subject :: string
  em_html :: string
  em_text :: string
  em_reply_to :: string
  em_tags :: "(string \<times> string) list"

definition from_field :: "email_message \<Rightarrow> string" where
  "from_field m = (if em_from_name m \<noteq> [] then em_from_name m @ '' <'' @ em_from m @ ''>'' else em_from m)"

definition resend_body :: "email_message \<Rightarrow> gval" where
  "resend_body m = GObj ([(''from'', GStr (from_field m)), (''html'', GStr (em_html m))]
     @ omit_str ''reply_to'' (em_reply_to m)
     @ [(''subject'', GStr (em_subject m))] @ omit_str ''text'' (em_text m)
     @ [(''to'', GArr [GStr (em_to m)])])"

definition read_resend :: "http_response \<Rightarrow> string res" where
  "read_resend rs = (if rs_status rs \<ge> 400 then Inl (status_error ''resend'' rs)
     else case Option.bind (reply_obj rs) (\<lambda>m. jstr m ''id'') of
       None \<Rightarrow> Inl (Wrap ''parse resend response'' (Err ''json'')) | Some i \<Rightarrow> Inr i)"

definition post_json :: "env \<Rightarrow> string \<Rightarrow> (string \<times> string) list \<Rightarrow> gval \<Rightarrow> http_request" where
  "post_json E url hs body = \<lparr>rq_method = ''POST'', rq_url = url, rq_headers = hs, rq_json = body,
     rq_body = e_marshal E body\<rparr>"

definition resend_request :: "env \<Rightarrow> string \<Rightarrow> email_message \<Rightarrow> http_request res" where
  "resend_request E apiKey m = Inr (post_json E ''https://api.resend.com/emails''
     [(''Authorization'', ''Bearer '' @ apiKey), (''Content-Type'', ''application/json'')]
     (resend_body m))"

definition NewResend :: "env \<Rightarrow> string \<Rightarrow> email_message provider" where
  "NewResend E apiKey = \<lparr>p_name = ''resend'', p_request = resend_request E apiKey,
     p_reply = transport ''resend request'' read_resend\<rparr>"

definition ses_input :: "email_message \<Rightarrow> gval" where
  "ses_input m = GObj [(''FromEmailAddress'', GStr (from_field m)),
     (''ToAddresses'', GArr [GStr (em_to m)]), (''Subject'', GStr (em_subject m)),
     (''Html'', GStr (em_html m)),
     (''Text'', if em_text m \<noteq> [] then GStr (em_text m) else GNil),
     (''ReplyToAddresses'', if em_reply_to m \<noteq> [] then GArr [GStr (em_reply_to m)] else GNil)]"

definition ses_request :: "env \<Rightarrow> string \<times> string \<times> string \<Rightarrow> email_message \<Rightarrow> http_request res" where
  "ses_request E cfg m = Inr (e_ses_request E cfg (ses_input m))"

definition read_ses :: "env \<Rightarrow> http_response \<Rightarrow> string res" where
  "read_ses E rs = (case e_ses_reply E rs of Inl e \<Rightarrow> Inl (Wrap ''ses send'' e) | Inr i \<Rightarrow> Inr i)"

definition NewSES :: "env \<Rightarrow> string \<Rightarrow> string \<Rightarrow> string \<Rightarrow> email_message provider res" where
  "NewSES E region ak sk = (if e_ses_config E region ak sk
     then Inr \<lparr>p_name = ''ses'', p_request = ses_request E (region, ak, sk),
       p_reply = transport ''ses send'' (read_ses E)\<rparr>
     else Inl (Wrap ''ses config'' (Err ''aws config'')))"

definition email_buildProvider :: "env \<Rightarrow> routing_record \<Rightarrow> email_message provider res" where
  "email_buildProvider E r =
     (if rr_name r = ''ses'' then
        (case config_obj E r of None \<Rightarrow> Inl (Wrap ''decode ses config'' (Err ''json''))
         | Some m \<Rightarrow> (case (jstr m ''region'', jstr m ''access_key'', jstr m ''secret_key'') of
             (Some rg, Some ak, Some sk) \<Rightarrow> NewSES E rg ak sk
           | _ \<Rightarrow> Inl (Wrap ''decode ses config'' (Err ''json''))))
      else if rr_name r = ''resend'' then
        (case Option.bind (config_obj E r) (\<lambda>m. jstr m ''api_key'') of
           None \<Rightarrow> Inl (Wrap ''decode resend config'' (Err ''json''))
         | Some k \<Rightarrow> Inr (NewResend E k))
      else Inl (Err (''unknown email provider: '' @ quoted (rr_name r))))"

definition email_BuildProviders :: "env \<Rightarrow> routing_record list \<Rightarrow> email_message provider list res" where
  "email_BuildProviders E = build_all ''email'' (email_buildProvider E)"

section \<open>SMS\<close>

record sms_message =
  sm_to :: string
  sm_body :: string
  sm_sender :: string
  sm_dlt :: string

definition read_msg91 :: "http_response \<Rightarrow> string res" where
  "read_msg91 rs = (if rs_status rs \<ge> 400 then Inl (status_error ''msg91'' rs)
     else case Option.bind (reply_obj rs) (\<lambda>m. case (jstr m ''type'', jstr m ''message'') of
         (Some t, Some i) \<Rightarrow> Some (t, i) | _ \<Rightarrow> None) of
       None \<Rightarrow> Inl (Wrap ''parse msg91 response'' (Err ''json''))
     | Some (t, i) \<Rightarrow> if t = ''error'' then Inl (Err (''msg91 error: '' @ i)) else Inr i)"

definition msg91_request :: "env \<Rightarrow> string \<Rightarrow> sms_message \<Rightarrow> http_request res" where
  "msg91_request E apiKey m = Inr (post_json E ''https://api.msg91.com/api/v5/flow/''
     [(''Content-Type'', ''application/json''), (''Authkey'', apiKey)]
     (GObj [(''recipients'', GArr [GObj [(''mobiles'', GStr (sm_to m))]]),
            (''sender'', GStr (sm_sender m)), (''short_url'', GStr ''0''),
            (''template_id'', GStr (sm_dlt m))]))"

definition NewMSG91 :: "env \<Rightarrow> string \<Rightarrow> sms_message provider" where
  "NewMSG91 E apiKey = \<lparr>p_name = ''msg91'', p_request = msg91_request E apiKey,
     p_reply = transport ''msg91 send'' read_msg91\<rparr>"

text \<open>\<^verbatim>\<open>url.PathEscape\<close>: every byte but the unreserved ones and \<^verbatim>\<open>$&+:=@\<close> as \<^verbatim>\<open>%XX\<close>.\<close>

definition path_safe :: "char \<Rightarrow> bool" where
  "path_safe c \<longleftrightarrow> (let n = ccode c in 48 \<le> n \<and> n \<le> 57 \<or> 65 \<le> n \<and> n \<le> 90 \<or> 97 \<le> n \<and> n \<le> 122)
     \<or> c \<in> set ''-_.~$&+:=@''"

definition upper_hex :: "nat \<Rightarrow> char" where
  "upper_hex n = ''0123456789ABCDEF'' ! n"

definition PathEscape :: "string \<Rightarrow> string" where
  "PathEscape s = concat (map (\<lambda>c. if path_safe c then [c]
     else [CHR ''%'', upper_hex (ccode c div 16), upper_hex (ccode c mod 16)]) s)"

definition twofactor_url :: "string \<Rightarrow> sms_message \<Rightarrow> string" where
  "twofactor_url apiKey m = ''https://2factor.in/API/V1/'' @ apiKey @ ''/SMS/'' @ PathEscape (sm_to m)
     @ ''/'' @ PathEscape (sm_body m) @ ''/'' @ PathEscape (sm_sender m)"

definition read_twofactor :: "http_response \<Rightarrow> string res" where
  "read_twofactor rs = (if rs_status rs \<ge> 400 then Inl (status_error ''2factor'' rs)
     else case Option.bind (reply_obj rs) (\<lambda>m. case (jstr m ''Status'', jstr m ''Details'') of
         (Some t, Some i) \<Rightarrow> Some (t, i) | _ \<Rightarrow> None) of
       None \<Rightarrow> Inl (Wrap ''parse 2factor response'' (Err ''json''))
     | Some (t, i) \<Rightarrow> if t \<noteq> ''Success'' then Inl (Err (''2factor error: '' @ i)) else Inr i)"

definition twofactor_request :: "env \<Rightarrow> string \<Rightarrow> sms_message \<Rightarrow> http_request res" where
  "twofactor_request E apiKey m = (let url = twofactor_url apiKey m in
     if \<not> e_url_ok E url then Inl (Wrap ''build 2factor request'' (Err ''url''))
     else Inr \<lparr>rq_method = ''GET'', rq_url = url, rq_headers = [], rq_json = GNil, rq_body = []\<rparr>)"

definition NewTwoFactor :: "env \<Rightarrow> string \<Rightarrow> sms_message provider" where
  "NewTwoFactor E apiKey = \<lparr>p_name = ''2factor'', p_request = twofactor_request E apiKey,
     p_reply = transport ''2factor send'' read_twofactor\<rparr>"

definition sms_buildProvider :: "env \<Rightarrow> routing_record \<Rightarrow> sms_message provider res" where
  "sms_buildProvider E r =
     (if rr_name r = ''msg91'' then
        (case Option.bind (config_obj E r) (\<lambda>m. jstr m ''api_key'') of
           None \<Rightarrow> Inl (Wrap ''decode msg91 config'' (Err ''json''))
         | Some k \<Rightarrow> Inr (NewMSG91 E k))
      else if rr_name r = ''2factor'' then
        (case Option.bind (config_obj E r) (\<lambda>m. jstr m ''api_key'') of
           None \<Rightarrow> Inl (Wrap ''decode 2factor config'' (Err ''json''))
         | Some k \<Rightarrow> Inr (NewTwoFactor E k))
      else Inl (Err (''unknown sms provider: '' @ quoted (rr_name r))))"

definition sms_BuildProviders :: "env \<Rightarrow> routing_record list \<Rightarrow> sms_message provider list res" where
  "sms_BuildProviders E = build_all ''sms'' (sms_buildProvider E)"

section \<open>WhatsApp\<close>

record wa_message =
  wm_to :: string
  wm_template :: string
  wm_language :: string
  wm_category :: string
  wm_components :: "gval list"

text \<open>The first message's id; an empty list is an error made from a nil error.\<close>

fun first_id :: "gval \<Rightarrow> string option option" where
  "first_id GNil = Some None"
| "first_id (GArr []) = Some None"
| "first_id (GArr (GObj m # _)) = (case jstr m ''id'' of None \<Rightarrow> None | Some i \<Rightarrow> Some (Some i))"
| "first_id (GArr (GNil # _)) = Some (Some [])"
| "first_id _ = None"

definition read_meta :: "http_response \<Rightarrow> string res" where
  "read_meta rs = (if rs_status rs \<ge> 400 then Inl (status_error ''meta wa'' rs)
     else case Option.bind (reply_obj rs) (\<lambda>m. first_id (obj_get m ''messages'')) of
       None \<Rightarrow> Inl (Wrap ''parse meta wa response'' (Err ''json''))
     | Some None \<Rightarrow> Inl (WrapNil ''parse meta wa response'')
     | Some (Some i) \<Rightarrow> Inr i)"

definition meta_body :: "wa_message \<Rightarrow> gval" where
  "meta_body m = GObj [(''messaging_product'', GStr ''whatsapp''),
     (''template'', GObj [(''components'', if wm_components m = [] then GNil else GArr (wm_components m)),
        (''language'', GObj [(''code'', GStr (wm_language m))]), (''name'', GStr (wm_template m))]),
     (''to'', GStr (wm_to m)), (''type'', GStr ''template'')]"

definition meta_request :: "env \<Rightarrow> string \<Rightarrow> string \<Rightarrow> wa_message \<Rightarrow> http_request res" where
  "meta_request E token phoneID m = (let
       url = ''https://graph.facebook.com/v18.0/'' @ phoneID @ ''/messages'' in
     if \<not> e_url_ok E url then Inl (Wrap ''build meta wa request'' (Err ''url''))
     else Inr (post_json E url [(''Authorization'', ''Bearer '' @ token),
         (''Content-Type'', ''application/json'')] (meta_body m)))"

definition NewMeta :: "env \<Rightarrow> string \<Rightarrow> string \<Rightarrow> wa_message provider" where
  "NewMeta E token phoneID = \<lparr>p_name = ''meta'', p_request = meta_request E token phoneID,
     p_reply = transport ''meta wa send'' read_meta\<rparr>"

definition wa_buildProvider :: "env \<Rightarrow> routing_record \<Rightarrow> wa_message provider res" where
  "wa_buildProvider E r =
     (if rr_name r = ''meta'' then
        (case Option.bind (config_obj E r) (\<lambda>m. case (jstr m ''token'', jstr m ''phone_id'') of
            (Some t, Some p) \<Rightarrow> Some (t, p) | _ \<Rightarrow> None) of
           None \<Rightarrow> Inl (Wrap ''decode meta config'' (Err ''json''))
         | Some (t, p) \<Rightarrow> Inr (NewMeta E t p))
      else Inl (Err (''unknown whatsapp provider: '' @ quoted (rr_name r))))"

definition wa_BuildProviders :: "env \<Rightarrow> routing_record list \<Rightarrow> wa_message provider list res" where
  "wa_BuildProviders E = build_all ''whatsapp'' (wa_buildProvider E)"

section \<open>Trying the providers in turn\<close>

text \<open>
  The loop of the three workers' \<^verbatim>\<open>sendWithFallback\<close>: the first success, else the last
  provider's name with the last error; with no provider at all both the result and the error
  are nil.
\<close>

type_synonym send_outcome = "string option \<times> string \<times> goerr option"

fun try_providers :: "'m provider list \<Rightarrow> 'm \<Rightarrow> string \<Rightarrow> goerr option \<Rightarrow> send_outcome app" where
  "try_providers [] m name lastErr = ret (None, name, lastErr)"
| "try_providers (p # ps) m name lastErr = on_err (p_send p m)
     (\<lambda>e. try_providers ps m name (Some e))
     (\<lambda>i. ret (Some i, p_name p, None))"

definition last_name :: "'m provider list \<Rightarrow> string" where
  "last_name ps = (if ps = [] then [] else p_name (last ps))"

section \<open>Outcomes\<close>

lemma try_providers_outcome:
  "wp (try_providers ps m name le) (\<lambda>(res, n, e) w'.
     (res \<noteq> None \<longrightarrow> e = None \<and> n \<in> p_name ` set ps) \<and> (res = None \<longrightarrow> n = name) \<and>
     (res = None \<and> e = None \<longrightarrow> ps = [] \<and> le = None)) w"
proof (induction ps arbitrary: le w)
  case (Cons p ps)
  have *: "wp (try_providers ps m name (Some e)) (\<lambda>(res, n, e) w'.
     (res \<noteq> None \<longrightarrow> e = None \<and> n \<in> p_name ` set (p # ps)) \<and> (res = None \<longrightarrow> n = name) \<and>
     (res = None \<and> e = None \<longrightarrow> p # ps = [] \<and> le = None)) w1" for e w1
    by (rule wp_mono [OF Cons.IH]) auto
  show ?case
    unfolding try_providers.simps wp_on_err
  proof (rule wpI)
    fix r w1
    show "(case r of
        Inl e \<Rightarrow> wp (try_providers ps m name (Some e)) (\<lambda>(res, n, e) w'.
          (res \<noteq> None \<longrightarrow> e = None \<and> n \<in> p_name ` set (p # ps)) \<and> (res = None \<longrightarrow> n = name) \<and>
          (res = None \<and> e = None \<longrightarrow> p # ps = [] \<and> le = None))
      | Inr i \<Rightarrow> wp (ret (Some i, p_name p, None)) (\<lambda>(res, n, e) w'.
          (res \<noteq> None \<longrightarrow> e = None \<and> n \<in> p_name ` set (p # ps)) \<and> (res = None \<longrightarrow> n = name) \<and>
          (res = None \<and> e = None \<longrightarrow> p # ps = [] \<and> le = None))) w1"
      using * [of _ w1] by (cases r) simp_all
  qed
qed simp

end
