(* ===== verification/Workers.thy ===== *)
theory Workers
  imports Providers Engine
begin

text \<open>
  What the channel workers of \<^verbatim>\<open>domains/channels\<close> have in common: a job is decoded, run in its
  tenant's transaction, and acknowledged, retried or dead-lettered; and the contract of a channel
  that honours the suppression list.
\<close>

section \<open>Jobs\<close>

fun decode_job :: "gval \<Rightarrow> channel_job option" where
  "decode_job GNil = Some \<lparr>jb_tenant = [], jb_notification = [], jb_subscriber = [], jb_channel = [],
     jb_template = [], jb_payload = []\<rparr>"
| "decode_job (GObj m) =
     (case (jstr m ''tenant_id'', jstr m ''notification_id'', jstr m ''subscriber_id'') of
        (Some t, Some n, Some s) \<Rightarrow>
          (case (jstr m ''channel'', jstr m ''template_id'', jmap m ''payload'') of
             (Some ch, Some tp, Some p) \<Rightarrow> Some \<lparr>jb_tenant = t, jb_notification = n,
               jb_subscriber = s, jb_channel = ch, jb_template = tp, jb_payload = p\<rparr>
           | _ \<Rightarrow> None)
      | _ \<Rightarrow> None)"
| "decode_job _ = None"

text \<open>\<^verbatim>\<open>UPDATE notifications SET ... WHERE id = $1\<close>; the new status has to pass the check.\<close>

definition set_notification :: "string \<Rightarrow> (notification_row \<Rightarrow> notification_row) \<Rightarrow> db \<Rightarrow> db option" where
  "set_notification nid f d = (let rs = update_where (\<lambda>r. nt_id r = nid) f (notifications d) in
     if list_all (\<lambda>r. nt_status r \<in> set notification_statuses) (filter (\<lambda>r. nt_id r = nid) rs)
     then Some (d\<lparr>notifications := rs\<rparr>) else None)"

definition mark_suppressed :: "string \<Rightarrow> unit res app" where
  "mark_suppressed nid = exec (\<lambda>c d. set_notification nid (\<lambda>r. r\<lparr>nt_status := ''suppressed''\<rparr>) d)"

definition mark_sent :: "string \<Rightarrow> string \<Rightarrow> string \<Rightarrow> unit res app" where
  "mark_sent nid prov mid = exec (\<lambda>c d. set_notification nid
     (\<lambda>r. r\<lparr>nt_status := ''sent'', nt_provider := Some prov, nt_provider_msg := Some mid\<rparr>) d)"

definition delivery_msg :: "channel_job \<Rightarrow> string \<Rightarrow> string \<Rightarrow> gval" where
  "delivery_msg j et prov = GObj [(''event_type'', GStr et),
     (''notification_id'', GStr (jb_notification j)), (''provider'', GStr prov),
     (''tenant_id'', GStr (jb_tenant j))]"

definition select_subscriber :: "sctx \<Rightarrow> db \<Rightarrow> channel_job \<Rightarrow> subscriber_row option" where
  "select_subscriber c d j = find (\<lambda>r. sees c (sb_tenant r) \<and> sb_id r = jb_subscriber j
     \<and> sb_tenant r = jb_tenant j) (subscribers d)"

definition nil_deref :: goerr where
  "nil_deref = Panic ''runtime error: invalid memory address or nil pointer dereference''"

text \<open>
  One iteration of a worker's \<^verbatim>\<open>Run\<close>: \<open>None\<close> is a panic, which ends the process without any
  answer to the server.
\<close>

definition worker_consume :: "nat \<Rightarrow> (js_msg \<Rightarrow> 'r res app) \<Rightarrow> js_msg \<Rightarrow> disposition option app" where
  "worker_consume maxd h msg = on_err (h msg)
     (\<lambda>e. if is_panic e then ret None
          else do { x \<leftarrow> HandleFailure msg maxd (Some e); ret (Some x) })
     (\<lambda>_. ret (Some Ack))"

text \<open>The tenant's own providers if there are any and all build, else the given static ones.\<close>

definition pick_providers :: "env \<Rightarrow> (routing_record list \<Rightarrow> 'm provider list res) \<Rightarrow> string \<Rightarrow>
    string \<Rightarrow> 'm provider list \<Rightarrow> 'm provider list app" where
  "pick_providers E build t ch static = on_err (routing_Load E t ch)
     (\<lambda>_. ret static)
     (\<lambda>records. ret (case build records of
        Inl _ \<Rightarrow> static | Inr ps \<Rightarrow> if ps = [] then static else ps))"

definition static_list :: "'m provider option \<Rightarrow> 'm provider option \<Rightarrow> 'm provider list" where
  "static_list primary fallback = (case primary of None \<Rightarrow> []
     | Some p \<Rightarrow> (case fallback of None \<Rightarrow> [p] | Some f \<Rightarrow> [p, f]))"

text \<open>
  The end of a pipeline, after the providers were tried: the delivery event is published whatever
  the outcome, an error is returned, and a success marks the notification. With no provider at
  all there is neither a result nor an error, and reading the result's message id panics.
\<close>

definition settle_send :: "(string \<Rightarrow> string \<Rightarrow> goerr option \<Rightarrow> unit app) \<Rightarrow> channel_job \<Rightarrow>
    send_outcome \<Rightarrow> unit res app" where
  "settle_send rec_delivery j res = (case res of (result, name, sendErr) \<Rightarrow> do {
     rec_delivery (if sendErr = None then ''sent'' else ''failed'') name sendErr;
     case sendErr of Some e \<Rightarrow> ret (Inl e)
     | None \<Rightarrow> (case result of None \<Rightarrow> ret (Inl nil_deref)
       | Some mid \<Rightarrow> mark_sent (jb_notification j) name mid) })"

section \<open>Round trip of a job\<close>

lemma decode_encode_job: "decode_job (encode_job j) = Some j"
  by (cases j) (simp add: encode_job_def json_get_defs)

section \<open>Sending, without a world\<close>

text \<open>
  What trying the providers does, as a function of the answers that wait on the wire: the requests
  sent and the outcome. \<open>n\<close> is the number of requests already sent.
\<close>

definition answer :: "http_response option \<Rightarrow> http_response res" where
  "answer r = (case r of None \<Rightarrow> Inl (Err ''http request failed'') | Some x \<Rightarrow> Inr x)"

fun send_plan :: "'m provider list \<Rightarrow> 'm \<Rightarrow> (nat \<Rightarrow> http_response option) \<Rightarrow> nat \<Rightarrow> string \<Rightarrow>
    goerr option \<Rightarrow> http_request list \<times> send_outcome" where
  "send_plan [] m resp n name lastErr = ([], None, name, lastErr)"
| "send_plan (p # ps) m resp n name lastErr = (case p_request p m of
     Inl e \<Rightarrow> send_plan ps m resp n name (Some e)
   | Inr rq \<Rightarrow> (case p_reply p (answer (resp n)) of
       Inl e \<Rightarrow> apfst (Cons rq) (send_plan ps m resp (Suc n) name (Some e))
     | Inr i \<Rightarrow> ([rq], Some i, p_name p, None)))"

lemma run_on_err: "run_state (on_err m h k) w = (case run_state m w of
    (Inl e, w') \<Rightarrow> run_state (h e) w' | (Inr x, w') \<Rightarrow> run_state (k x) w')"
  by (simp add: on_err_def State_Monad.bind_def split: prod.splits sum.splits)

lemma run_p_send: "run_state (p_send p m) w = (case p_request p m of
    Inl e \<Rightarrow> (Inl e, w)
  | Inr rq \<Rightarrow> (p_reply p (answer (http_resp w (length (http_log w)))), w\<lparr>http_log := http_log w @ [rq]\<rparr>))"
  by (auto simp: p_send_def answer_def run_defs split: sum.splits option.splits)

lemma run_try_providers:
  "run_state (try_providers ps m name le) w
   = (case send_plan ps m (http_resp w) (length (http_log w)) name le of
       (rqs, out) \<Rightarrow> (out, w\<lparr>http_log := http_log w @ rqs\<rparr>))"
proof (induction ps arbitrary: le w)
  case (Cons p ps)
  show ?case
  proof (cases "p_request p m")
    case (Inl e)
    then show ?thesis by (simp add: run_on_err run_p_send Cons.IH)
  next
    case (Inr rq)
    then show ?thesis
      by (cases "p_reply p (answer (http_resp w (length (http_log w))))")
        (simp_all add: run_on_err run_p_send Cons.IH apfst_def split: prod.splits)
  qed
qed simp

definition picked :: "env \<Rightarrow> (routing_record list \<Rightarrow> 'm provider list res) \<Rightarrow> db \<Rightarrow> string \<Rightarrow>
    string \<Rightarrow> 'm provider list \<Rightarrow> 'm provider list" where
  "picked E build d t ch static = (case build (map (\<lambda>r. \<lparr>rr_name = pv_provider r,
       rr_config = notify_decrypt E (pv_config r), rr_priority = pv_priority r\<rparr>)
       (select_providers d t ch)) of
     Inl _ \<Rightarrow> static | Inr ps \<Rightarrow> if ps = [] then static else ps)"

text \<open>What a statement sees depends on the tenant setting only.\<close>

lemma sees_guc: "guc c = guc c' \<Longrightarrow> sees c = sees c'"
  by (simp add: sees_def fun_eq_iff)

lemma select_subscriber_guc:
  "guc c = guc c' \<Longrightarrow> select_subscriber c d j = select_subscriber c' d j"
  by (simp add: select_subscriber_def sees_guc [of c c'])

lemma suppressed_in_guc: "guc c = guc c' \<Longrightarrow> suppressed_in c d t ch h = suppressed_in c' d t ch h"
  by (simp add: suppressed_in_def sees_guc [of c c'])

definition tctx :: "string \<Rightarrow> sctx" where
  "tctx t = \<lparr>guc = t, db_now = 0, new_id = []\<rparr>"

lemma guc_tctx [simp]: "guc (tctx t) = t"
  by (simp add: tctx_def)

section \<open>Pipelines without failures\<close>

text \<open>\<open>healthy\<close>: no failure is due in the database or on the bus, nor has one aborted the transaction.\<close>

definition healthy :: "world \<Rightarrow> bool" where
  "healthy w \<longleftrightarrow> db_faults w = [] \<and> bus_faults w = [] \<and> \<not> broken w"

lemma wp_bind_fun [simp]: "wp (m \<bind> k) Q = wp m (\<lambda>a. wp (k a) Q)"
  by (rule ext) simp

lemma wp_and_then_fun:
  "wp (and_then m k) Q = wp m (\<lambda>r. case r of Inl e \<Rightarrow> Q (Inl e) | Inr x \<Rightarrow> wp (k x) Q)"
  by (rule ext) simp

lemma healthy_quiet: "quiet s s' \<Longrightarrow> tx s' = tx s \<Longrightarrow> healthy s \<Longrightarrow> healthy s'"
  using broken_tx [of s' s] by (simp add: healthy_def quiet_def calm_def)

lemma healthy_update [simp]: "healthy (s\<lparr>db := d\<rparr>) = healthy s" "healthy (s\<lparr>bus := b\<rparr>) = healthy s"
  "healthy (s\<lparr>http_log := l\<rparr>) = healthy s"
  by (simp_all add: healthy_def)

lemma wp_query_healthy:
  assumes "healthy s"
    and "\<And>s' c. quiet s s' \<Longrightarrow> healthy s' \<Longrightarrow> guc c = cur_guc s \<Longrightarrow> Q (Inr (f c (db s))) s'"
  shows "wp (query f) Q s"
proof (rule wp_query_strong, goal_cases)
  case 1
  with assms(1) show ?case by (simp add: healthy_def)
next
  case (2 s' c)
  then show ?case by (intro assms(2) healthy_quiet [OF _ _ assms(1)])
qed

lemma wp_query_row_healthy:
  assumes "healthy s" and "\<And>c. guc c = cur_guc s \<Longrightarrow> f c (db s) = Some x"
    and "\<And>s'. quiet s s' \<Longrightarrow> healthy s' \<Longrightarrow> Q (Inr x) s'"
  shows "wp (query_row f) Q s"
  unfolding query_row_def wp_and_then
  by (rule wp_query_healthy [OF assms(1)]) (simp add: wp_cases assms(2,3))

lemma wp_exec_healthy:
  assumes "healthy s" and "\<And>c. guc c = cur_guc s \<Longrightarrow> f c (db s) = Some d"
    and "\<And>s'. quiet s s' \<Longrightarrow> healthy s' \<Longrightarrow> Q (Inr ()) (s'\<lparr>db := d\<rparr>)"
  shows "wp (exec f) Q s"
proof (rule wp_exec_strong, goal_cases)
  case 1
  with assms(1,2) show ?case by (auto simp: healthy_def)
next
  case (2 s' c d')
  then show ?case using assms(2) assms(3) [OF 2(1) healthy_quiet [OF 2(1,4) assms(1)]] by simp
qed

lemma wp_publish_healthy:
  assumes "healthy s"
    and "\<And>s'. quiet s s' \<Longrightarrow> healthy s' \<Longrightarrow> Q (Inr ()) (s'\<lparr>bus := bus s @ [(subj, msg)]\<rparr>)"
  shows "wp (js_publish subj msg) Q s"
proof (rule wp_js_publish, goal_cases)
  case 1
  with assms(1) show ?case by (simp add: healthy_def)
next
  case (2 s')
  then show ?case by (intro assms(2) healthy_quiet [OF _ _ assms(1)])
qed

text \<open>\<open>running t w s\<close>: in a transaction of tenant \<open>t\<close> that began at \<open>w\<close> and has changed nothing yet.\<close>

definition running :: "string \<Rightarrow> world \<Rightarrow> world \<Rightarrow> bool" where
  "running t w s \<longleftrightarrow> healthy s \<and> in_tx t (db w) s \<and> db s = db w \<and> effects s = effects w"

lemma running_quiet: "running t w s \<Longrightarrow> quiet s s' \<Longrightarrow> healthy s' \<Longrightarrow> running t w s'"
  using quiet_in_tx [of s s' t "db w"] by (simp add: running_def quiet_def)

lemma runningD:
  assumes "running t w s"
  shows "healthy s" "in_tx t (db w) s" "cur_guc s = t" "db s = db w" "effects s = effects w"
    "http_log s = http_log w" "http_resp s = http_resp w" "bus s = bus w"
    "clock s = clock w"
  using assms by (auto simp: running_def in_tx_guc effects_def)

lemma wp_running_query:
  assumes "running t w s"
    and "\<And>s' c. running t w s' \<Longrightarrow> guc c = t \<Longrightarrow> Q (Inr (f c (db w))) s'"
  shows "wp (query f) Q s"
  by (rule wp_query_healthy [OF runningD(1) [OF assms(1)]])
    (use assms(2) runningD(3,4) [OF assms(1)] running_quiet [OF assms(1)] in auto)

lemma wp_running_query_row:
  assumes "running t w s" and "\<And>c. guc c = t \<Longrightarrow> f c (db w) = Some x"
    and "\<And>s'. running t w s' \<Longrightarrow> Q (Inr x) s'"
  shows "wp (query_row f) Q s"
  by (rule wp_query_row_healthy [OF runningD(1) [OF assms(1)], where x = x])
    (use assms(2,3) runningD(3,4) [OF assms(1)] running_quiet [OF assms(1)] in auto)

text \<open>\<open>at_end t w Q\<close>: when the transaction ends here, with this result, \<open>Q\<close> will hold.\<close>

definition at_end :: "string \<Rightarrow> world \<Rightarrow> ('r res \<Rightarrow> world \<Rightarrow> bool) \<Rightarrow> 'r res \<Rightarrow> world \<Rightarrow> bool" where
  "at_end t w Q r s \<longleftrightarrow> in_tx t (db w) s \<and> healthy s \<and> (case r of
     Inl e \<Rightarrow> Q (Inl e) (s\<lparr>db := db w, tx := None\<rparr>)
   | Inr x \<Rightarrow> (\<forall>s'. quiet s s' \<longrightarrow> Q (Inr x) (s'\<lparr>tx := None\<rparr>)))"

lemma wp_run_running:
  assumes "saved w = None" "db_faults w = []" "bus_faults w = []"
    and "\<And>s. running t w s \<Longrightarrow> wp fn (at_end t w Q) s"
  shows "wp (RunInTenant t fn) Q w"
proof (rule wp_RunInTenant [OF assms(1)], goal_cases)
  case 1
  with assms(2) show ?case by simp
next
  case (2 s1)
  then have "running t w s1" using assms(2,3) by (simp add: running_def healthy_def calm_def)
  from assms(4) [OF this] show ?case
    by (rule wp_mono) (auto simp: at_end_def healthy_def split: sum.splits)
qed

text \<open>The three shared stages of a pipeline: the gate, the choice of providers, the sends.\<close>

lemma wp_running_gate:
  assumes run: "running t w s" and sel: "\<And>c. guc c = t \<Longrightarrow> sel c (db w) = Some a"
    and a: "a \<noteq> []" "\<not> suppressed_in (tctx t) (db w) t ch (hashValue a)"
    and k: "\<And>s'. running t w s' \<Longrightarrow> wp (k a) Q s'"
  shows "wp (on_err (query_row sel) err (\<lambda>a. if a = [] then none
      else on_err (IsSuppressed t ch a) serr (\<lambda>b. if b then skip else k a))) Q s"
proof -
  have sup: "\<not> suppressed_in c (db w) t ch (hashValue a)" if "guc c = t" for c
    using a(2) suppressed_in_guc [of c "tctx t"] that by simp
  show ?thesis
    unfolding wp_on_err
  proof (rule wp_running_query_row [OF run, where x = a], goal_cases)
    case (1 c)
    then show ?case by (rule sel)
  next
    case (2 s')
    show ?case
      unfolding IsSuppressed_def Let_def sum.case wp_if wp_on_err if_not_P [OF a(1)]
      by (rule wp_running_query [OF 2]) (simp add: sup k)
  qed
qed

lemma wp_try_providers:
  assumes "send_plan ps m (http_resp s) (length (http_log s)) name le = (rqs, out)"
    and "Q out (s\<lparr>http_log := http_log s @ rqs\<rparr>)"
  shows "wp (try_providers ps m name le) Q s"
  using assms by (simp add: wp_def run_try_providers)

text \<open>
  What a job has done when its transaction is over: \<open>w\<close> is the world before it, \<open>r\<close> its result and
  \<open>w'\<close> the world after; the plan's requests were sent, one delivery event was published, and the
  notification is marked when a provider accepted the message. An error rolls back.
\<close>

definition marked_sent :: "string \<Rightarrow> string \<Rightarrow> string \<Rightarrow> db \<Rightarrow> db" where
  "marked_sent nid prov mid d = d\<lparr>notifications := update_where (\<lambda>r. nt_id r = nid)
     (\<lambda>r. r\<lparr>nt_status := ''sent'', nt_provider := Some prov, nt_provider_msg := Some mid\<rparr>)
     (notifications d)\<rparr>"

definition settled :: "(string \<Rightarrow> string \<Rightarrow> goerr option \<Rightarrow> string \<times> gval) \<Rightarrow> channel_job \<Rightarrow>
    http_request list \<times> send_outcome \<Rightarrow> world \<Rightarrow> unit res \<Rightarrow> world \<Rightarrow> bool" where
  "settled ev j plan w r w' \<longleftrightarrow> http_log w' = http_log w @ fst plan \<and>
     (case snd plan of
        (_, n, Some e) \<Rightarrow> r = Inl e \<and> db w' = db w \<and> bus w' = bus w @ [ev ''failed'' n (Some e)]
      | (None, n, None) \<Rightarrow> r = Inl nil_deref \<and> db w' = db w \<and> bus w' = bus w @ [ev ''sent'' n None]
      | (Some i, n, None) \<Rightarrow> r = Inr () \<and> db w' = marked_sent (jb_notification j) n i (db w)
          \<and> bus w' = bus w @ [ev ''sent'' n None])"

lemma filter_update_same:
  "(\<And>x. p x \<Longrightarrow> p (f x)) \<Longrightarrow> filter p (update_where p f xs) = map f (filter p xs)"
  by (induction xs) (simp_all add: update_where_def)

lemma set_notification_Some:
  assumes "\<And>r. nt_id (f r) = nt_id r" and "\<And>r. nt_status (f r) \<in> set notification_statuses"
  shows "set_notification nid f d
    = Some (d\<lparr>notifications := update_where (\<lambda>r. nt_id r = nid) f (notifications d)\<rparr>)"
  unfolding set_notification_def Let_def
  by (subst filter_update_same) (use assms in \<open>simp_all add: list_all_iff\<close>)

definition marked_suppressed :: "string \<Rightarrow> db \<Rightarrow> db" where
  "marked_suppressed nid d = d\<lparr>notifications := update_where (\<lambda>r. nt_id r = nid)
     (\<lambda>r. r\<lparr>nt_status := ''suppressed''\<rparr>) (notifications d)\<rparr>"

lemma set_notification_suppressed:
  "set_notification nid (\<lambda>r. r\<lparr>nt_status := ''suppressed''\<rparr>) d = Some (marked_suppressed nid d)"
  unfolding marked_suppressed_def by (rule set_notification_Some) (simp_all add: notification_statuses_def)

lemma wp_mark_suppressed:
  assumes "running t w s"
    and "\<And>s'. healthy s' \<Longrightarrow> in_tx t (db w) s' \<Longrightarrow> effects s' = effects w \<Longrightarrow>
      db s' = marked_suppressed nid (db w) \<Longrightarrow> Q (Inr ()) s'"
  shows "wp (mark_suppressed nid) Q s"
  unfolding mark_suppressed_def
proof (rule wp_exec_healthy [OF runningD(1) [OF assms(1)]], rule set_notification_suppressed, goal_cases)
  case (1 s')
  then have "in_tx t (db w) s'" using runningD(2) [OF assms(1)] by (simp add: quiet_in_tx)
  then show ?case
    using 1 runningD(4,5) [OF assms(1)] by (intro assms(2)) (simp_all add: quiet_def)
qed

lemma set_notification_sent:
  "set_notification nid (\<lambda>r. r\<lparr>nt_status := ''sent'', nt_provider := Some p, nt_provider_msg := Some i\<rparr>) d
     = Some (marked_sent nid p i d)"
  unfolding marked_sent_def by (rule set_notification_Some) (simp_all add: notification_statuses_def)

definition delivery_plan :: "env \<Rightarrow> (routing_record list \<Rightarrow> 'm provider list res) \<Rightarrow> string \<Rightarrow>
    'm provider list \<Rightarrow> string \<Rightarrow> 'm \<Rightarrow> world \<Rightarrow> http_request list \<times> send_outcome" where
  "delivery_plan E build ch static t m w = (let ps = picked E build (db w) t ch static in
     send_plan ps m (http_resp w) (length (http_log w)) (last_name ps) None)"

lemma wp_settle:
  assumes "healthy s" "in_tx (jb_tenant j) (db w) s" and db: "db s = db w" "bus s = bus w"
    and log: "http_log s = http_log w @ fst plan"
    and rec_d: "\<And>et n e. rec_d et n e
      = do { _ \<leftarrow> js_publish (fst (ev et n e)) (snd (ev et n e)); ret () }"
  shows "wp (settle_send rec_d j (snd plan)) (at_end (jb_tenant j) w (settled ev j plan w)) s"
proof -
  obtain res n e where out: "snd plan = (res, n, e)" by (cases "snd plan") auto
  let ?et = "if e = None then ''sent'' else ''failed''"
  show ?thesis
    unfolding settle_send_def out prod.case rec_d wp_bind wp_return_fun
  proof (rule wp_publish_healthy [OF assms(1)], goal_cases)
    case (1 s')
    let ?s = "s'\<lparr>bus := bus s @ [(fst (ev ?et n e), snd (ev ?et n e))]\<rparr>"
    have s: "healthy ?s" "in_tx (jb_tenant j) (db w) ?s" "db ?s = db w"
      "bus ?s = bus w @ [ev ?et n e]" "http_log ?s = http_log w @ fst plan"
      using 1 assms(2) db log by (simp_all add: quiet_in_tx quietD)
    consider (err) x where "e = Some x" | (nil) "e = None" "res = None"
      | (ok) i where "e = None" "res = Some i" by (cases e; cases res) auto
    then show ?case
    proof cases
      case ok
      show ?thesis
        unfolding mark_sent_def
        unfolding sum.case ok(1,2) option.case
        by (rule wp_exec_healthy [OF s(1) [unfolded ok(1)]], rule set_notification_sent)
          (use s ok out in \<open>auto simp: at_end_def settled_def quiet_in_tx quietD\<close>)
    qed (use s out in \<open>auto simp: at_end_def settled_def split: option.splits\<close>)
  qed
qed

lemma wp_deliver:
  assumes run: "running (jb_tenant j) w s" and rec_d: "\<And>et n e. rec_d et n e
      = do { _ \<leftarrow> js_publish (fst (ev et n e)) (snd (ev et n e)); ret () }"
    and Q: "\<And>r s'. at_end (jb_tenant j) w (settled ev j (delivery_plan E build ch static (jb_tenant j) m w) w) r s' \<Longrightarrow> Q r s'"
  shows "wp (pick_providers E build (jb_tenant j) ch static)
    (\<lambda>ps. wp (try_providers ps m (last_name ps) None) (\<lambda>out. wp (settle_send rec_d j out) Q)) s"
  unfolding pick_providers_def routing_Load_def wp_on_err wp_return_fun
proof (rule wp_running_query [OF run], goal_cases)
  case (1 s' c)
  let ?ps = "picked E build (db w) (jb_tenant j) ch static"
  let ?plan = "delivery_plan E build ch static (jb_tenant j) m w"
  note s' = runningD [OF 1(1)]
  have "send_plan ?ps m (http_resp s') (length (http_log s')) (last_name ?ps) None = (fst ?plan, snd ?plan)"
    by (simp add: delivery_plan_def Let_def s')
  then have "wp (try_providers ?ps m (last_name ?ps) None) (\<lambda>out. wp (settle_send rec_d j out) Q) s'"
    by (rule wp_try_providers) (intro wp_mono [OF wp_settle [OF _ _ _ _ _ rec_d]] Q,
        simp_all add: s')
  then show ?case by (simp add: picked_def)
qed

section \<open>Sample data\<close>

text \<open>An environment whose decryption and rendering leave everything as it is.\<close>

definition sample_env :: env where
  "sample_env = \<lparr>e_key = ''k'', e_decrypt = (\<lambda>x _. x), e_render = (\<lambda>t _. Inr t),
     e_regex = (\<lambda>r. Some (\<lambda>b. b = r)), e_parse = (\<lambda>_. None), e_marshal = (\<lambda>_. []),
     e_url_ok = (\<lambda>_. True), e_ses_config = (\<lambda>_ _ _. True),
     e_ses_request = (\<lambda>_ v. \<lparr>rq_method = ''POST'', rq_url = [], rq_headers = [], rq_json = v, rq_body = []\<rparr>),
     e_ses_reply = (\<lambda>_. Inr ''m1''), e_encrypt = (\<lambda>_ x _. x)\<rparr>"

definition sample_job :: channel_job where
  "sample_job = \<lparr>jb_tenant = ''t1'', jb_notification = ''n1'', jb_subscriber = ''s1'',
     jb_channel = ''email'', jb_template = ''tp1'', jb_payload = []\<rparr>"

definition sample_msg :: js_msg where
  "sample_msg = \<lparr>m_subject = ChannelSubject ''t1'' ''email'', m_text = [],
     m_json = Some (encode_job sample_job), m_delivered = Some 1\<rparr>"

definition channel_db :: db where
  "channel_db = sample_db\<lparr>templates := [\<lparr>tp_id = ''tp1'', tp_tenant = ''t1'', tp_name = ''hello'',
       tp_channel = ''email'', tp_locale = ''en'', tp_subject = Some ''Hi'', tp_body = ''Hello'',
       tp_metadata = GObj [], tp_active = True, tp_created = 0\<rparr>],
     notifications := [\<lparr>nt_id = ''n1'', nt_tenant = ''t1'', nt_run = None, nt_subscriber = ''s1'',
       nt_channel = ''email'', nt_template = Some ''tp1'', nt_status = ''queued'', nt_provider = None,
       nt_provider_msg = None, nt_content = GNil, nt_read = False, nt_created = 0\<rparr>]\<rparr>"

definition job_of_msg :: "js_msg \<Rightarrow> channel_job option" where
  "job_of_msg msg = Option.bind (m_json msg) decode_job"

lemma job_of_sample_msg: "job_of_msg sample_msg = Some sample_job"
  by (simp add: job_of_msg_def sample_msg_def decode_encode_job)

lemma sample_msg_delivered: "m_delivered sample_msg = Some 1"
  by (simp add: sample_msg_def)

text \<open>The subscriber's address \<open>a\<close> on the suppression list of channel \<open>ch\<close>.\<close>

definition suppressing :: "string \<Rightarrow> string \<Rightarrow> db \<Rightarrow> db" where
  "suppressing ch a d = d\<lparr>suppressions := [\<lparr>su_id = ''u1'', su_tenant = ''t1'', su_channel = ch,
     su_hash = hashValue a, su_reason = ''manual'', su_created = 0\<rparr>]\<rparr>"

definition ok_answer :: http_response where
  "ok_answer = \<lparr>rs_status = 200, rs_headers = [],
     rs_json = Some (GObj [(''id'', GStr ''m1''), (''message'', GStr ''m1''),
       (''messages'', GArr [GObj [(''id'', GStr ''m1'')]]), (''type'', GStr ''success'')]),
     rs_text = []\<rparr>"

lemmas channel_defs = sample_env_def sample_job_def channel_db_def suppressing_def
  ok_answer_def sample_defs saved_def tctx_def notify_decrypt_def select_subscriber_def sees_def

section \<open>The contract of a gated channel\<close>

text \<open>
  Only the notifications of the database change, or the job's transaction does not commit.
\<close>

definition notifs_only :: "db \<Rightarrow> db \<Rightarrow> bool" where
  "notifs_only d d' \<longleftrightarrow> (\<exists>ns. d' = d\<lparr>notifications := ns\<rparr>)"

lemma notifs_only_refl [simp]: "notifs_only d d"
  unfolding notifs_only_def by (rule exI [of _ "notifications d"]) simp

lemma notifs_only_trans: "notifs_only a b \<Longrightarrow> notifs_only b c \<Longrightarrow> notifs_only a c"
  by (auto simp: notifs_only_def)

lemma notifs_only_set: "set_notification nid f d = Some d' \<Longrightarrow> notifs_only d d'"
  by (auto simp: set_notification_def notifs_only_def Let_def split: if_splits)

definition job_inv :: "string \<Rightarrow> db \<Rightarrow> world \<Rightarrow> bool" where
  "job_inv t d0 w \<longleftrightarrow> in_tx t d0 w \<and> notifs_only d0 (db w)"

lemma in_tx_http [simp]: "in_tx t d0 (w\<lparr>http_log := l\<rparr>) = in_tx t d0 w"
  by (simp add: in_tx_def)

lemma keeps_job_inv [keeps_rules]:
  "keeps (job_inv t d0) (query f)" "keeps (job_inv t d0) (query_row g)"
  "keeps (job_inv t d0) time_now" "keeps (job_inv t d0) (js_publish s m)"
  "keeps (job_inv t d0) (http_do rq)" "keeps (job_inv t d0) kv_fault"
  by (rule keeps_by_wp, rule wp_query wp_query_row wp_time_now wp_js_publish wp_http_do wp_kv_fault,
      auto simp: job_inv_def quiet_in_tx quietD(1))+

lemma keeps_job_inv_update [keeps_rules]:
  "keeps (job_inv t d0) (exec (\<lambda>c d. set_notification nid f d))"
  by (rule keeps_by_wp, rule wp_exec)
    (auto simp: job_inv_def quiet_in_tx quietD(1) dest: notifs_only_set intro: notifs_only_trans)

lemma keeps_job_inv_send [keeps_rules]: "keeps (job_inv t d0) (p_send p m)"
  unfolding p_send_def by (intro keeps_rules)

lemma keeps_job_inv_try [keeps_rules]: "keeps (job_inv t d0) (try_providers ps m name le)"
  by (induction ps arbitrary: le) (auto intro!: keeps_rules)

text \<open>
  How every pipeline starts: the address is fetched, then looked up in the suppression list. When
  there is none, or it is listed, the rest of the pipeline \<open>k\<close> is not reached.
\<close>

lemma select_subscriber_notifs_only:
  "notifs_only d d' \<Longrightarrow> select_subscriber c d' j = select_subscriber c d j"
  by (auto simp: notifs_only_def select_subscriber_def)

lemma wp_gate:
  assumes "in_tx t d0 w"
    and sel: "\<And>c. guc c = t \<Longrightarrow> sel c (db w) = A"
    and blocked: "A = None \<or> A = Some [] \<or> suppressed_in (tctx t) (db w) t ch (hashValue (the A))"
    and silent: "\<And>e x. keeps (same http_log x) (err e)" "\<And>x. keeps (same http_log x) none"
      "\<And>e x. keeps (same http_log x) (serr e)" "\<And>x. keeps (same http_log x) skip"
  shows "wp (on_err (query_row sel) err (\<lambda>a. if a = [] then none
      else on_err (IsSuppressed t ch a) serr (\<lambda>b. if b then skip else k a)))
    (\<lambda>_ w'. http_log w' = http_log w) w"
proof -
  note same = keeps_same [OF silent(1)] keeps_same [OF silent(2)] keeps_same [OF silent(3)]
    keeps_same [OF silent(4)]
  note t = in_tx_guc [OF assms(1)]
  show ?thesis
    unfolding wp_on_err
  proof (rule wp_query_row, goal_cases)
    case (1 s' e)
    then show ?case by (simp add: same quietD)
  next
    case (2 s' c a)
    then have a: "A = Some a" and s': "db s' = db w" "http_log s' = http_log w" "cur_guc s' = t"
      using sel t by (simp_all add: quietD)
    show ?case
    proof (cases "a = []")
      case True
      then show ?thesis by (simp add: same s')
    next
      case False
      then have sup: "suppressed_in c' (db w) t ch (hashValue a)" if "guc c' = t" for c'
        using blocked a suppressed_in_guc [of c' "tctx t"] that by simp
      show ?thesis
        using False unfolding sum.case wp_if
        by (auto simp: IsSuppressed_def Let_def quietD s' sup same intro!: wp_query)
    qed
  qed
qed

text \<open>
  \<open>address d j\<close> is the address the channel would send job \<open>j\<close> to, \<open>None\<close> when there is none
  (no such subscriber, or the subscriber was erased). A blocked job has none or a suppressed one.
\<close>

definition blocked_at :: "(db \<Rightarrow> channel_job \<Rightarrow> string option) \<Rightarrow> string \<Rightarrow> db \<Rightarrow> channel_job \<Rightarrow> bool" where
  "blocked_at address ch d j = (case address d j of None \<Rightarrow> True
     | Some a \<Rightarrow> suppressed_in (tctx (jb_tenant j)) d (jb_tenant j) ch (hashValue a))"

text \<open>
  \<open>held w w1\<close>: since \<open>w\<close> nothing was sent and only notifications changed. A stretch of deliveries
  that holds one by one holds as a whole.
\<close>

definition held :: "world \<Rightarrow> world \<Rightarrow> bool" where
  "held w w1 \<longleftrightarrow> saved w1 = None \<and> notifs_only (db w) (db w1) \<and> http_log w1 = http_log w"

lemma held_refl: "saved w = None \<Longrightarrow> held w w"
  by (simp add: held_def)

lemma wp_held_publish: "held w w1 \<Longrightarrow> wp (js_publish s m) (\<lambda>_. held w) w1"
  by (rule wp_js_publish) (simp_all add: held_def quietD saved_def)

lemma wp_held_failure: "held w w1 \<Longrightarrow> wp (HandleFailure msg n e) (\<lambda>_. held w) w1"
  unfolding HandleFailure_def Let_def wp_if wp_return_fun wp_on_err
  by (auto simp: wp_cases intro!: wp_mono [OF wp_held_publish] split: sum.splits)

lemma wp_held_consume:
  assumes "held w w1" and "\<And>w2. held w w2 \<Longrightarrow> wp (h msg) (\<lambda>_. held w) w2"
  shows "wp (worker_consume n h msg) (\<lambda>_. held w) w1"
  unfolding worker_consume_def wp_on_err
  by (rule wp_mono [OF assms(2) [OF assms(1)]])
    (auto simp: wp_cases intro!: wp_mono [OF wp_held_failure] split: sum.splits)

lemma wp_held_each:
  assumes "\<And>m w2. m \<in> set ms \<Longrightarrow> held w w2 \<Longrightarrow> wp (c m) (\<lambda>_. held w) w2" and "held w w1"
  shows "wp (for_each ms (\<lambda>m. do { _ \<leftarrow> c m; ret () })) (\<lambda>_. held w) w1"
  using assms
proof (induction ms arbitrary: w1)
  case (Cons m ms)
  then show ?case
    unfolding for_each.simps wp_bind wp_return_fun by (intro wp_mono [OF Cons.prems(1)]) auto
qed simp

locale gated_channel =
  fixes address :: "db \<Rightarrow> channel_job \<Rightarrow> string option" and ch :: string
    and process :: "channel_job \<Rightarrow> 'r res app"
  assumes gate: "in_tx (jb_tenant j) d0 w \<Longrightarrow> blocked_at address ch (db w) j \<Longrightarrow>
      wp (process j) (\<lambda>_ w'. http_log w' = http_log w) w"
    and frame: "keeps (job_inv (jb_tenant j) d0) (process j)"
    and reads: "notifs_only d d' \<Longrightarrow> address d' = address d"
begin

definition blocked_msg :: "db \<Rightarrow> js_msg \<Rightarrow> bool" where
  "blocked_msg d msg = (case job_of_msg msg of None \<Rightarrow> True | Some j \<Rightarrow> blocked_at address ch d j)"

lemma blocked_notifs_only:
  "notifs_only d d' \<Longrightarrow> blocked_at address ch d' j = blocked_at address ch d j"
  using reads [of d d']
  by (auto simp: blocked_at_def suppressed_in_def notifs_only_def split: option.splits)

lemma run_blocked:
  assumes "saved w = None" and "blocked_at address ch (db w) j"
  shows "wp (RunInTenant (jb_tenant j) (process j)) (\<lambda>_ w'. saved w' = None \<and>
     notifs_only (db w) (db w') \<and> http_log w' = http_log w) w"
proof (rule wp_RunInTenant [OF assms(1)], goal_cases)
  case (1 e s')
  then show ?case by (simp add: saved_def effects_def)
next
  case (2 s1)
  have "job_inv (jb_tenant j) (db w) s1" using 2 by (simp add: job_inv_def)
  then have "wp (process j) (\<lambda>_. job_inv (jb_tenant j) (db w)) s1" by (rule keeps_wp [OF frame])
  moreover have "wp (process j) (\<lambda>_ w'. http_log w' = http_log s1) s1"
    using 2 assms(2) by (intro gate [of _ "db w"]) simp_all
  ultimately have both: "wp (process j) (\<lambda>_ w'. job_inv (jb_tenant j) (db w) w' \<and>
      http_log w' = http_log s1) s1" by (rule wp_conj)
  have "http_log s1 = http_log w" using 2 by (simp add: effects_def)
  then show ?case
    by (intro wp_mono [OF both]) (auto simp: job_inv_def saved_def quietD split: sum.splits)
qed

lemma run_held:
  assumes "blocked_at address ch (db w) j" and "held w w1"
  shows "wp (RunInTenant (jb_tenant j) (process j)) (\<lambda>_. held w) w1"
proof -
  have "blocked_at address ch (db w1) j"
    using assms blocked_notifs_only [of "db w" "db w1" j] by (simp add: held_def)
  then show ?thesis
    using assms(2) by (intro wp_mono [OF run_blocked]) (auto simp: held_def intro: notifs_only_trans)
qed

text \<open>However many messages with blocked jobs a worker consumes, in whatever order, it sends nothing.\<close>

lemma blocked_messages_send_nothing:
  assumes "saved w = None" and "\<forall>msg \<in> set ms. blocked_msg (db w) msg"
    and h: "\<And>msg. h msg = (case job_of_msg msg of None \<Rightarrow> ret (Inl (e msg))
      | Some j \<Rightarrow> RunInTenant (jb_tenant j) (process j))"
  shows "wp (for_each ms (\<lambda>m. do { _ \<leftarrow> worker_consume n h m; ret () })) (\<lambda>_. held w) w"
proof (rule wp_held_each [OF _ held_refl [OF assms(1)]])
  fix msg w2
  assume m: "msg \<in> set ms" and w2: "held w w2"
  show "wp (worker_consume n h msg) (\<lambda>_. held w) w2"
  proof (rule wp_held_consume [OF w2])
    fix w3
    assume "held w w3"
    then show "wp (h msg) (\<lambda>_. held w) w3"
      using m assms(2) by (auto simp: h blocked_msg_def wp_cases intro: run_held split: option.splits)
  qed
qed

end

end
