(* ===== verification/Email_Worker.thy ===== *)
theory Email_Worker
  imports Workers
begin

text \<open>
  \<^verbatim>\<open>domains/channels/email/worker.go\<close>. \<open>P\<close> and \<open>F\<close> are the worker's static primary and fallback
  providers. Inside the job's transaction the address is decrypted, the suppression list is
  asked, the template is rendered, the providers are tried, a delivery event is published and the
  notification is marked.
\<close>

definition email_select :: "env \<Rightarrow> sctx \<Rightarrow> db \<Rightarrow> channel_job \<Rightarrow> string option" where
  "email_select E c d j = map_option
     (\<lambda>r. case sb_email r of None \<Rightarrow> [] | Some x \<Rightarrow> notify_decrypt E x) (select_subscriber c d j)"

definition email_event :: "channel_job \<Rightarrow> string \<Rightarrow> string \<Rightarrow> goerr option \<Rightarrow> string \<times> gval" where
  "email_event j et prov sendErr = (DeliverySubject (jb_tenant j), GObj
     [(''error'', case sendErr of None \<Rightarrow> GNil | Some e \<Rightarrow> GStr (err_str e)),
      (''event_type'', GStr et), (''notification_id'', GStr (jb_notification j)),
      (''provider'', GStr prov), (''tenant_id'', GStr (jb_tenant j))])"

definition email_recordDelivery :: "channel_job \<Rightarrow> string \<Rightarrow> string \<Rightarrow> goerr option \<Rightarrow> unit app" where
  "email_recordDelivery j et prov sendErr = do {
     _ \<leftarrow> js_publish (fst (email_event j et prov sendErr)) (snd (email_event j et prov sendErr));
     ret () }"

definition email_markSuppressed :: "channel_job \<Rightarrow> unit app" where
  "email_markSuppressed j = do {
     _ \<leftarrow> mark_suppressed (jb_notification j);
     email_recordDelivery j ''suppressed'' [] None }"

definition email_staticProviders :: "'m provider option \<Rightarrow> 'm provider option \<Rightarrow> 'm provider list" where
  "email_staticProviders P F = static_list P F"

definition email_sendWithFallback :: "env \<Rightarrow> email_message provider option \<Rightarrow>
    email_message provider option \<Rightarrow> email_message \<Rightarrow> string \<Rightarrow> send_outcome app" where
  "email_sendWithFallback E P F m t = do {
     ps \<leftarrow> pick_providers E (email_BuildProviders E) t ''email'' (email_staticProviders P F);
     try_providers ps m (last_name ps) None }"

definition email_msg :: "channel_job \<Rightarrow> string \<Rightarrow> rendered \<Rightarrow> email_message" where
  "email_msg j to r = \<lparr>em_from = ''noreply@qeet.in'', em_from_name = ''Qeet Notify'', em_to = to,
     em_subject = rd_subject r, em_html = rd_body r, em_text = [], em_reply_to = [],
     em_tags = [(''notification_id'', jb_notification j), (''tenant_id'', jb_tenant j)]\<rparr>"

definition email_handleJob :: "env \<Rightarrow> email_message provider option \<Rightarrow>
    email_message provider option \<Rightarrow> channel_job \<Rightarrow> unit res app" where
  "email_handleJob E P F j =
     on_err (query_row (\<lambda>c d. email_select E c d j))
       (\<lambda>e. ret (Inl (Wrap ''fetch subscriber email'' e)))
     (\<lambda>to. if to = [] then ret (Inl (WrapNil ''fetch subscriber email'')) else
     on_err (IsSuppressed (jb_tenant j) ''email'' to)
       (\<lambda>e. ret (Inl (Wrap ''suppression check'' e)))
     (\<lambda>suppressed. if suppressed then do { email_markSuppressed j; ret (Inr ()) } else
     and_then (RenderEmail E (jb_tenant j) (jb_template j) (jb_payload j)) (\<lambda>rendered. do {
       out \<leftarrow> email_sendWithFallback E P F (email_msg j to rendered) (jb_tenant j);
       settle_send (email_recordDelivery j) j out })))"

definition email_handle :: "env \<Rightarrow> email_message provider option \<Rightarrow>
    email_message provider option \<Rightarrow> js_msg \<Rightarrow> unit res app" where
  "email_handle E P F msg = (case job_of_msg msg of
     None \<Rightarrow> ret (Inl (Wrap ''unmarshal job'' (Err ''json'')))
   | Some j \<Rightarrow> RunInTenant (jb_tenant j) (email_handleJob E P F j))"

definition email_consume :: "env \<Rightarrow> email_message provider option \<Rightarrow>
    email_message provider option \<Rightarrow> js_msg \<Rightarrow> disposition option app" where
  "email_consume E P F = worker_consume DefaultMaxDeliver (email_handle E P F)"

section \<open>The gate\<close>

definition email_address :: "env \<Rightarrow> db \<Rightarrow> channel_job \<Rightarrow> string option" where
  "email_address E d j = (case email_select E (tctx (jb_tenant j)) d j of
     None \<Rightarrow> None | Some a \<Rightarrow> if a = [] then None else Some a)"

lemma email_select_guc: "guc c = jb_tenant j \<Longrightarrow> email_select E c d j = email_select E (tctx (jb_tenant j)) d j"
  using select_subscriber_guc [of c "tctx (jb_tenant j)"] by (simp add: email_select_def)

lemma email_silent:
  "keeps (same http_log x) (email_recordDelivery j et p e)"
  "keeps (same http_log x) (email_markSuppressed j)"
  unfolding email_markSuppressed_def email_recordDelivery_def mark_suppressed_def
  by (intro keeps_rules; simp)+

lemma email_keeps_job_inv: "keeps (job_inv (jb_tenant j) d0) (email_handleJob E P F j)"
  unfolding email_handleJob_def email_markSuppressed_def email_recordDelivery_def mark_suppressed_def
    IsSuppressed_def Let_def RenderEmail_def Fetch_def email_sendWithFallback_def pick_providers_def
    routing_Load_def settle_send_def mark_sent_def
  by (intro keeps_rules | simp split: prod.splits sum.splits option.splits)+

interpretation email: gated_channel "email_address E" "''email''" "email_handleJob E P F"
proof
  fix j d0 w
  assume tx: "in_tx (jb_tenant j) d0 w" and b: "blocked_at (email_address E) ''email'' (db w) j"
  show "wp (email_handleJob E P F j) (\<lambda>_ w'. http_log w' = http_log w) w"
    unfolding email_handleJob_def
  proof (rule wp_gate [OF tx email_select_guc])
    show "email_select E (tctx (jb_tenant j)) (db w) j = None \<or>
      email_select E (tctx (jb_tenant j)) (db w) j = Some [] \<or>
      suppressed_in (tctx (jb_tenant j)) (db w) (jb_tenant j) ''email''
        (hashValue (the (email_select E (tctx (jb_tenant j)) (db w) j)))"
      using b by (auto simp: blocked_at_def email_address_def split: option.splits if_splits)
  qed (auto intro!: keeps_rules email_silent)
next
  show "keeps (job_inv (jb_tenant j) d0) (email_handleJob E P F j)" for j d0
    by (rule email_keeps_job_inv)
  show "email_address E d' = email_address E d" if "notifs_only d d'" for d d'
    by (rule ext) (simp add: email_address_def email_select_def select_subscriber_notifs_only [OF that])
qed

section \<open>Without failures\<close>

text \<open>The rendered content, as a function of the database.\<close>

definition email_content :: "env \<Rightarrow> db \<Rightarrow> channel_job \<Rightarrow> rendered option" where
  "email_content E d j = (case select_template d (jb_tenant j) (jb_template j) of
     None \<Rightarrow> None
   | Some (subject, body) \<Rightarrow> (case (Render E subject (jb_payload j), Render E body (jb_payload j)) of
       (Inr s, Inr b) \<Rightarrow> Some \<lparr>rd_subject = s, rd_body = b\<rparr> | _ \<Rightarrow> None))"

lemma wp_running_RenderEmail:
  assumes "running t w s" "t = jb_tenant j" and "email_content E (db w) j = Some r"
    and "\<And>s'. running t w s' \<Longrightarrow> Q (Inr r) s'"
  shows "wp (RenderEmail E (jb_tenant j) (jb_template j) (jb_payload j)) Q s"
proof -
  obtain x where "select_template (db w) (jb_tenant j) (jb_template j) = Some x"
    using assms(3) by (auto simp: email_content_def split: option.splits)
  then show ?thesis
    unfolding RenderEmail_def Fetch_def wp_and_then wp_on_err
    using assms(3,4)
    by (intro wp_running_query_row [OF assms(1), where x = x])
      (auto simp: email_content_def wp_cases split: sum.splits)
qed

definition email_plan :: "env \<Rightarrow> email_message provider option \<Rightarrow> email_message provider option \<Rightarrow>
    channel_job \<Rightarrow> string \<Rightarrow> rendered \<Rightarrow> world \<Rightarrow> http_request list \<times> send_outcome" where
  "email_plan E P F j a c = delivery_plan E (email_BuildProviders E) ''email''
     (email_staticProviders P F) (jb_tenant j) (email_msg j a c)"

text \<open>A job without failures, from the gate to the settlement.\<close>

lemma wp_email_job:
  assumes "saved w = None" "db_faults w = []" "bus_faults w = []"
    and "email_address E (db w) j = Some a"
    and "\<not> suppressed_in (tctx (jb_tenant j)) (db w) (jb_tenant j) ''email'' (hashValue a)"
    and "email_content E (db w) j = Some c"
  shows "wp (RunInTenant (jb_tenant j) (email_handleJob E P F j))
    (settled (email_event j) j (email_plan E P F j a c w) w) w"
proof (rule wp_run_running [OF assms(1-3)], goal_cases)
  case (1 s)
  have sel: "email_select E c' (db w) j = Some a" if "guc c' = jb_tenant j" for c'
    using assms(4) email_select_guc [OF that]
    by (auto simp: email_address_def split: option.splits if_splits)
  show ?case
    unfolding email_handleJob_def
  proof (rule wp_running_gate [OF 1, where a = a], goal_cases)
    case (4 s')
    then show ?case
      unfolding wp_and_then email_sendWithFallback_def wp_bind email_plan_def
      by (rule wp_running_RenderEmail [OF _ refl assms(6)])
        (auto intro: wp_deliver simp: email_recordDelivery_def)
  qed (use sel assms(4,5) in \<open>auto simp: email_address_def split: option.splits if_splits\<close>)
qed

section \<open>Properties\<close>

text \<open>
  A suppressed or erased address is never written to: however many messages the email worker
  consumes, in whatever order and with whatever failures, if every job among them is for a
  subscriber without an address or with a suppressed one, nothing is sent, no transaction stays
  open, and the database changes in its notifications only.
\<close>

lemma email_suppressed_never_sent:
  assumes "saved w = None" and "\<forall>msg \<in> set ms. case job_of_msg msg of None \<Rightarrow> True
    | Some j \<Rightarrow> blocked_at (email_address E) ''email'' (db w) j"
  shows "wp (for_each ms (\<lambda>m. do { _ \<leftarrow> email_consume E P F m; ret () })) (\<lambda>_. held w) w"
  unfolding email_consume_def
  by (rule email.blocked_messages_send_nothing [OF assms(1)])
    (use assms(2) in \<open>simp_all add: email.blocked_msg_def email_handle_def\<close>)

text \<open>
  C11. Without failures in the database and on the bus, an email job to an address that is not
  suppressed does exactly this: it tries the tenant's providers (else the static ones) in order,
  each at most once, until one accepts; it publishes one delivery event; and it marks the
  notification sent with that provider and its message id, or returns the last provider's error
  and leaves the tables alone. With no provider configured at all it publishes the event
  \<^verbatim>\<open>sent\<close> and then panics.
\<close>

theorem email_job_outcome:
  assumes "saved w = None" "db_faults w = []" "bus_faults w = []"
    and "email_address E (db w) j = Some a"
    and "\<not> suppressed_in (tctx (jb_tenant j)) (db w) (jb_tenant j) ''email'' (hashValue a)"
    and "email_content E (db w) j = Some c"
  shows "wp (RunInTenant (jb_tenant j) (email_handleJob E P F j))
    (settled (email_event j) j (email_plan E P F j a c w) w) w"
  by (rule wp_email_job [OF assms])

definition email_world :: world where
  "email_world = (world0 channel_db)\<lparr>http_resp := \<lambda>n. if n = 0 then None else Some ok_answer\<rparr>"

theorem email_job_outcome_witness:
  "wp (RunInTenant (jb_tenant sample_job) (email_handleJob sample_env (Some (NewResend sample_env ''k1''))
       (Some (NewResend sample_env ''k2'')) sample_job))
     (\<lambda>r w'. r = Inr () \<and> length (http_log w') = 2 \<and>
        map nt_provider_msg (notifications (db w')) = [Some ''m1'']) email_world"
  by (rule wp_mono [OF email_job_outcome [where a = "''enc-mail''" and
        c = "\<lparr>rd_subject = ''Hi'', rd_body = ''Hello''\<rparr>"]])
    (simp_all add: email_world_def channel_defs email_address_def email_select_def suppressed_in_def
      email_content_def select_template_def Render_def settled_def email_plan_def delivery_plan_def
      picked_def select_providers_def email_staticProviders_def static_list_def email_BuildProviders_def
      NewResend_def resend_request_def transport_def answer_def read_resend_def reply_obj_def
      json_get_defs marked_sent_def update_where_def)

end
