(* ===== verification/Sms_Worker.thy ===== *)
theory Sms_Worker
  imports Workers
begin

text \<open>
  \<^verbatim>\<open>domains/channels/sms/worker.go\<close>. Beside the suppression list an SMS has to pass the Indian
  rules: its text must match an approved DLT template, and a promotional one neither reaches a
  number on the do-not-call registry nor leaves outside 10:00 to 21:00 IST: it is deferred, by a
  delayed nak, to the next window.
\<close>

definition sms_select :: "env \<Rightarrow> sctx \<Rightarrow> db \<Rightarrow> channel_job \<Rightarrow> string option" where
  "sms_select E c d j = map_option
     (\<lambda>r. case sb_phone r of None \<Rightarrow> [] | Some x \<Rightarrow> notify_decrypt E x) (select_subscriber c d j)"

definition sms_event :: "channel_job \<Rightarrow> string \<Rightarrow> string \<Rightarrow> goerr option \<Rightarrow> string \<times> gval" where
  "sms_event j et prov sendErr = (DeliverySubject (jb_tenant j), delivery_msg j et prov)"

definition sms_recordDelivery :: "channel_job \<Rightarrow> string \<Rightarrow> string \<Rightarrow> goerr option \<Rightarrow> unit app" where
  "sms_recordDelivery j et prov sendErr = do {
     _ \<leftarrow> js_publish (fst (sms_event j et prov sendErr)) (snd (sms_event j et prov sendErr));
     ret () }"

definition sms_staticProviders :: "'m provider option \<Rightarrow> 'm provider option \<Rightarrow> 'm provider list" where
  "sms_staticProviders P F = static_list P F"

definition sms_sendWithFallback :: "env \<Rightarrow> sms_message provider option \<Rightarrow>
    sms_message provider option \<Rightarrow> sms_message \<Rightarrow> string \<Rightarrow> send_outcome app" where
  "sms_sendWithFallback E P F m t = do {
     ps \<leftarrow> pick_providers E (sms_BuildProviders E) t ''sms'' (sms_staticProviders P F);
     try_providers ps m (last_name ps) None }"

definition select_category :: "db \<Rightarrow> string \<Rightarrow> string option" where
  "select_category d i = map_option dl_category (find (\<lambda>r. dl_id r = i) (dlts d))"

definition select_sender :: "db \<Rightarrow> string \<Rightarrow> string option" where
  "select_sender d i = map_option (\<lambda>r. case dl_sender r of None \<Rightarrow> ''QEET'' | Some s \<Rightarrow> s)
     (find (\<lambda>r. dl_id r = i) (dlts d))"

text \<open>
  The rules for promotional traffic: \<open>None\<close> lets the message go, \<open>Some d\<close> ends the job with delay
  \<open>d\<close>, in nanoseconds. Three readings of the clock decide.
\<close>

definition sms_promotional :: "channel_job \<Rightarrow> string \<Rightarrow> int option res app" where
  "sms_promotional j phone = on_err (IsRegistered phone)
     (\<lambda>e. ret (Inl (Wrap ''ndnc check'' e)))
     (\<lambda>dnd. if dnd then do {
          _ \<leftarrow> mark_suppressed (jb_notification j);
          sms_recordDelivery j ''ndnc_blocked'' ''ndnc'' None;
          ret (Inr (Some 0)) }
        else do {
          is_open \<leftarrow> IsPromotionalWindowOpen;
          if is_open then ret (Inr None)
          else do {
            resume \<leftarrow> ResumeAtNextWindow;
            now \<leftarrow> time_now;
            ret (Inr (Some (resume - now))) } })"

definition sms_msg :: "string \<Rightarrow> string \<Rightarrow> string \<Rightarrow> string \<Rightarrow> sms_message" where
  "sms_msg phone body sender dlt = \<lparr>sm_to = phone, sm_body = body, sm_sender = sender, sm_dlt = dlt\<rparr>"

definition sms_send :: "env \<Rightarrow> sms_message provider option \<Rightarrow> sms_message provider option \<Rightarrow>
    channel_job \<Rightarrow> string \<Rightarrow> string \<Rightarrow> string \<Rightarrow> int res app" where
  "sms_send E P F j phone body dlt = on_err (query_row (\<lambda>c d. select_sender d dlt))
     (\<lambda>_. ret []) ret \<bind> (\<lambda>sender.
     sms_sendWithFallback E P F (sms_msg phone body sender dlt) (jb_tenant j) \<bind> (\<lambda>out.
     and_then (settle_send (sms_recordDelivery j) j out) (\<lambda>_. ret (Inr 0))))"

definition sms_handleJob :: "env \<Rightarrow> sms_message provider option \<Rightarrow> sms_message provider option \<Rightarrow>
    channel_job \<Rightarrow> int res app" where
  "sms_handleJob E P F j =
     on_err (query_row (\<lambda>c d. sms_select E c d j))
       (\<lambda>e. ret (Inl (Wrap ''fetch subscriber phone'' e)))
     (\<lambda>phone. if phone = [] then ret (Inl (WrapNil ''fetch subscriber phone'')) else
     on_err (IsSuppressed (jb_tenant j) ''sms'' phone)
       (\<lambda>e. ret (Inl (Wrap ''suppression check'' e)))
     (\<lambda>suppressed. if suppressed then do {
          _ \<leftarrow> mark_suppressed (jb_notification j);
          sms_recordDelivery j ''suppressed'' [] None;
          ret (Inr 0) } else
     and_then (Fetch (jb_tenant j) (jb_template j)) (\<lambda>(_, tmplBody).
     case Render E tmplBody (jb_payload j) of Inl e \<Rightarrow> ret (Inl e) | Inr body \<Rightarrow>
     and_then (LoadApprovedTemplates E (jb_tenant j) ''all'') (\<lambda>dltTemplates.
     let dlt = MatchTemplate dltTemplates body in
     if dlt = [] then do {
       sms_recordDelivery j ''failed'' ''dlt_no_match'' (Some (Err ''no DLT template matched''));
       ret (Inr 0) }
     else do {
       category \<leftarrow> on_err (query_row (\<lambda>c d. select_category d dlt)) (\<lambda>_. ret []) ret;
       if category = ''promotional'' then and_then (sms_promotional j phone)
         (\<lambda>stop. case stop of Some delay \<Rightarrow> ret (Inr delay) | None \<Rightarrow> sms_send E P F j phone body dlt)
       else sms_send E P F j phone body dlt }))))"

text \<open>
  \<open>Inr (Some d)\<close>: the message was nak'd with delay \<open>d\<close> (\<^verbatim>\<open>errDeferred\<close>); \<open>Inr None\<close>: it is to be
  acknowledged. A delay that is not positive counts as none.
\<close>

definition sms_handle :: "env \<Rightarrow> sms_message provider option \<Rightarrow> sms_message provider option \<Rightarrow>
    js_msg \<Rightarrow> int option res app" where
  "sms_handle E P F msg = (case job_of_msg msg of
     None \<Rightarrow> ret (Inl (Wrap ''unmarshal sms job'' (Err ''json'')))
   | Some j \<Rightarrow> and_then (RunInTenant (jb_tenant j) (sms_handleJob E P F j))
       (\<lambda>delay. ret (Inr (if delay > 0 then Some delay else None))))"

definition sms_consume :: "env \<Rightarrow> sms_message provider option \<Rightarrow> sms_message provider option \<Rightarrow>
    js_msg \<Rightarrow> disposition option app" where
  "sms_consume E P F msg = on_err (sms_handle E P F msg)
     (\<lambda>e. if is_panic e then ret None
          else do { x \<leftarrow> HandleFailure msg DefaultMaxDeliver (Some e); ret (Some x) })
     (\<lambda>deferred. ret (Some (case deferred of None \<Rightarrow> Ack | Some d \<Rightarrow> NakWithDelay d)))"

section \<open>The gate\<close>

definition sms_address :: "env \<Rightarrow> db \<Rightarrow> channel_job \<Rightarrow> string option" where
  "sms_address E d j = (case sms_select E (tctx (jb_tenant j)) d j of
     None \<Rightarrow> None | Some a \<Rightarrow> if a = [] then None else Some a)"

lemma sms_select_guc: "guc c = jb_tenant j \<Longrightarrow> sms_select E c d j = sms_select E (tctx (jb_tenant j)) d j"
  using select_subscriber_guc [of c "tctx (jb_tenant j)"] by (simp add: sms_select_def)

lemma sms_address_Some:
  "sms_address E d j = Some a \<Longrightarrow> guc c = jb_tenant j \<Longrightarrow> sms_select E c d j = Some a"
  "sms_address E d j = Some a \<Longrightarrow> a \<noteq> []"
  using sms_select_guc [of c j E d] by (auto simp: sms_address_def split: option.splits if_splits)

lemma sms_silent:
  "keeps (same http_log x) (sms_recordDelivery j et p e)"
  "keeps (same http_log x) (mark_suppressed n)"
  unfolding sms_recordDelivery_def mark_suppressed_def by (intro keeps_rules; simp)+

lemma sms_keeps_job_inv: "keeps (job_inv (jb_tenant j) d0) (sms_handleJob E P F j)"
  unfolding sms_handleJob_def sms_recordDelivery_def mark_suppressed_def IsSuppressed_def Let_def
    Fetch_def LoadApprovedTemplates_def sms_promotional_def IsRegistered_def IsPromotionalWindowOpen_def
    ResumeAtNextWindow_def sms_send_def sms_sendWithFallback_def pick_providers_def routing_Load_def
    settle_send_def mark_sent_def
  by (intro keeps_rules | simp split: prod.splits sum.splits option.splits)+

interpretation sms: gated_channel "sms_address E" "''sms''" "sms_handleJob E P F"
proof
  fix j d0 w
  assume tx: "in_tx (jb_tenant j) d0 w" and b: "blocked_at (sms_address E) ''sms'' (db w) j"
  show "wp (sms_handleJob E P F j) (\<lambda>_ w'. http_log w' = http_log w) w"
    unfolding sms_handleJob_def
  proof (rule wp_gate [OF tx sms_select_guc])
    show "sms_select E (tctx (jb_tenant j)) (db w) j = None \<or>
      sms_select E (tctx (jb_tenant j)) (db w) j = Some [] \<or>
      suppressed_in (tctx (jb_tenant j)) (db w) (jb_tenant j) ''sms''
        (hashValue (the (sms_select E (tctx (jb_tenant j)) (db w) j)))"
      using b by (auto simp: blocked_at_def sms_address_def split: option.splits if_splits)
  qed (auto intro!: keeps_rules sms_silent)
next
  show "keeps (job_inv (jb_tenant j) d0) (sms_handleJob E P F j)" for j d0
    by (rule sms_keeps_job_inv)
  show "sms_address E d' = sms_address E d" if "notifs_only d d'" for d d'
    by (rule ext) (simp add: sms_address_def sms_select_def select_subscriber_notifs_only [OF that])
qed

section \<open>Without failures\<close>

text \<open>The number, the rendered text, its DLT template and that template's category.\<close>

definition sms_ready :: "env \<Rightarrow> db \<Rightarrow> channel_job \<Rightarrow> string \<Rightarrow> string \<Rightarrow> string \<Rightarrow> string \<Rightarrow> bool" where
  "sms_ready E d j phone body dlt category \<longleftrightarrow>
     sms_address E d j = Some phone
     \<and> \<not> suppressed_in (tctx (jb_tenant j)) d (jb_tenant j) ''sms'' (hashValue phone)
     \<and> (\<exists>subject tmpl. select_template d (jb_tenant j) (jb_template j) = Some (subject, tmpl)
          \<and> Render E tmpl (jb_payload j) = Inr body)
     \<and> MatchTemplate (compile_rows E (select_approved d (jb_tenant j) ''all'')) body = dlt \<and> dlt \<noteq> []
     \<and> select_category d dlt = Some category"

text \<open>From the start of a job to the question whether its category is promotional.\<close>

lemma wp_sms_ready:
  assumes run: "running (jb_tenant j) w s" and ready: "sms_ready E (db w) j phone body dlt category"
    and k: "\<And>s'. running (jb_tenant j) w s' \<Longrightarrow>
      wp (if category = ''promotional'' then and_then (sms_promotional j phone)
            (\<lambda>stop. case stop of Some delay \<Rightarrow> ret (Inr delay) | None \<Rightarrow> sms_send E P F j phone body dlt)
          else sms_send E P F j phone body dlt) Q s'"
  shows "wp (sms_handleJob E P F j) Q s"
  unfolding sms_handleJob_def
proof (rule wp_running_gate [OF run, where a = phone], goal_cases)
  case (4 s')
  obtain subject tmpl where t: "select_template (db w) (jb_tenant j) (jb_template j) = Some (subject, tmpl)"
    "Render E tmpl (jb_payload j) = Inr body"
    using ready by (auto simp: sms_ready_def)
  have m: "MatchTemplate (compile_rows E (select_approved (db w) (jb_tenant j) ''all'')) body = dlt" "dlt \<noteq> []"
    "select_category (db w) dlt = Some category"
    using ready by (auto simp: sms_ready_def)
  show ?case
    unfolding wp_and_then Fetch_def wp_on_err
  proof (rule wp_running_query_row [OF 4, where x = "(subject, tmpl)"], goal_cases)
    case (2 s2)
    show ?case
      unfolding wp_return_fun sum.case prod.case t(2) wp_and_then LoadApprovedTemplates_def wp_on_err
    proof (rule wp_running_query [OF 2], goal_cases)
      case (1 s3 c)
      show ?case
        unfolding wp_return_fun sum.case Let_def m(1) if_not_P [OF m(2)] wp_bind wp_on_err
        by (rule wp_running_query_row [OF 1(1), where x = category]) (simp_all add: m k)
    qed
  qed (simp add: t)
qed (use ready in \<open>auto simp: sms_ready_def dest: sms_address_Some\<close>)

text \<open>The rules for promotional traffic, met or not.\<close>

definition sms_stopped :: "channel_job \<Rightarrow> string \<Rightarrow> world \<Rightarrow> int res \<Rightarrow> world \<Rightarrow> bool" where
  "sms_stopped j phone w r w' \<longleftrightarrow> http_log w' = http_log w \<and>
     (if registered_in (db w) (hashPhone phone)
      then r = Inr 0 \<and> db w' = marked_suppressed (jb_notification j) (db w)
        \<and> bus w' = bus w @ [sms_event j ''ndnc_blocked'' ''ndnc'' None]
      else db w' = db w \<and> bus w' = bus w \<and> (\<exists>m n. r = Inr (next_window (clock w m) - clock w n)))"

lemma running_time:
  assumes "running t w s" and "\<And>n s'. running t w s' \<Longrightarrow> Q (clock w n) s'"
  shows "wp time_now Q s"
proof (rule wp_time_now_clock)
  fix n s'
  assume q: "quiet s s'" "tx s' = tx s"
  then have "healthy s'" using healthy_quiet runningD(1) [OF assms(1)] by blast
  from running_quiet [OF assms(1) q(1) this] assms(2) show "Q (clock s n) s'"
    by (simp add: runningD [OF assms(1)])
qed

lemma wp_promotional_stopped:
  assumes run: "running (jb_tenant j) w s"
    and stop: "registered_in (db w) (hashPhone phone) \<or> (\<forall>n. \<not> window_open_at (clock w n))"
  shows "wp (and_then (sms_promotional j phone)
      (\<lambda>stop. case stop of Some delay \<Rightarrow> ret (Inr delay) | None \<Rightarrow> m))
    (at_end (jb_tenant j) w (sms_stopped j phone w)) s"
  unfolding sms_promotional_def IsRegistered_def Let_def wp_and_then wp_on_err
proof (rule wp_running_query [OF run], goal_cases)
  case (1 s1 c)
  show ?case
  proof (cases "registered_in (db w) (hashPhone phone)")
    case True
    have "wp (mark_suppressed (jb_notification j)) (\<lambda>_. wp (sms_recordDelivery j ''ndnc_blocked'' ''ndnc'' None)
        (\<lambda>_. at_end (jb_tenant j) w (sms_stopped j phone w) (Inr 0))) s1"
    proof (rule wp_mark_suppressed [OF 1(1)])
      fix s2
      assume s2: "healthy s2" "in_tx (jb_tenant j) (db w) s2" "effects s2 = effects w"
        "db s2 = marked_suppressed (jb_notification j) (db w)"
      show "wp (sms_recordDelivery j ''ndnc_blocked'' ''ndnc'' None)
        (\<lambda>_. at_end (jb_tenant j) w (sms_stopped j phone w) (Inr 0)) s2"
        unfolding sms_recordDelivery_def wp_bind wp_return_fun
        by (rule wp_publish_healthy [OF s2(1)])
          (use s2(2-) True in \<open>simp add: at_end_def sms_stopped_def quiet_in_tx quietD effects_def\<close>)
    qed
    with True show ?thesis by simp
  next
    case False
    with stop have closed: "\<not> window_open_at (clock w n)" for n by blast
    have fin: "at_end (jb_tenant j) w (sms_stopped j phone w) (Inr (next_window (clock w k) - clock w n)) s4"
      if "running (jb_tenant j) w s4" for k n s4
      using False runningD [OF that] by (auto simp: at_end_def sms_stopped_def quietD)
    show ?thesis
      using False unfolding wp_return_fun sum.case if_not_P [OF False] IsPromotionalWindowOpen_def
        ResumeAtNextWindow_def wp_bind wp_cases
      by (auto intro!: running_time [OF 1(1)] running_time fin simp: closed)
  qed
qed

definition sms_plan :: "env \<Rightarrow> sms_message provider option \<Rightarrow> sms_message provider option \<Rightarrow>
    channel_job \<Rightarrow> string \<Rightarrow> string \<Rightarrow> string \<Rightarrow> world \<Rightarrow> http_request list \<times> send_outcome" where
  "sms_plan E P F j phone body dlt w = delivery_plan E (sms_BuildProviders E) ''sms''
     (sms_staticProviders P F) (jb_tenant j)
     (sms_msg phone body (the (select_sender (db w) dlt)) dlt) w"

text \<open>A finished job: what \<open>settled\<close> says, with a delay of zero.\<close>

definition sms_settled :: "channel_job \<Rightarrow> http_request list \<times> send_outcome \<Rightarrow> world \<Rightarrow> int res \<Rightarrow> world \<Rightarrow> bool" where
  "sms_settled j plan w r w' \<longleftrightarrow> (case r of
     Inl e \<Rightarrow> settled (sms_event j) j plan w (Inl e) w'
   | Inr d \<Rightarrow> d = 0 \<and> settled (sms_event j) j plan w (Inr ()) w')"

lemma select_sender_category: "select_category d i = Some c \<Longrightarrow> \<exists>s. select_sender d i = Some s"
  by (auto simp: select_category_def select_sender_def)

lemma wp_sms_send:
  assumes run: "running (jb_tenant j) w s" and "select_category (db w) dlt = Some category"
  shows "wp (sms_send E P F j phone body dlt)
    (at_end (jb_tenant j) w (sms_settled j (sms_plan E P F j phone body dlt w) w)) s"
proof -
  obtain sender where sender: "select_sender (db w) dlt = Some sender"
    using select_sender_category [OF assms(2)] by blast
  have fin: "(case r of Inl e \<Rightarrow> at_end (jb_tenant j) w (sms_settled j plan w) (Inl e)
      | Inr x \<Rightarrow> at_end (jb_tenant j) w (sms_settled j plan w) (Inr 0)) s'"
    if "at_end (jb_tenant j) w (settled (sms_event j) j plan w) r s'" for r plan s'
    using that by (auto simp: at_end_def sms_settled_def split: sum.splits)
  show ?thesis
    unfolding sms_send_def sms_sendWithFallback_def sms_plan_def sender option.sel wp_bind wp_bind_fun wp_on_err
  proof (rule wp_running_query_row [OF run, where x = sender], goal_cases)
    case (2 s')
    show ?case
      unfolding sum.case wp_return_fun wp_and_then_fun
      by (rule wp_deliver [OF 2]) (simp add: sms_recordDelivery_def, erule fin)
  qed (rule sender)
qed

section \<open>Sample data\<close>

definition sms_db :: "string \<Rightarrow> string list \<Rightarrow> db" where
  "sms_db category dnd = channel_db\<lparr>dlts := [\<lparr>dl_id = ''d1'', dl_tenant = ''t1'', dl_carrier = ''all'',
     dl_channel = ''sms'', dl_ext = ''x'', dl_name = ''hello'', dl_pe = None, dl_sender = None,
     dl_category = category, dl_regex = ''Hello'', dl_status = ''approved'', dl_metadata = GObj [],
     dl_created = 0\<rparr>],
     ndnc := map (\<lambda>p. \<lparr>nd_hash = hashPhone p, nd_category = ''all''\<rparr>) dnd\<rparr>"

definition sms_world :: "string \<Rightarrow> string list \<Rightarrow> (nat \<Rightarrow> int) \<Rightarrow> bool list \<Rightarrow> world" where
  "sms_world category dnd ts faults = (world0 (sms_db category dnd))
     \<lparr>clock := ts, db_faults := faults, http_resp := \<lambda>_. Some ok_answer\<rparr>"

lemmas sms_defs = sms_world_def sms_db_def channel_defs sms_address_def sms_select_def
  suppressed_in_def select_template_def Render_def select_approved_def select_category_def
  select_sender_def

lemma sms_ready_sample:
  "sms_ready sample_env (db (sms_world category dnd ts faults)) sample_job ''enc-phone'' ''Hello'' ''d1'' category"
  by (simp add: sms_ready_def sms_defs)

lemma saved_sms_world: "saved (sms_world category dnd ts faults) = None"
  by (simp add: sms_defs)

section \<open>Properties\<close>

text \<open>
  The same gate as for email: whatever messages the SMS worker consumes, if every job among them
  is for a subscriber without a number or with a suppressed one, nothing is sent.
\<close>

lemma sms_suppressed_never_sent:
  assumes "saved w = None" and "\<forall>msg \<in> set ms. case job_of_msg msg of None \<Rightarrow> True
    | Some j \<Rightarrow> blocked_at (sms_address E) ''sms'' (db w) j"
  shows "wp (for_each ms (\<lambda>m. do { _ \<leftarrow> sms_consume E P F m; ret () })) (\<lambda>_. held w) w"
proof (rule wp_held_each [OF _ held_refl [OF assms(1)]])
  fix msg w2
  assume m: "msg \<in> set ms" and w2: "held w w2"
  have "wp (sms_handle E P F msg) (\<lambda>_. held w) w2"
    using m assms(2) w2
    by (auto simp: sms_handle_def wp_cases split: option.splits sum.splits
        intro!: wp_mono [OF sms.run_held [OF _ w2]])
  then show "wp (sms_consume E P F msg) (\<lambda>_. held w) w2"
    unfolding sms_consume_def wp_on_err
    by (rule wp_mono) (auto simp: wp_cases intro!: wp_mono [OF wp_held_failure] split: sum.splits)
qed



text \<open>
  Without failures in the database and on the bus, an SMS whose text matches an approved
  template that is not promotional is sent at any hour, with that template's id and sender:
  the providers are tried in order until one accepts, one delivery event is published, and the
  notification is marked sent or the job returns the last provider's error.
\<close>

theorem sms_job_outcome:
  assumes "saved w = None" "db_faults w = []" "bus_faults w = []"
    and "sms_ready E (db w) j phone body dlt category" and "category \<noteq> ''promotional''"
  shows "wp (RunInTenant (jb_tenant j) (sms_handleJob E P F j))
    (sms_settled j (sms_plan E P F j phone body dlt w) w) w"
  by (rule wp_run_running [OF assms(1-3)], rule wp_sms_ready [OF _ assms(4)])
    (use assms(4,5) in \<open>auto simp: sms_ready_def intro: wp_sms_send\<close>)

theorem sms_job_outcome_witness:
  "wp (RunInTenant (jb_tenant sample_job) (sms_handleJob sample_env (Some (NewMSG91 sample_env ''k1'')) None sample_job))
     (\<lambda>r w'. r = Inr 0 \<and> length (http_log w') = 1 \<and>
        map nt_provider_msg (notifications (db w')) = [Some ''m1'']) (sms_world ''transactional'' [] (\<lambda>_. 0) [])"
proof (rule wp_mono [OF sms_job_outcome [OF saved_sms_world _ _ sms_ready_sample]])
  fix r w'
  assume "sms_settled sample_job (sms_plan sample_env (Some (NewMSG91 sample_env ''k1'')) None sample_job
      ''enc-phone'' ''Hello'' ''d1'' (sms_world ''transactional'' [] (\<lambda>_. 0) []))
      (sms_world ''transactional'' [] (\<lambda>_. 0) []) r w'"
  then show "r = Inr 0 \<and> length (http_log w') = 1 \<and>
      map nt_provider_msg (notifications (db w')) = [Some ''m1'']"
    by (cases r) (simp_all add: sms_defs sms_settled_def settled_def sms_plan_def delivery_plan_def
      picked_def select_providers_def sms_staticProviders_def static_list_def sms_BuildProviders_def
      NewMSG91_def msg91_request_def transport_def answer_def read_msg91_def reply_obj_def
      json_get_defs marked_sent_def update_where_def)
qed (simp_all add: sms_world_def world0_def)

definition msg91 :: "sms_message provider" where
  "msg91 = NewMSG91 sample_env ''k1''"

definition just_before :: int where
  "just_before = 10 * hour_ns - ist_offset - 1"

lemma window_moments: "\<not> window_open_at 0" "\<not> window_open_at just_before" "window_open_at (just_before + 1)"
  "next_window just_before = just_before + 1"
  by (simp_all add: window_open_at_def ist_hour_def ist_offset_def day_ns_def hour_ns_def just_before_def
      next_window_def)

text \<open>
  Two ways around the rules. The error of the category lookup is ignored: when that one query
  fails, a promotional message to a registered number leaves at night, and since the failure also
  aborts the transaction the job is retried and the message sent again. And the delay is computed
  from three separate readings of the clock: when the window opens between the second and the
  third, the delay is not positive and the message is acknowledged without being sent.
\<close>

theorem sms_rules_escaped:
  "(let w = (sms_world ''promotional'' [''enc-phone''] (\<lambda>_. 0) [False, False, False, False, False, False, True]);
        x = run_state (sms_consume sample_env (Some msg91) None sample_msg) w
    in \<not> window_open_at 0 \<and> fst x = Some Nak \<and> length (http_log (snd x)) = 1)
   \<and> (let w = sms_world ''promotional'' [] (\<lambda>n. if n < 9 then just_before else just_before + 1) [];
        x = run_state (sms_consume sample_env (Some msg91) None sample_msg) w
    in window_open_at (just_before + 1) \<and> fst x = Some Ack \<and> http_log (snd x) = []
      \<and> map nt_status (notifications (db (snd x))) = [''queued''])"
  by (simp add: Let_def sms_consume_def sms_handle_def job_of_sample_msg sms_handleJob_def run_defs
      window_moments sms_promotional_def IsRegistered_def IsPromotionalWindowOpen_def
      ResumeAtNextWindow_def IsSuppressed_def Fetch_def LoadApprovedTemplates_def sms_send_def
      sms_sendWithFallback_def pick_providers_def routing_Load_def select_providers_def
      sms_staticProviders_def static_list_def sms_BuildProviders_def msg91_def NewMSG91_def
      msg91_request_def transport_def read_msg91_def reply_obj_def json_get_defs p_send_def
      last_name_def settle_send_def sms_recordDelivery_def mark_sent_def HandleFailure_def
      registered_in_def DefaultMaxDeliver_def sample_msg_delivered sms_defs)

end
