(* ===== verification/Whatsapp_Worker.thy ===== *)
theory Whatsapp_Worker
  imports Workers
begin

text \<open>
  \<^verbatim>\<open>domains/channels/whatsapp/worker.go\<close>. The template is a row of \<^verbatim>\<open>dlt_templates\<close>; a marketing
  message needs a Redis key that an inbound message of the last 24 hours has set. \<open>S\<close> is the
  worker's static provider, used only when the tenant has none of its own.
\<close>

definition wa_select :: "sctx \<Rightarrow> db \<Rightarrow> channel_job \<Rightarrow> string option" where
  "wa_select c d j = map_option
     (\<lambda>r. case sb_whatsapp r of None \<Rightarrow> [] | Some x \<Rightarrow> x) (select_subscriber c d j)"

definition wa_event :: "channel_job \<Rightarrow> string \<Rightarrow> string \<Rightarrow> goerr option \<Rightarrow> string \<times> gval" where
  "wa_event j et prov sendErr = (DeliverySubject (jb_tenant j), delivery_msg j et prov)"

definition wa_recordDelivery :: "channel_job \<Rightarrow> string \<Rightarrow> string \<Rightarrow> goerr option \<Rightarrow> unit app" where
  "wa_recordDelivery j et prov sendErr = do {
     _ \<leftarrow> js_publish (fst (wa_event j et prov sendErr)) (snd (wa_event j et prov sendErr));
     ret () }"

text \<open>\<^verbatim>\<open>metadata->>'language_code'\<close>: the text of the member, NULL when it is absent or null.\<close>

definition json_text :: "env \<Rightarrow> gval \<Rightarrow> string \<Rightarrow> string option" where
  "json_text E v k = (case v of
     GObj m \<Rightarrow> (case obj_get m k of GNil \<Rightarrow> None | GStr s \<Rightarrow> Some s | x \<Rightarrow> Some (e_marshal E x))
   | _ \<Rightarrow> None)"

definition select_wa_template :: "env \<Rightarrow> db \<Rightarrow> channel_job \<Rightarrow> (string \<times> string \<times> string) option" where
  "select_wa_template E d j = map_option
     (\<lambda>r. (dl_ext r, case json_text E (dl_metadata r) ''language_code'' of None \<Rightarrow> ''en_US'' | Some l \<Rightarrow> l,
           dl_category r))
     (find (\<lambda>r. dl_id r = jb_template j \<and> dl_tenant r = jb_tenant j) (dlts d))"

definition buildComponents :: "gmap \<Rightarrow> gval list" where
  "buildComponents payload = (case obj_get payload ''params'' of
     GArr params \<Rightarrow> (let texts = concat (map (\<lambda>p. case p of
           GStr s \<Rightarrow> [GObj [(''text'', GStr s), (''type'', GStr ''text'')]] | _ \<Rightarrow> []) params)
       in if texts = [] then []
          else [GObj [(''parameters'', GArr texts), (''type'', GStr ''body'')]])
   | _ \<Rightarrow> [])"

definition session_key :: "string \<Rightarrow> string \<Rightarrow> string" where
  "session_key sub t = ''wa:session:'' @ sub @ '':'' @ t"

text \<open>\<^verbatim>\<open>rdb.Exists\<close>: on an error the result is zero.\<close>

definition session_open :: "string \<Rightarrow> bool app" where
  "session_open k = do {
     bad \<leftarrow> kv_fault;
     t \<leftarrow> time_now;
     w \<leftarrow> State_Monad.get;
     ret (\<not> bad \<and> kv_live w t k \<noteq> None) }"

definition InboundWebhook :: "string \<Rightarrow> string \<Rightarrow> unit app" where
  "InboundWebhook sub t = do {
     bad \<leftarrow> kv_fault;
     now \<leftarrow> time_now;
     if bad then ret ()
     else modify (\<lambda>w. w\<lparr>kv := (kv w)(session_key sub t \<mapsto> (''1'', Some (now + 24 * hour_ns)))\<rparr>) }"

definition wa_sendWithFallback :: "env \<Rightarrow> wa_message provider option \<Rightarrow> wa_message \<Rightarrow> string \<Rightarrow>
    send_outcome app" where
  "wa_sendWithFallback E S m t = do {
     ps \<leftarrow> pick_providers E (wa_BuildProviders E) t ''whatsapp'' (case S of None \<Rightarrow> [] | Some p \<Rightarrow> [p]);
     try_providers ps m (last_name ps) None }"

definition wa_msg :: "channel_job \<Rightarrow> string \<Rightarrow> string \<times> string \<times> string \<Rightarrow> wa_message" where
  "wa_msg j waID tmpl = (case tmpl of (tmplName, langCode, categoryStr) \<Rightarrow>
     \<lparr>wm_to = waID, wm_template = tmplName, wm_language = langCode, wm_category = categoryStr,
      wm_components = buildComponents (jb_payload j)\<rparr>)"

definition wa_process :: "env \<Rightarrow> wa_message provider option \<Rightarrow> channel_job \<Rightarrow> unit res app" where
  "wa_process E S j =
     on_err (query_row (\<lambda>c d. wa_select c d j))
       (\<lambda>e. ret (Inl (Wrap ''fetch subscriber wa_id'' e)))
     (\<lambda>waID. if waID = [] then ret (Inl (WrapNil ''fetch subscriber wa_id'')) else
     on_err (IsSuppressed (jb_tenant j) ''whatsapp'' waID)
       (\<lambda>e. ret (Inl (Wrap ''suppression check'' e)))
     (\<lambda>suppressed. if suppressed then do {
          _ \<leftarrow> mark_suppressed (jb_notification j);
          wa_recordDelivery j ''suppressed'' [] None;
          ret (Inr ()) } else
     on_err (query_row (\<lambda>c d. select_wa_template E d j))
       (\<lambda>e. ret (Inl (Wrap ''fetch wa template'' e)))
     (\<lambda>tmpl. do {
       blocked \<leftarrow> (if snd (snd tmpl) = ''MARKETING''
         then do { x \<leftarrow> session_open (session_key (jb_subscriber j) (jb_tenant j)); ret (\<not> x) }
         else ret False);
       if blocked then do { wa_recordDelivery j ''skipped'' ''no_wa_session'' None; ret (Inr ()) }
       else do {
         out \<leftarrow> wa_sendWithFallback E S (wa_msg j waID tmpl) (jb_tenant j);
         settle_send (wa_recordDelivery j) j out } })))"

definition wa_handle :: "env \<Rightarrow> wa_message provider option \<Rightarrow> js_msg \<Rightarrow> unit res app" where
  "wa_handle E S msg = (case job_of_msg msg of
     None \<Rightarrow> ret (Inl (Wrap ''unmarshal wa job'' (Err ''json'')))
   | Some j \<Rightarrow> RunInTenant (jb_tenant j) (wa_process E S j))"

definition wa_consume :: "env \<Rightarrow> wa_message provider option \<Rightarrow> js_msg \<Rightarrow> disposition option app" where
  "wa_consume E S = worker_consume DefaultMaxDeliver (wa_handle E S)"

section \<open>The gate\<close>

definition wa_address :: "db \<Rightarrow> channel_job \<Rightarrow> string option" where
  "wa_address d j = (case wa_select (tctx (jb_tenant j)) d j of
     None \<Rightarrow> None | Some a \<Rightarrow> if a = [] then None else Some a)"

lemma wa_select_guc: "guc c = jb_tenant j \<Longrightarrow> wa_select c d j = wa_select (tctx (jb_tenant j)) d j"
  using select_subscriber_guc [of c "tctx (jb_tenant j)"] by (simp add: wa_select_def)

lemma wa_address_Some:
  "wa_address d j = Some a \<Longrightarrow> guc c = jb_tenant j \<Longrightarrow> wa_select c d j = Some a"
  "wa_address d j = Some a \<Longrightarrow> a \<noteq> []"
  using wa_select_guc [of c j d] by (auto simp: wa_address_def split: option.splits if_splits)

lemma wa_silent:
  "keeps (same http_log x) (wa_recordDelivery j et p e)"
  "keeps (same http_log x) (mark_suppressed n)"
  unfolding wa_recordDelivery_def mark_suppressed_def by (intro keeps_rules; simp)+

lemma wa_keeps_job_inv: "keeps (job_inv (jb_tenant j) d0) (wa_process E S j)"
  unfolding wa_process_def wa_recordDelivery_def mark_suppressed_def IsSuppressed_def Let_def
    session_open_def wa_sendWithFallback_def pick_providers_def routing_Load_def
    settle_send_def mark_sent_def
  by (intro keeps_rules | simp split: prod.splits sum.splits option.splits)+

interpretation whatsapp: gated_channel wa_address "''whatsapp''" "wa_process E S"
proof
  fix j d0 w
  assume tx: "in_tx (jb_tenant j) d0 w" and b: "blocked_at wa_address ''whatsapp'' (db w) j"
  show "wp (wa_process E S j) (\<lambda>_ w'. http_log w' = http_log w) w"
    unfolding wa_process_def
  proof (rule wp_gate [OF tx wa_select_guc])
    show "wa_select (tctx (jb_tenant j)) (db w) j = None \<or>
      wa_select (tctx (jb_tenant j)) (db w) j = Some [] \<or>
      suppressed_in (tctx (jb_tenant j)) (db w) (jb_tenant j) ''whatsapp''
        (hashValue (the (wa_select (tctx (jb_tenant j)) (db w) j)))"
      using b by (auto simp: blocked_at_def wa_address_def split: option.splits if_splits)
  qed (auto intro!: keeps_rules wa_silent)
next
  show "keeps (job_inv (jb_tenant j) d0) (wa_process E S j)" for j d0
    by (rule wa_keeps_job_inv)
  show "wa_address d' = wa_address d" if "notifs_only d d'" for d d'
    by (rule ext) (simp add: wa_address_def wa_select_def select_subscriber_notifs_only [OF that])
qed

section \<open>Properties\<close>

definition wa_plan :: "env \<Rightarrow> wa_message provider option \<Rightarrow> channel_job \<Rightarrow> string \<Rightarrow>
    string \<times> string \<times> string \<Rightarrow> world \<Rightarrow> http_request list \<times> send_outcome" where
  "wa_plan E S j a tmpl = delivery_plan E (wa_BuildProviders E) ''whatsapp''
     (case S of None \<Rightarrow> [] | Some p \<Rightarrow> [p]) (jb_tenant j) (wa_msg j a tmpl)"

text \<open>
  The same gate as for email and SMS: whatever messages the WhatsApp worker consumes, if every
  job among them is for a subscriber without a WhatsApp id or with a suppressed one, nothing is
  sent.
\<close>

lemma wa_suppressed_never_sent:
  assumes "saved w = None" and "\<forall>msg \<in> set ms. case job_of_msg msg of None \<Rightarrow> True
    | Some j \<Rightarrow> blocked_at wa_address ''whatsapp'' (db w) j"
  shows "wp (for_each ms (\<lambda>m. do { _ \<leftarrow> wa_consume E S m; ret () })) (\<lambda>_. held w) w"
  unfolding wa_consume_def
  by (rule whatsapp.blocked_messages_send_nothing [OF assms(1)])
    (use assms(2) in \<open>simp_all add: whatsapp.blocked_msg_def wa_handle_def\<close>)

definition wa_db :: "string \<Rightarrow> db" where
  "wa_db number = channel_db\<lparr>
     subscribers := map (\<lambda>r. r\<lparr>sb_whatsapp := Some number\<rparr>) (subscribers channel_db),
     dlts := [\<lparr>dl_id = ''d1'', dl_tenant = ''t1'', dl_carrier = ''all'', dl_channel = ''whatsapp'',
       dl_ext = ''hello_world'', dl_name = ''hello'', dl_pe = None, dl_sender = None,
       dl_category = ''promotional'', dl_regex = [], dl_status = ''approved'', dl_metadata = GObj [],
       dl_created = 0\<rparr>]\<rparr>"

definition wa_job :: channel_job where
  "wa_job = sample_job\<lparr>jb_channel := ''whatsapp'', jb_template := ''d1''\<rparr>"

lemmas wa_defs = wa_db_def wa_job_def channel_defs wa_address_def wa_select_def suppressed_in_def

text \<open>
  The 24-hour rule for marketing messages is dead code: the database admits no template whose
  category is \<^verbatim>\<open>MARKETING\<close>, so without failures every WhatsApp job with a template is sent, whether
  or not the user has written in the last 24 hours: the providers are tried in order, one
  delivery event is published, and the notification is marked or the last error returned.
\<close>

theorem wa_job_outcome:
  assumes "saved w = None" "db_faults w = []" "bus_faults w = []"
    and "wa_address (db w) j = Some a"
    and "\<not> suppressed_in (tctx (jb_tenant j)) (db w) (jb_tenant j) ''whatsapp'' (hashValue a)"
    and "select_wa_template E (db w) j = Some tmpl"
    and "\<forall>r \<in> set (dlts (db w)). dl_category r \<in> set dlt_categories"
  shows "wp (RunInTenant (jb_tenant j) (wa_process E S j))
    (settled (wa_event j) j (wa_plan E S j a tmpl w) w) w"
proof (rule wp_run_running [OF assms(1-3)], goal_cases)
  case (1 s)
  have "snd (snd tmpl) \<in> set dlt_categories"
    using assms(6,7) by (auto simp: select_wa_template_def find_Some_iff)
  then have c: "snd (snd tmpl) \<noteq> ''MARKETING''" by (auto simp: dlt_categories_def)
  show ?case
    unfolding wa_process_def
  proof (rule wp_running_gate [OF 1, where a = a], goal_cases)
    case (4 s')
    show ?case
      unfolding wp_on_err
    proof (rule wp_running_query_row [OF 4, where x = tmpl], goal_cases)
      case (2 s'')
      show ?case
        unfolding sum.case wp_bind wp_bind_fun if_not_P [OF c] wp_return_fun if_False
          wa_sendWithFallback_def wa_plan_def
        by (rule wp_deliver [OF 2]) (simp_all add: wa_recordDelivery_def)
    qed (rule assms(6))
  qed (use assms(4,5) in \<open>auto dest: wa_address_Some\<close>)
qed

definition wa_world :: world where
  "wa_world = (world0 (wa_db ''9198''))\<lparr>http_resp := \<lambda>_. Some ok_answer\<rparr>"

theorem wa_job_outcome_witness:
  "wp (RunInTenant (jb_tenant wa_job) (wa_process sample_env (Some (NewMeta sample_env ''k'' ''1'')) wa_job))
     (\<lambda>r w'. r = Inr () \<and> length (http_log w') = 1 \<and> kv wa_world = (\<lambda>_. None)) wa_world"
  by (rule wp_mono [OF wa_job_outcome [where a = "''9198''" and
        tmpl = "(''hello_world'', ''en_US'', ''promotional'')"]])
    (simp_all add: wa_world_def wa_defs select_wa_template_def json_text_def obj_get_def
      dlt_categories_def settled_def wa_plan_def delivery_plan_def picked_def select_providers_def
      wa_BuildProviders_def NewMeta_def meta_request_def transport_def answer_def read_meta_def
      reply_obj_def json_get_defs wa_msg_def)


definition wa_step :: step where
  "wa_step = zero_step\<lparr>st_id := ''a'', st_type := StepTypeChannel, st_channel := ''whatsapp'',
     st_template := ''tp1''\<rparr>"

definition wa_run :: run_row where
  "wa_run = \<lparr>rn_id = ''r1'', rn_tenant = ''t1'', rn_workflow = ''w1'', rn_subscriber = Some ''s1'',
     rn_event = ''e'', rn_payload = GObj [], rn_status = Running, rn_step = 0, rn_resume_at = None,
     rn_error = None, rn_created = 0\<rparr>"


end
