(* ===== verification/Direct_Workers.thy ===== *)
theory Direct_Workers
  imports Workers
begin

text \<open>
  The two channels without external providers: \<^verbatim>\<open>domains/channels/webhook/worker.go\<close>, which posts a
  signed payload to the tenant's own endpoint, and \<^verbatim>\<open>domains/channels/inapp/worker.go\<close>, which
  marks the notification outside any transaction and publishes to the Redis channel that the
  event streams of \<^verbatim>\<open>platform/api/handler/sse.go\<close> forward.
\<close>

section \<open>Webhooks\<close>

definition maxRetries :: nat where "maxRetries = 5"

record endpointConfig =
  ep_url :: string
  ep_secret :: string

definition select_webhook :: "env \<Rightarrow> db \<Rightarrow> string \<Rightarrow> string option" where
  "select_webhook E d t = (case sort_key pv_priority
       (filter (\<lambda>r. pv_tenant r = t \<and> pv_channel r = ''webhook'' \<and> pv_active r) (providers d)) of
     [] \<Rightarrow> None | r # _ \<Rightarrow> Some (notify_decrypt E (pv_config r)))"

definition parse_endpoint :: "env \<Rightarrow> string \<Rightarrow> endpointConfig option" where
  "parse_endpoint E s = (case e_parse E s of
     Some GNil \<Rightarrow> Some \<lparr>ep_url = [], ep_secret = []\<rparr>
   | Some (GObj m) \<Rightarrow> (case (jstr m ''url'', jstr m ''secret'') of
       (Some u, Some k) \<Rightarrow> Some \<lparr>ep_url = u, ep_secret = k\<rparr> | _ \<Rightarrow> None)
   | _ \<Rightarrow> None)"

definition hmacSign :: "string \<Rightarrow> string \<Rightarrow> string" where
  "hmacSign secret payload = SignHMAC secret payload"

definition unix_s :: "int \<Rightarrow> int" where
  "unix_s t = t div 10 ^ 9"

definition webhook_payload :: "channel_job \<Rightarrow> int \<Rightarrow> gval" where
  "webhook_payload j now = GObj [(''notification_id'', GStr (jb_notification j)),
     (''payload'', GObj (jb_payload j)), (''subscriber_id'', GStr (jb_subscriber j)),
     (''tenant_id'', GStr (jb_tenant j)), (''timestamp'', GInt64 (unix_s now))]"

definition webhook_request :: "env \<Rightarrow> endpointConfig \<Rightarrow> channel_job \<Rightarrow> int \<Rightarrow> int \<Rightarrow> http_request" where
  "webhook_request E cfg j now1 now2 = (let body = e_marshal E (webhook_payload j now1) in
     \<lparr>rq_method = ''POST'', rq_url = ep_url cfg,
      rq_headers = [(''Content-Type'', ''application/json''),
        (''X-Qeet-Signature-256'', ''sha256='' @ hmacSign (ep_secret cfg) body),
        (''X-Qeet-Timestamp'', Itoa (unix_s now2))],
      rq_json = webhook_payload j now1, rq_body = body\<rparr>)"

definition webhook_recordDelivery :: "channel_job \<Rightarrow> string \<Rightarrow> int \<Rightarrow> unit app" where
  "webhook_recordDelivery j et code = do {
     _ \<leftarrow> js_publish (DeliverySubject (jb_tenant j)) (GObj [(''event_type'', GStr et),
       (''notification_id'', GStr (jb_notification j)), (''provider'', GStr ''webhook''),
       (''provider_response'', GObj [(''status_code'', GInt code)]),
       (''tenant_id'', GStr (jb_tenant j))]);
     ret () }"

definition webhook_process :: "env \<Rightarrow> channel_job \<Rightarrow> unit res app" where
  "webhook_process E j =
     on_err (query_row (\<lambda>c d. select_webhook E d (jb_tenant j)))
       (\<lambda>e. ret (Inl (Wrap ''fetch webhook config'' e)))
     (\<lambda>configJSON. case parse_endpoint E configJSON of
        None \<Rightarrow> ret (Inl (Wrap ''parse webhook config'' (Err ''json'')))
      | Some cfg \<Rightarrow> do {
          now1 \<leftarrow> time_now;
          if \<not> e_url_ok E (ep_url cfg) then ret (Inl (Wrap ''build webhook request'' (Err ''url'')))
          else do {
            now2 \<leftarrow> time_now;
            on_err (http_do (webhook_request E cfg j now1 now2))
              (\<lambda>e. ret (Inl (Wrap ''webhook delivery'' e)))
            (\<lambda>resp. if rs_status resp \<ge> 400
              then ret (Inl (Err (''webhook '' @ Itoa (rs_status resp) @ '' from '' @ ep_url cfg)))
              else do {
                webhook_recordDelivery j ''delivered'' (rs_status resp);
                exec (\<lambda>c d. set_notification (jb_notification j) (\<lambda>r. r\<lparr>nt_status := ''delivered''\<rparr>) d) }) } })"

definition webhook_handle :: "env \<Rightarrow> js_msg \<Rightarrow> unit res app" where
  "webhook_handle E msg = (case job_of_msg msg of
     None \<Rightarrow> ret (Inl (Wrap ''unmarshal webhook job'' (Err ''json'')))
   | Some j \<Rightarrow> RunInTenant (jb_tenant j) (webhook_process E j))"

definition webhook_consume :: "env \<Rightarrow> js_msg \<Rightarrow> disposition option app" where
  "webhook_consume E = worker_consume maxRetries (webhook_handle E)"

section \<open>In-app notifications\<close>

definition inapp_channel :: "string \<Rightarrow> string \<Rightarrow> string" where
  "inapp_channel t s = ''notify:inapp:'' @ t @ '':'' @ s"

definition inapp_push :: "channel_job \<Rightarrow> gval" where
  "inapp_push j = GObj [(''notification_id'', GStr (jb_notification j)), (''tenant_id'', GStr (jb_tenant j))]"

definition inapp_handle :: "js_msg \<Rightarrow> unit res app" where
  "inapp_handle msg = (case job_of_msg msg of
     None \<Rightarrow> ret (Inl (Wrap ''unmarshal inapp job'' (Err ''json'')))
   | Some j \<Rightarrow> on_err (exec (\<lambda>c d. set_notification (jb_notification j)
         (\<lambda>r. r\<lparr>nt_status := ''sent'', nt_provider := Some ''inapp''\<rparr>) d))
       (\<lambda>e. ret (Inl (Wrap ''update notification'' e)))
       (\<lambda>_. redis_publish (inapp_channel (jb_tenant j) (jb_subscriber j)) (inapp_push j)))"

definition inapp_consume :: "js_msg \<Rightarrow> disposition option app" where
  "inapp_consume = worker_consume DefaultMaxDeliver inapp_handle"

text \<open>
  \<^verbatim>\<open>NotificationStream\<close>: what a subscriber's stream forwards of a history of publications, less the
  pings. A message is one frame; \<open>txt\<close> is its text on the wire.
\<close>

definition sse_frame :: "string \<Rightarrow> string" where
  "sse_frame txt = ''data: '' @ txt @ [CHR 0x0A, CHR 0x0A]"

definition stream_frames :: "env \<Rightarrow> string \<Rightarrow> string \<Rightarrow> (string \<times> gval) list \<Rightarrow> string list" where
  "stream_frames E t s msgs =
     map (\<lambda>(_, m). sse_frame (e_marshal E m)) (filter (\<lambda>(ch, _). ch = inapp_channel t s) msgs)"

section \<open>Properties\<close>

definition webhook_signed :: "env \<Rightarrow> db \<Rightarrow> channel_job \<Rightarrow> http_request \<Rightarrow> bool" where
  "webhook_signed E d j rq \<longleftrightarrow> (\<exists>cfg sig.
     Option.bind (select_webhook E d (jb_tenant j)) (parse_endpoint E) = Some cfg
     \<and> rq_method rq = ''POST'' \<and> rq_url rq = ep_url cfg
     \<and> map_of (rq_headers rq) ''X-Qeet-Signature-256'' = Some (''sha256='' @ sig)
     \<and> VerifyHMAC (ep_secret cfg) (rq_body rq) sig)"

definition webhook_sent :: "env \<Rightarrow> db \<Rightarrow> channel_job \<Rightarrow> http_request list \<Rightarrow> http_request list \<Rightarrow> bool" where
  "webhook_sent E d j l l' \<longleftrightarrow> l' = l \<or> (\<exists>rq. l' = l @ [rq] \<and> webhook_signed E d j rq)"

lemma webhook_sent_one: "webhook_signed E d j rq \<Longrightarrow> webhook_sent E d j l (l @ [rq])"
  by (auto simp: webhook_sent_def)

lemma webhook_request_signed:
  assumes "select_webhook E d (jb_tenant j) = Some s" and "parse_endpoint E s = Some cfg"
  shows "webhook_signed E d j (webhook_request E cfg j t1 t2)"
  using assms by (auto simp: webhook_signed_def webhook_request_def Let_def VerifyHMAC_def hmacSign_def)

definition in_tx_log :: "string \<Rightarrow> db \<Rightarrow> http_request list \<Rightarrow> world \<Rightarrow> bool" where
  "in_tx_log t d l w \<longleftrightarrow> in_tx t d w \<and> http_log w = l"

lemma keeps_in_tx_log: "keeps (in_tx_log t d l) (js_publish s m)" "keeps (in_tx_log t d l) (exec f)"
  by (rule keeps_by_wp, rule wp_js_publish wp_exec, auto simp: in_tx_log_def quiet_in_tx quietD)+

lemma wp_webhook_attempt:
  assumes s: "in_tx t (db w) s" "http_log s = http_log w" and signed: "webhook_signed E (db w) j rq"
  shows "wp (on_err (http_do rq)
      (\<lambda>e. ret (Inl (Wrap ''webhook delivery'' e)))
      (\<lambda>resp. if rs_status resp \<ge> 400
        then ret (Inl (Err (''webhook '' @ Itoa (rs_status resp) @ '' from '' @ url)))
        else do {
          webhook_recordDelivery j ''delivered'' (rs_status resp);
          exec (\<lambda>c d. set_notification (jb_notification j) (\<lambda>r. r\<lparr>nt_status := ''delivered''\<rparr>) d) }))
    (\<lambda>_ w'. in_tx t (db w) w' \<and> webhook_sent E (db w) j (http_log w) (http_log w')) s"
proof -
  have rest: "wp m (\<lambda>_ w'. in_tx t (db w) w' \<and> webhook_sent E (db w) j (http_log w) (http_log w')) s1"
    if "\<And>t d l. keeps (in_tx_log t d l) m" "in_tx t (db w) s1" "http_log s1 = http_log w @ [rq]"
    for m :: "unit res app" and s1
    by (rule wp_mono [OF keeps_wp [OF that(1) [of t "db w" "http_log s1"]]])
      (use signed that(2-) in \<open>auto simp: in_tx_log_def webhook_sent_def\<close>)
  show ?thesis
    unfolding wp_on_err
    by (rule wp_http_do) (use s signed in \<open>auto simp: wp_cases webhook_sent_one webhook_recordDelivery_def
      simp del: wp_bind wp_bind_fun intro!: rest keeps_rules keeps_in_tx_log split: sum.splits\<close>)
qed

lemma wp_webhook_process:
  assumes "in_tx t (db w) w"
  shows "wp (webhook_process E j) (\<lambda>_ w'. in_tx t (db w) w' \<and> webhook_sent E (db w) j (http_log w) (http_log w')) w"
proof -
  let ?Q = "\<lambda>w'. in_tx t (db w) w' \<and> webhook_sent E (db w) j (http_log w) (http_log w')"
  have same: "?Q s" if "quiet w s" for s
    using that assms by (simp add: quiet_in_tx quietD webhook_sent_def)
  show ?thesis
    unfolding webhook_process_def wp_on_err
  proof (rule wp_query_row, goal_cases)
    case (1 s e)
    then show ?case by (simp add: same)
  next
    case (2 s c conf)
    show ?case
    proof (cases "parse_endpoint E conf")
      case None
      then show ?thesis using 2 by (simp add: same)
    next
      case (Some cfg)
      note signed = webhook_request_signed [OF 2(3) Some]
      show ?thesis
        unfolding sum.case Some option.case wp_bind
      proof (rule wp_time_now, goal_cases)
        case (1 n1 s1)
        then have q: "quiet w s1" using 2(1) quiet_trans by blast
        show ?case
          unfolding wp_if wp_return_fun wp_bind
        proof (cases "e_url_ok E (ep_url cfg)", simp_all only: not_True_eq_False not_False_eq_True
            if_True if_False same [OF q] simp_thms, rule wp_time_now)
          fix n2 s2
          assume "quiet s1 s2"
          then have q2: "quiet w s2" using q quiet_trans by blast
          then have s2: "in_tx t (db w) s2" "http_log s2 = http_log w"
            using assms by (simp_all add: quiet_in_tx quietD)
          show "wp (on_err (http_do (webhook_request E cfg j n1 n2))
              (\<lambda>e. ret (Inl (Wrap ''webhook delivery'' e)))
            (\<lambda>resp. if rs_status resp \<ge> 400
              then ret (Inl (Err (''webhook '' @ Itoa (rs_status resp) @ '' from '' @ ep_url cfg)))
              else do {
                webhook_recordDelivery j ''delivered'' (rs_status resp);
                exec (\<lambda>c d. set_notification (jb_notification j) (\<lambda>r. r\<lparr>nt_status := ''delivered''\<rparr>) d) }))
             (\<lambda>_. ?Q) s2"
            by (rule wp_webhook_attempt [OF s2 signed])
        qed
      qed
    qed
  qed
qed

lemma keeps_failure: "keeps (same http_log x) (HandleFailure msg n e)"
  unfolding HandleFailure_def Let_def by (intro keeps_rules)


definition webhook_world :: world where
  "webhook_world = (world0 (channel_db\<lparr>providers := [\<lparr>pv_id = ''p1'', pv_tenant = ''t1'',
     pv_channel = ''webhook'', pv_provider = ''custom'', pv_priority = 0, pv_config = ''c'',
     pv_active = True, pv_created = 0\<rparr>]\<rparr>))\<lparr>http_resp := \<lambda>_. Some ok_answer\<rparr>"


lemma set_notification_inapp:
  "set_notification n (\<lambda>r. r\<lparr>nt_status := ''sent'', nt_provider := Some ''inapp''\<rparr>) d
   = Some (d\<lparr>notifications := update_where (\<lambda>r. nt_id r = n)
       (\<lambda>r. r\<lparr>nt_status := ''sent'', nt_provider := Some ''inapp''\<rparr>) (notifications d)\<rparr>)"
  by (rule set_notification_Some) (simp_all add: notification_statuses_def)

lemma inapp_channel_inj:
  "CHR '':'' \<notin> set t \<Longrightarrow> CHR '':'' \<notin> set t' \<Longrightarrow> (inapp_channel t s = inapp_channel t' s') = (t = t' \<and> s = s')"
proof -
  have "t @ '':'' @ s = t' @ '':'' @ s' \<Longrightarrow> t = t' \<and> s = s'"
    if "CHR '':'' \<notin> set t" "CHR '':'' \<notin> set t'" for t'
    using that by (induction t arbitrary: t') (auto simp: Cons_eq_append_conv append_eq_Cons_conv)
  then show "CHR '':'' \<notin> set t \<Longrightarrow> CHR '':'' \<notin> set t' \<Longrightarrow>
      (inapp_channel t s = inapp_channel t' s') = (t = t' \<and> s = s')"
    by (auto simp: inapp_channel_def)
qed

text \<open>
  C15. An in-app job that succeeds has marked its notification as sent and reaches every open event
  stream of its own tenant's subscriber with exactly one frame, and no stream of anyone else; a
  job that fails has reached no stream. (Tenant ids, being UUIDs, contain no colon.)
\<close>

theorem inapp_reaches_own_stream:
  assumes "job_of_msg msg = Some j" and "saved w = None"
    and "CHR '':'' \<notin> set (jb_tenant j)" and "CHR '':'' \<notin> set t"
  shows "wp (inapp_handle msg) (\<lambda>r w'. case r of
      Inl _ \<Rightarrow> stream_frames E t s (pubsub w') = stream_frames E t s (pubsub w)
    | Inr _ \<Rightarrow> stream_frames E t s (pubsub w') = stream_frames E t s (pubsub w) @
          (if t = jb_tenant j \<and> s = jb_subscriber j then [sse_frame (e_marshal E (inapp_push j))] else [])
        \<and> notifications (db w') = update_where (\<lambda>r. nt_id r = jb_notification j)
            (\<lambda>r. r\<lparr>nt_status := ''sent'', nt_provider := Some ''inapp''\<rparr>) (notifications (db w))) w"
  unfolding inapp_handle_def assms(1) option.case wp_on_err
proof (rule wp_exec, goal_cases)
  case (1 s')
  then show ?case by (simp add: quietD)
next
  case (2 s' c d)
  then show ?case
    using inapp_channel_inj [OF assms(3,4), of "jb_subscriber j" s]
    by (auto simp: set_notification_inapp quietD stream_frames_def intro!: wp_redis_publish)
qed

theorem inapp_reaches_own_stream_witness:
  "wp (inapp_handle sample_msg) (\<lambda>r w'. r = Inr () \<longrightarrow>
     stream_frames sample_env ''t1'' ''s1'' (pubsub w') = [sse_frame []]) (world0 channel_db)"
  by (rule wp_mono [OF inapp_reaches_own_stream [OF job_of_sample_msg, where t = "''t1''" and s = "''s1''"
        and E = sample_env]])
    (auto simp: channel_defs stream_frames_def)

end
