(* ===== verification/Http.thy ===== *)
theory Http
  imports World_Logic
begin

text \<open>
  What the API handlers take from \<^verbatim>\<open>net/http\<close>, chi, \<^verbatim>\<open>encoding/json\<close>, \<^verbatim>\<open>strconv\<close> and \<^verbatim>\<open>time\<close>: requests
  with the values the middleware puts into their context, answers, query parameters, decoded
  bodies and rendered times. A handler is a function from the request to an answer in the state
  of the world; \<open>Inl\<close> is a panic, which chi's \<^verbatim>\<open>Recoverer\<close> turns into a bare 500.

  The path, its pattern and its parameters are the router's. Columns that only record when a row
  was last touched (\<^verbatim>\<open>updated_at\<close>, \<^verbatim>\<open>deleted_at\<close>, \<^verbatim>\<open>read_at\<close>) are not in the tables of the model, and
  the answers that echo one are modelled without that member.
\<close>

section \<open>Requests and answers\<close>

record request =
  rm_method :: string
  rm_path :: string
  rm_pattern :: string
  rm_params :: "(string \<times> string) list"
  rm_headers :: "(string \<times> string) list"
  rm_query :: "(string \<times> string) list"
  rm_body :: "gval option"
  rm_remote :: string
  ctx_tenant :: "string option"
  ctx_scope :: "string option"
  ctx_key_hash :: "string option"

datatype body = NoBody | Text string | Json gval

record answer =
  rp_status :: nat
  rp_headers :: "(string \<times> string) list"
  rp_body :: body

type_synonym handler = "request \<Rightarrow> answer res app"

text \<open>\<^verbatim>\<open>r.Header.Get\<close> of a canonical or non-canonical name: the first value, or the empty string.\<close>

definition header :: "request \<Rightarrow> string \<Rightarrow> string" where
  "header rq k = (case find (\<lambda>(n, _). fold_eq n k) (rm_headers rq) of None \<Rightarrow> [] | Some (_, v) \<Rightarrow> v)"

definition query_get :: "request \<Rightarrow> string \<Rightarrow> string" where
  "query_get rq k = (case map_of (rm_query rq) k of None \<Rightarrow> [] | Some v \<Rightarrow> v)"

text \<open>\<^verbatim>\<open>chi.URLParam\<close> searches from the last parameter.\<close>

definition URLParam :: "request \<Rightarrow> string \<Rightarrow> string" where
  "URLParam rq k = (case map_of (rev (rm_params rq)) k of None \<Rightarrow> [] | Some v \<Rightarrow> v)"

definition json_header :: "(string \<times> string) list" where
  "json_header = [(''Content-Type'', ''application/json'')]"

text \<open>\<^verbatim>\<open>http.Error(w, `{"error":"..."}`, code)\<close>, which also sets the two headers.\<close>

definition error_text :: "string \<Rightarrow> string" where
  "error_text m = ''{'' @ quoted ''error'' @ '':'' @ quoted m @ ''}'' @ [CHR 0x0A]"

definition http_error :: "nat \<Rightarrow> string \<Rightarrow> answer" where
  "http_error code m = \<lparr>rp_status = code, rp_headers =
     [(''Content-Type'', ''text/plain; charset=utf-8''), (''X-Content-Type-Options'', ''nosniff'')],
     rp_body = Text (error_text m)\<rparr>"

definition json_answer :: "nat \<Rightarrow> gval \<Rightarrow> answer" where
  "json_answer code v = \<lparr>rp_status = code, rp_headers = json_header, rp_body = Json v\<rparr>"

definition bare_answer :: "nat \<Rightarrow> answer" where
  "bare_answer code = \<lparr>rp_status = code, rp_headers = [], rp_body = NoBody\<rparr>"

abbreviation answers :: "answer \<Rightarrow> answer res app" where
  "answers p \<equiv> ret (Inr p)"

abbreviation fails :: "nat \<Rightarrow> string \<Rightarrow> answer res app" where
  "fails code m \<equiv> ret (Inr (http_error code m))"

lemma status_simps [simp]: "rp_status (http_error c m) = c" "rp_status (json_answer c v) = c"
  "rp_status (bare_answer c) = c"
  by (simp_all add: http_error_def json_answer_def bare_answer_def)

definition nil_map_write :: goerr where
  "nil_map_write = Panic ''assignment to entry in nil map''"

section \<open>\<^verbatim>\<open>strconv.Atoi\<close> and paging\<close>

definition read_digits :: "string \<Rightarrow> nat option" where
  "read_digits s = (if s = [] \<or> list_ex (\<lambda>c. dec_digit c = None) s then None
     else Some (foldl (\<lambda>n c. 10 * n + (ccode c - 48)) 0 s))"

definition Atoi :: "string \<Rightarrow> int option" where
  "Atoi s = (let neg = (s \<noteq> [] \<and> hd s = CHR ''-'');
       ds = (if s \<noteq> [] \<and> (hd s = CHR ''-'' \<or> hd s = CHR ''+'') then tl s else s) in
     case read_digits ds of None \<Rightarrow> None
     | Some n \<Rightarrow> (let i = (if neg then - int n else int n) in if int64_ok i then Some i else None))"

text \<open>The \<^verbatim>\<open>limit\<close> and \<^verbatim>\<open>offset\<close> parameters of the listings: what does not fit is ignored.\<close>

definition page_limit :: "int \<Rightarrow> int \<Rightarrow> request \<Rightarrow> nat" where
  "page_limit dflt most rq = nat (let l = query_get rq ''limit'' in
     if l = [] then dflt else case Atoi l of None \<Rightarrow> dflt
       | Some n \<Rightarrow> if 0 < n \<and> n \<le> most then n else dflt)"

definition page_offset :: "request \<Rightarrow> nat" where
  "page_offset rq = nat (let v = query_get rq ''offset'' in
     if v = [] then 0 else case Atoi v of None \<Rightarrow> 0 | Some n \<Rightarrow> if 0 \<le> n then n else 0)"

definition page :: "request \<Rightarrow> 'r list \<Rightarrow> 'r list" where
  "page rq rs = take (page_limit 50 200 rq) (drop (page_offset rq) rs)"

text \<open>\<^verbatim>\<open>ORDER BY created_at DESC\<close>; rows of the same instant keep the order of the table.\<close>

definition newest_first :: "('r \<Rightarrow> int) \<Rightarrow> 'r list \<Rightarrow> 'r list" where
  "newest_first at rs = sort_key (\<lambda>r. - at r) rs"

section \<open>Request bodies\<close>

text \<open>\<^verbatim>\<open>json.NewDecoder(r.Body).Decode(&req)\<close> into a struct; \<^verbatim>\<open>null\<close> leaves it zero.\<close>

fun body_members :: "gval option \<Rightarrow> gmap option" where
  "body_members (Some (GObj m)) = Some m"
| "body_members (Some GNil) = Some []"
| "body_members _ = None"

text \<open>
  Fields that tell a missing value from an empty one: a pointer, a map, a slice. A \<^verbatim>\<open>null\<close> member
  resets them.
\<close>

fun jscan_nil :: "('a option \<Rightarrow> gval \<Rightarrow> 'a option) \<Rightarrow> string \<Rightarrow> gmap \<Rightarrow> 'a option \<Rightarrow> 'a option option" where
  "jscan_nil conv k [] d = Some d"
| "jscan_nil conv k ((k', v) # r) d =
     (if fold_eq k' k then
        (if v = GNil then jscan_nil conv k r None
         else case conv d v of None \<Rightarrow> None | Some x \<Rightarrow> jscan_nil conv k r (Some x))
      else jscan_nil conv k r d)"

fun to_arr :: "gval list option \<Rightarrow> gval \<Rightarrow> gval list option" where
  "to_arr d (GArr xs) = Some xs"
| "to_arr d _ = None"

definition pstr :: "gmap \<Rightarrow> string \<Rightarrow> string option option" where
  "pstr m k = jscan_nil (\<lambda>_. to_str []) k m None"
definition pbool :: "gmap \<Rightarrow> string \<Rightarrow> bool option option" where
  "pbool m k = jscan_nil (\<lambda>_. to_bool False) k m None"
definition pint :: "gmap \<Rightarrow> string \<Rightarrow> int option option" where
  "pint m k = jscan_nil (\<lambda>_. to_int 0) k m None"
definition pmap :: "gmap \<Rightarrow> string \<Rightarrow> gmap option option" where
  "pmap m k = jscan_nil (\<lambda>d. to_map (case d of None \<Rightarrow> [] | Some x \<Rightarrow> x)) k m None"
definition parr :: "gmap \<Rightarrow> string \<Rightarrow> gval list option option" where
  "parr m k = jscan_nil to_arr k m None"

lemmas body_defs = pstr_def pbool_def pint_def pmap_def parr_def json_get_defs

section \<open>Times\<close>

text \<open>
  The proleptic Gregorian date of a day number (days since 1970-01-01), and \<^verbatim>\<open>RFC3339Nano\<close> of an
  instant in microseconds, which is how \<^verbatim>\<open>encoding/json\<close> writes a \<^verbatim>\<open>time.Time\<close>; the servers run in
  UTC.
\<close>

definition civil_date :: "int \<Rightarrow> int \<times> int \<times> int" where
  "civil_date days = (let z = days + 719468; era = z div 146097; doe = z mod 146097;
     yoe = (doe - doe div 1460 + doe div 36524 - doe div 146096) div 365;
     doy = doe - (365 * yoe + yoe div 4 - yoe div 100); mp = (5 * doy + 2) div 153;
     d = doy - (153 * mp + 2) div 5 + 1; m = (if mp < 10 then mp + 3 else mp - 9)
     in (yoe + era * 400 + (if m \<le> 2 then 1 else 0), m, d))"

definition pad_to :: "nat \<Rightarrow> int \<Rightarrow> string" where
  "pad_to n i = (let s = Itoa i in replicate (n - length s) CHR ''0'' @ s)"

definition RFC3339 :: "int \<Rightarrow> string \<Rightarrow> string" where
  "RFC3339 secs frac = (let (y, m, d) = civil_date (secs div 86400); t = secs mod 86400 in
     pad_to 4 y @ ''-'' @ pad_to 2 m @ ''-'' @ pad_to 2 d @ ''T'' @ pad_to 2 (t div 3600) @ '':''
     @ pad_to 2 (t div 60 mod 60) @ '':'' @ pad_to 2 (t mod 60) @ frac @ ''Z'')"

definition json_time :: "int \<Rightarrow> gval" where
  "json_time us = GStr (RFC3339 (us div 10 ^ 6) (let f = us mod 10 ^ 6 in
     if f = 0 then [] else CHR ''.'' # trim_zeros (pad_to 6 f)))"

text \<open>A pointer that is rendered \<^verbatim>\<open>null\<close> when nil, and one with \<^verbatim>\<open>omitempty\<close>.\<close>

definition json_opt :: "string option \<Rightarrow> gval" where
  "json_opt s = (case s of None \<Rightarrow> GNil | Some x \<Rightarrow> GStr x)"

definition omit_opt :: "string \<Rightarrow> string option \<Rightarrow> gmap" where
  "omit_opt k s = (case s of None \<Rightarrow> [] | Some x \<Rightarrow> [(k, GStr x)])"

text \<open>\<^verbatim>\<open>json.Unmarshal\<close> of a column into a \<^verbatim>\<open>map[string]any\<close>, whose error is ignored: nil unless an object.\<close>

fun column_map :: "gval \<Rightarrow> gmap option" where
  "column_map (GObj m) = Some m"
| "column_map _ = None"

definition json_map :: "gval \<Rightarrow> gval" where
  "json_map v = (case column_map v of None \<Rightarrow> GNil | Some m \<Rightarrow> GObj m)"

section \<open>Decimal numerals\<close>

lemma ccode_digit_char: "n < 10 \<Longrightarrow> ccode (digit_char n) = 48 + n"
proof -
  assume "n < 10"
  then have "n \<in> {0, 1, 2, 3, 4, 5, 6, 7, 8, 9}" by auto
  then show ?thesis by (auto simp: digit_char_def ccode_def)
qed

lemma dec_digit_char: "n < 10 \<Longrightarrow> dec_digit (digit_char n) = Some n"
  by (simp add: dec_digit_def ccode_digit_char)

lemma foldl_nat_digits: "foldl (\<lambda>n c. 10 * n + (ccode c - 48)) 0 (nat_digits n) = n"
proof (induction n rule: nat_digits.induct)
  case (1 n)
  show ?case
  proof (cases "n < 10")
    case True
    then show ?thesis by (subst nat_digits.simps) (simp add: ccode_digit_char)
  next
    case False
    with 1 show ?thesis by (subst nat_digits.simps) (simp add: ccode_digit_char)
  qed
qed

lemma nat_digits_dec: "c \<in> set (nat_digits n) \<Longrightarrow> dec_digit c \<noteq> None"
proof (induction n rule: nat_digits.induct)
  case (1 n)
  show ?case
  proof (cases "n < 10")
    case True
    with 1(2) show ?thesis by (subst (asm) nat_digits.simps) (simp add: dec_digit_char)
  next
    case False
    with 1 show ?thesis by (subst (asm) (2) nat_digits.simps) (auto simp: dec_digit_char)
  qed
qed

lemma nat_digits_ne [simp]: "nat_digits n \<noteq> []"
  by (subst nat_digits.simps) simp

lemma read_digits_nat: "read_digits (nat_digits n) = Some n"
  using nat_digits_dec [of _ n] by (auto simp: read_digits_def foldl_nat_digits list_ex_iff)

lemma Atoi_Itoa: "int64_ok i \<Longrightarrow> Atoi (Itoa i) = Some i"
proof -
  assume "int64_ok i"
  moreover have "hd (nat_digits n) \<noteq> CHR ''-''" "hd (nat_digits n) \<noteq> CHR ''+''" for n
    using nat_digits_dec [of "hd (nat_digits n)" n] by (auto simp: dec_digit_def ccode_def)
  ultimately show ?thesis
    by (auto simp: Atoi_def Itoa_def read_digits_nat Let_def)
qed

end
