(* ===== verification/Redis.thy ===== *)
theory Redis
  imports World_Logic
begin

text \<open>
  The Redis commands of the API: \<^verbatim>\<open>SETNX\<close>, \<^verbatim>\<open>GET\<close>, \<^verbatim>\<open>SET\<close> and \<^verbatim>\<open>DEL\<close> of the idempotency keys and the
  \<^verbatim>\<open>INCR\<close> and \<^verbatim>\<open>EXPIRE\<close> pipeline of the rate limiter. Each command reads the clock; a key whose
  expiry has passed is not there. A failed command has no effect.
\<close>

definition redis_SetNX :: "string \<Rightarrow> string \<Rightarrow> int \<Rightarrow> bool res app" where
  "redis_SetNX k v ttl = do {
     bad \<leftarrow> kv_fault;
     t \<leftarrow> time_now;
     w \<leftarrow> State_Monad.get;
     if bad then ret (Inl rediserr)
     else case kv_live w t k of
       Some _ \<Rightarrow> ret (Inr False)
     | None \<Rightarrow> do { modify (\<lambda>w. w\<lparr>kv := (kv w)(k \<mapsto> (v, Some (t + ttl)))\<rparr>); ret (Inr True) } }"

definition redis_Get :: "string \<Rightarrow> string res app" where
  "redis_Get k = do {
     bad \<leftarrow> kv_fault;
     t \<leftarrow> time_now;
     w \<leftarrow> State_Monad.get;
     ret (if bad then Inl rediserr
       else case kv_live w t k of None \<Rightarrow> Inl (Err ''redis: nil'') | Some v \<Rightarrow> Inr v) }"

definition redis_Set :: "string \<Rightarrow> string \<Rightarrow> int \<Rightarrow> unit res app" where
  "redis_Set k v ttl = do {
     bad \<leftarrow> kv_fault;
     t \<leftarrow> time_now;
     if bad then ret (Inl rediserr)
     else do { modify (\<lambda>w. w\<lparr>kv := (kv w)(k \<mapsto> (v, Some (t + ttl)))\<rparr>); ret (Inr ()) } }"

definition redis_Del :: "string \<Rightarrow> unit res app" where
  "redis_Del k = do {
     bad \<leftarrow> kv_fault;
     if bad then ret (Inl rediserr)
     else do { modify (\<lambda>w. w\<lparr>kv := (kv w)(k := None)\<rparr>); ret (Inr ()) } }"

text \<open>
  \<^verbatim>\<open>INCR\<close> then \<^verbatim>\<open>EXPIRE\<close>: a missing key counts from zero, one that is not a number is an error
  (its expiry is set all the same), as is the count beyond 64 bits.
\<close>

definition redis_IncrExpire :: "(string \<Rightarrow> int option) \<Rightarrow> string \<Rightarrow> int \<Rightarrow> int res app" where
  "redis_IncrExpire num k ttl = do {
     bad \<leftarrow> kv_fault;
     t \<leftarrow> time_now;
     w \<leftarrow> State_Monad.get;
     if bad then ret (Inl rediserr)
     else let old = (case kv_live w t k of None \<Rightarrow> ''0'' | Some v \<Rightarrow> v) in
       case num old of
         Some n \<Rightarrow>
           (if n < 2 ^ 63 - 1
            then do { modify (\<lambda>w. w\<lparr>kv := (kv w)(k \<mapsto> (Itoa (n + 1), Some (t + ttl)))\<rparr>); ret (Inr (n + 1)) }
            else do { modify (\<lambda>w. w\<lparr>kv := (kv w)(k \<mapsto> (old, Some (t + ttl)))\<rparr>); ret (Inl rediserr) })
       | None \<Rightarrow> do { modify (\<lambda>w. w\<lparr>kv := (kv w)(k \<mapsto> (old, Some (t + ttl)))\<rparr>); ret (Inl rediserr) } }"

section \<open>Rules\<close>

text \<open>A step that may change Redis and nothing else; the schedules and the clock move.\<close>

definition kv_only :: "world \<Rightarrow> world \<Rightarrow> bool" where
  "kv_only s s' \<longleftrightarrow> (\<exists>s0. quiet s s0 \<and> tx s0 = tx s \<and> s' = s0\<lparr>kv := kv s'\<rparr>)"

lemma kv_onlyD:
  assumes "kv_only s s'"
  shows "db s' = db s" "bus s' = bus s" "pubsub s' = pubsub s" "http_log s' = http_log s"
    "clock s' = clock s" "tx s' = tx s" "saved s' = saved s" "calm s s'" "http_resp s' = http_resp s"
proof -
  from assms obtain s0 where s0: "quiet s s0" "tx s0 = tx s" "s' = s0\<lparr>kv := kv s'\<rparr>"
    by (auto simp: kv_only_def)
  note q = quietD [OF s0(1)] quiet_calm [OF s0(1)]
  show "db s' = db s" "bus s' = bus s" "pubsub s' = pubsub s" "http_log s' = http_log s"
    "clock s' = clock s" "tx s' = tx s" "calm s s'" "http_resp s' = http_resp s"
    using q s0(2) by (subst s0(3), simp add: calm_def)+
  then show "saved s' = saved s" by (simp add: saved_def)
qed

lemma kv_only_update [simp]: "quiet s s' \<Longrightarrow> tx s' = tx s \<Longrightarrow> kv_only s (s'\<lparr>kv := k\<rparr>)"
  unfolding kv_only_def by (rule exI [of _ s']) simp

lemma kv_only_quiet: "quiet s s' \<Longrightarrow> tx s' = tx s \<Longrightarrow> kv_only s s'"
  unfolding kv_only_def by (rule exI [of _ s']) simp

lemma kv_only_trans:
  assumes "kv_only a b" "kv_only b c"
  shows "kv_only a c"
proof -
  obtain a0 b0 where a: "quiet a a0" "tx a0 = tx a" "b = a0\<lparr>kv := kv b\<rparr>"
    and b: "quiet b b0" "tx b0 = tx b" "c = b0\<lparr>kv := kv c\<rparr>"
    using assms by (auto simp: kv_only_def)
  have eq: "cur_guc b = cur_guc a0" "saved b = saved a0"
    by (subst a(3), simp add: cur_guc_def saved_def)+
  have "quiet a0 (b0\<lparr>kv := kv a0\<rparr>)"
    using b(1) kv_onlyD [OF assms(1)] a(1) eq
    by (subst (asm) a(3)) (auto simp: quiet_def effects_def calm_def cur_guc_def saved_def)
  then have "quiet a (b0\<lparr>kv := kv a0\<rparr>)" by (rule quiet_trans [OF a(1)])
  moreover have "tx (b0\<lparr>kv := kv a0\<rparr>) = tx a" using b(2) kv_onlyD(6) [OF assms(1)] by simp
  moreover have "c = (b0\<lparr>kv := kv a0\<rparr>)\<lparr>kv := kv c\<rparr>" by (subst b(3)) simp
  ultimately show ?thesis unfolding kv_only_def by blast
qed

text \<open>The live value of a key for the rest of a history: none of its clock readings reaches the expiry.\<close>

definition holds_key :: "world \<Rightarrow> string \<Rightarrow> string \<Rightarrow> bool" where
  "holds_key w k v \<longleftrightarrow> (\<exists>x. kv w k = Some (v, Some x) \<and> (\<forall>n. clock w n < x))"

text \<open>The history is shorter than \<open>ttl\<close>.\<close>

definition within :: "int \<Rightarrow> world \<Rightarrow> bool" where
  "within ttl w \<longleftrightarrow> (\<forall>m n. clock w n < clock w m + ttl)"

lemma within_cong: "clock s' = clock s \<Longrightarrow> within ttl s' = within ttl s"
  by (simp add: within_def)

lemma wp_redis_SetNX:
  assumes "\<And>s'. quiet s s' \<Longrightarrow> tx s' = tx s \<Longrightarrow> kv_faults s \<noteq> [] \<Longrightarrow> Q (Inl rediserr) s'"
    and "\<And>s' n v'. quiet s s' \<Longrightarrow> tx s' = tx s \<Longrightarrow> kv_live s (clock s n) k = Some v' \<Longrightarrow> Q (Inr False) s'"
    and "\<And>s' n. quiet s s' \<Longrightarrow> tx s' = tx s \<Longrightarrow> kv_live s (clock s n) k = None \<Longrightarrow>
      Q (Inr True) (s'\<lparr>kv := (kv s)(k \<mapsto> (v, Some (clock s n + ttl)))\<rparr>)"
  shows "wp (redis_SetNX k v ttl) Q s"
  unfolding redis_SetNX_def wp_bind
proof (rule wp_kv_fault, rule wp_time_now_clock, goal_cases)
  case (1 b s1 n s2)
  then have q: "quiet s s2" "tx s2 = tx s" "clock s1 = clock s" by (auto intro: quiet_trans dest: quietD)
  have "kv_live s2 t k = kv_live s t k" for t using q(1) by (simp add: kv_live_def quietD)
  with 1 q show ?case using assms(1) [OF q(1,2)] assms(2,3) [OF q(1,2), of n]
    by (auto simp: quietD(3) split: option.splits)
qed

lemma wp_redis_Get:
  assumes "\<And>s' e. quiet s s' \<Longrightarrow> tx s' = tx s \<Longrightarrow>
      kv_faults s \<noteq> [] \<or> (\<exists>n. kv_live s (clock s n) k = None) \<Longrightarrow> Q (Inl e) s'"
    and "\<And>s' n v. quiet s s' \<Longrightarrow> tx s' = tx s \<Longrightarrow> kv_live s (clock s n) k = Some v \<Longrightarrow> Q (Inr v) s'"
  shows "wp (redis_Get k) Q s"
  unfolding redis_Get_def wp_bind
proof (rule wp_kv_fault, rule wp_time_now_clock, goal_cases)
  case (1 b s1 n s2)
  then have q: "quiet s s2" "tx s2 = tx s" "clock s1 = clock s" by (auto intro: quiet_trans dest: quietD)
  have "kv_live s2 t k = kv_live s t k" for t using q(1) by (simp add: kv_live_def quietD)
  with 1 q show ?case using assms(1) [OF q(1,2)] assms(2) [OF q(1,2), of n]
    by (auto split: option.splits)
qed

lemma wp_redis_Set:
  assumes "\<And>s'. quiet s s' \<Longrightarrow> tx s' = tx s \<Longrightarrow> kv_faults s \<noteq> [] \<Longrightarrow> Q (Inl rediserr) s'"
    and "\<And>s' n. quiet s s' \<Longrightarrow> tx s' = tx s \<Longrightarrow>
      Q (Inr ()) (s'\<lparr>kv := (kv s)(k \<mapsto> (v, Some (clock s n + ttl)))\<rparr>)"
  shows "wp (redis_Set k v ttl) Q s"
  unfolding redis_Set_def wp_bind
proof (rule wp_kv_fault, rule wp_time_now_clock, goal_cases)
  case (1 b s1 n s2)
  then have q: "quiet s s2" "tx s2 = tx s" "clock s1 = clock s" by (auto intro: quiet_trans dest: quietD)
  with 1 show ?case using assms(1) [OF q(1,2)] assms(2) [OF q(1,2), of n] by (auto simp: quietD(3))
qed

lemma wp_redis_Del:
  assumes "\<And>s'. quiet s s' \<Longrightarrow> tx s' = tx s \<Longrightarrow> kv_faults s \<noteq> [] \<Longrightarrow> Q (Inl rediserr) s'"
    and "\<And>s'. quiet s s' \<Longrightarrow> tx s' = tx s \<Longrightarrow> Q (Inr ()) (s'\<lparr>kv := (kv s)(k := None)\<rparr>)"
  shows "wp (redis_Del k) Q s"
  unfolding redis_Del_def wp_bind
  by (rule wp_kv_fault) (auto simp: assms quietD(3))

lemma wp_redis_IncrExpire:
  assumes "\<And>s' e. kv_only s s' \<Longrightarrow> kv_faults s \<noteq> [] \<or>
      (\<exists>n v. kv_live s (clock s n) k = Some v \<and> (\<forall>i. num v = Some i \<longrightarrow> 2 ^ 63 - 1 \<le> i)) \<or> num ''0'' \<noteq> Some 0
      \<Longrightarrow> Q (Inl e) s'"
    and "\<And>s' n i. quiet s s' \<Longrightarrow> tx s' = tx s \<Longrightarrow> i < 2 ^ 63 - 1 \<Longrightarrow>
      num (case kv_live s (clock s n) k of None \<Rightarrow> ''0'' | Some v \<Rightarrow> v) = Some i \<Longrightarrow>
      Q (Inr (i + 1)) (s'\<lparr>kv := (kv s)(k \<mapsto> (Itoa (i + 1), Some (clock s n + ttl)))\<rparr>)"
  shows "wp (redis_IncrExpire num k ttl) Q s"
  unfolding redis_IncrExpire_def wp_bind
proof (rule wp_kv_fault, rule wp_time_now_clock, goal_cases)
  case (1 b s1 n s2)
  then have q: "quiet s s2" "tx s2 = tx s" "clock s1 = clock s" by (auto intro: quiet_trans dest: quietD)
  have l: "kv_live s2 t k = kv_live s t k" for t using q(1) by (simp add: kv_live_def quietD)
  let ?old = "case kv_live s (clock s n) k of None \<Rightarrow> ''0'' | Some v \<Rightarrow> v"
  show ?case
  proof (cases "\<not> b \<and> (\<exists>i. num ?old = Some i \<and> i < 2 ^ 63 - 1)")
    case True
    then show ?thesis using 1 q assms(2) [OF q(1,2), of _ n] by (auto simp: l quietD(3) Let_def)
  next
    case False
    have "Q (Inl rediserr) s2" if b using 1 that q by (intro assms(1) kv_only_quiet) auto
    moreover have "Q (Inl rediserr) (s2\<lparr>kv := x\<rparr>)" if "\<not> b" for x
      using False that q by (intro assms(1)) (auto split: option.splits, meson not_less)
    ultimately show ?thesis using False 1 q
      by (auto simp: l Let_def wp_cases split: option.splits)
  qed
qed

lemma holds_key_live: "holds_key w k v \<Longrightarrow> kv_live w (clock w n) k = Some v"
  by (auto simp: holds_key_def kv_live_def)

lemma holds_key_set: "within ttl w \<Longrightarrow> clock w' = clock w \<Longrightarrow>
    kv w' k = Some (v, Some (clock w n + ttl)) \<Longrightarrow> holds_key w' k v"
  by (auto simp: holds_key_def within_def)

lemma holds_key_cong: "clock w' = clock w \<Longrightarrow> kv w' k = kv w k \<Longrightarrow> holds_key w' k v = holds_key w k v"
  by (simp add: holds_key_def)

end
