(* ===== verification/Middleware.thy ===== *)
theory Middleware
  imports Http Redis Security
begin

text \<open>
  \<^verbatim>\<open>platform/api/middleware\<close> and the key lookup of \<^verbatim>\<open>platform/database\<close>: authentication by API key,
  the scope guard, the rate limiter, the audit trail and the tenant transaction, in the order
  \<^verbatim>\<open>cmd/server\<close> puts them around every \<^verbatim>\<open>/v1\<close> handler. The locale \<open>tenant_handler\<close> is what the chain
  relies on: a handler that runs in the transaction of a tenant leaves the others' rows alone.
\<close>

section \<open>Who is calling\<close>

definition hashAPIKey :: "string \<Rightarrow> string" where
  "hashAPIKey key = sha256_hex key"

definition select_api_key :: "db \<Rightarrow> string \<Rightarrow> (string \<times> string) option" where
  "select_api_key d h = map_option (\<lambda>r. (ak_tenant r, ak_scope r))
     (find (\<lambda>r. ak_hash r = h \<and> ak_revoked r = None) (api_keys d))"

definition select_master_key :: "db \<Rightarrow> string \<Rightarrow> string option" where
  "select_master_key d h = map_option tn_id (find (\<lambda>t. tn_key_hash t = h) (tenants d))"

definition LookupTenantByKey :: "string \<Rightarrow> (string \<times> string) option res app" where
  "LookupTenantByKey h = on_err (query_row (\<lambda>c d. select_api_key d h))
     (\<lambda>e. if e \<noteq> ErrNoRows then ret (Inl (Wrap ''api_keys lookup'' e))
       else on_err (query_row (\<lambda>c d. select_master_key d h))
         (\<lambda>e. if e = ErrNoRows then ret (Inr None) else ret (Inl (Wrap ''tenant lookup'' e)))
         (\<lambda>t. ret (Inr (Some (t, ''full'')))))
     (\<lambda>ts. ret (Inr (Some ts)))"

definition LookupTenantByAPIKeyHash :: "string \<Rightarrow> string option res app" where
  "LookupTenantByAPIKeyHash h = on_err (LookupTenantByKey h) (\<lambda>e. ret (Inl e))
     (\<lambda>r. ret (Inr (map_option fst r)))"

definition Auth :: "(string \<Rightarrow> (string \<times> string) option res app) \<Rightarrow> handler \<Rightarrow> handler" where
  "Auth lookup next rq = (let key = header rq ''X-Qeet-Api-Key'' in
     if key = [] then fails 401 ''missing X-Qeet-Api-Key''
     else let h = hashAPIKey key in
       on_err (lookup h) (\<lambda>_. fails 401 ''invalid api key'')
         (\<lambda>r. case r of None \<Rightarrow> fails 401 ''invalid api key''
           | Some (t, sc) \<Rightarrow> next (rq\<lparr>ctx_tenant := Some t, ctx_scope := Some sc, ctx_key_hash := Some h\<rparr>)))"

definition ScopeFromContext :: "request \<Rightarrow> string \<times> bool" where
  "ScopeFromContext rq = (case ctx_scope rq of None \<Rightarrow> (''full'', False)
     | Some s \<Rightarrow> if s = [] then (''full'', False) else (s, True))"

definition ScopeGuard :: "handler \<Rightarrow> handler" where
  "ScopeGuard next rq = (let scope = fst (ScopeFromContext rq) in
     if scope = ''full'' then next rq
     else if scope = ''read'' then
       (if rm_method rq \<noteq> ''GET'' then fails 403 ''scope 'read' only allows GET requests'' else next rq)
     else if scope = ''send'' then
       (if \<not> (rm_method rq = ''POST'' \<and> HasSuffix (rm_path rq) ''/events'')
        then fails 403 ''scope 'send' only allows POST /v1/events'' else next rq)
     else next rq)"

definition ActorFromContext :: "request \<Rightarrow> string \<times> string" where
  "ActorFromContext rq = (case ctx_key_hash rq of
     Some h \<Rightarrow> (if h = [] then (''system'', ''system'')
       else (''api_key'', ''apikey:'' @ (if length h > 16 then take 16 h else h)))
   | None \<Rightarrow> (''system'', ''system''))"

section \<open>The rate limiter\<close>

definition rl_key :: "string \<Rightarrow> string" where
  "rl_key t = ''rl:'' @ t"

text \<open>\<^verbatim>\<open>%.0f\<close> of a window of whole seconds.\<close>

definition RateLimit :: "int \<Rightarrow> int \<Rightarrow> handler \<Rightarrow> handler" where
  "RateLimit limit window next rq = (case ctx_tenant rq of None \<Rightarrow> next rq
     | Some t \<Rightarrow> on_err (redis_IncrExpire Atoi (rl_key t) window) (\<lambda>_. next rq)
         (\<lambda>n. if n > limit
           then answers ((http_error 429 ''rate limit exceeded'')\<lparr>rp_headers :=
              (''Retry-After'', Itoa (window div 10 ^ 9))
                # rp_headers (http_error 429 ''rate limit exceeded'')\<rparr>)
           else next rq))"

section \<open>The tenant transaction\<close>

text \<open>
  The answer is on its way before the commit, whose failure nobody sees. A panic unwinds through
  the deferred rollback.
\<close>

definition TenantTx :: "handler \<Rightarrow> handler" where
  "TenantTx next rq = (if ctx_tenant rq = None \<or> ctx_tenant rq = Some [] then next rq
     else on_err begin_tx (\<lambda>_. fails 500 ''internal error'') (\<lambda>_.
       on_err (set_tenant (the (ctx_tenant rq))) (\<lambda>_. do { roll_back; fails 500 ''internal error'' }) (\<lambda>_.
       on_err (next rq) (\<lambda>e. do { roll_back; ret (Inl e) })
         (\<lambda>p. if rp_status p < 400 then do { commit_tx; answers p }
              else do { roll_back; answers p }))))"

section \<open>The audit trail\<close>

definition resourceType :: "string \<Rightarrow> string" where
  "resourceType pattern = (let p = takeWhile (\<lambda>c. c \<noteq> CHR ''/'') (TrimPrefix pattern ''/v1/'') in
     if p = [] then ''unknown'' else p)"

definition isUUID :: "string \<Rightarrow> bool" where
  "isUUID s \<longleftrightarrow> length s = 36 \<and> list_all (\<lambda>(i, c).
     if i \<in> {8, 13, 18, 23} then c = CHR ''-'' else hex_digit c \<noteq> None) (zip [0..<36] s)"

definition routeResourceID :: "request \<Rightarrow> string" where
  "routeResourceID rq = (case find isUUID (map snd (rm_params rq)) of None \<Rightarrow> [] | Some v \<Rightarrow> v)"

text \<open>\<^verbatim>\<open>net.SplitHostPort\<close>: the host, or \<open>None\<close> for an address without a port or with stray brackets or colons.\<close>

definition SplitHost :: "string \<Rightarrow> string option" where
  "SplitHost s = (if CHR '':'' \<notin> set s then None
     else let i = length s - 1 - length (takeWhile (\<lambda>c. c \<noteq> CHR '':'') (rev s)) in
       if hd s = CHR ''['' then
         (if CHR '']'' \<notin> set s then None
          else let e = length (takeWhile (\<lambda>c. c \<noteq> CHR '']'') s) in
            if e + 1 \<noteq> i \<or> CHR ''['' \<in> set (tl s) \<or> CHR '']'' \<in> set (drop (e + 1) s) then None
            else Some (drop 1 (take e s)))
       else if CHR '':'' \<in> set (take i s) \<or> CHR ''['' \<in> set s \<or> CHR '']'' \<in> set s then None
       else Some (take i s))"

definition ClientIP :: "request \<Rightarrow> string" where
  "ClientIP rq = (case SplitHost (rm_remote rq) of Some h \<Rightarrow> h | None \<Rightarrow> rm_remote rq)"

definition audit_row_of :: "request \<Rightarrow> nat \<Rightarrow> sctx \<Rightarrow> audit_row" where
  "audit_row_of rq status c = \<lparr>au_id = new_id c, au_tenant = the (ctx_tenant rq),
     au_actor_type = fst (ActorFromContext rq), au_actor = snd (ActorFromContext rq),
     au_action = rm_method rq @ '' '' @ rm_pattern rq, au_resource = resourceType (rm_pattern rq),
     au_resource_id = (if isUUID (routeResourceID rq) then Some (routeResourceID rq) else None),
     au_new = GObj [(''status'', GInt (int status))], au_ip = Some (ClientIP rq),
     au_agent = Some (header rq ''User-Agent''), au_at = db_now c\<rparr>"

definition insert_audit :: "sctx \<Rightarrow> db \<Rightarrow> audit_row \<Rightarrow> db option" where
  "insert_audit c d r = (if sees c (au_tenant r) then Some (d\<lparr>audits := audits d @ [r]\<rparr>) else None)"

definition Audit :: "handler \<Rightarrow> handler" where
  "Audit next rq = (if rm_method rq \<in> {''GET'', ''HEAD'', ''OPTIONS''} then next rq
     else on_err (next rq) (\<lambda>e. ret (Inl e)) (\<lambda>p.
       if HasSuffix (rm_pattern rq) ''/events'' \<or> ctx_tenant rq = None \<or> ctx_tenant rq = Some []
       then answers p
       else do {
         RunInTenant (the (ctx_tenant rq))
           (exec (\<lambda>c d. insert_audit c d (audit_row_of rq (rp_status p) c)));
         answers p }))"

section \<open>The chain\<close>

definition api_v1 :: "handler \<Rightarrow> handler" where
  "api_v1 h = Auth LookupTenantByKey (ScopeGuard (RateLimit 1000 (60 * 10 ^ 9) (Audit (TenantTx h))))"

text \<open>\<^verbatim>\<open>Recoverer\<close> answers a panic.\<close>

definition recoverer :: "handler \<Rightarrow> request \<Rightarrow> answer app" where
  "recoverer h rq = do { r \<leftarrow> h rq; ret (case r of Inl _ \<Rightarrow> bare_answer 500 | Inr p \<Rightarrow> p) }"

section \<open>Whose rows a request may touch\<close>

text \<open>The rows of every table that belong to other tenants than \<open>t\<close>.\<close>

definition others :: "string \<Rightarrow> db \<Rightarrow> db" where
  "others t d = \<lparr>tenants = tenants d,
     subscribers = filter (\<lambda>r. sb_tenant r \<noteq> t) (subscribers d),
     templates = filter (\<lambda>r. tp_tenant r \<noteq> t) (templates d),
     workflows = filter (\<lambda>r. wf_tenant r \<noteq> t) (workflows d),
     runs = filter (\<lambda>r. rn_tenant r \<noteq> t) (runs d),
     notifications = filter (\<lambda>r. nt_tenant r \<noteq> t) (notifications d),
     deliveries = filter (\<lambda>r. de_tenant r \<noteq> t) (deliveries d),
     suppressions = filter (\<lambda>r. su_tenant r \<noteq> t) (suppressions d),
     preferences = filter (\<lambda>r. pf_tenant r \<noteq> t) (preferences d),
     dlts = filter (\<lambda>r. dl_tenant r \<noteq> t) (dlts d),
     providers = filter (\<lambda>r. pv_tenant r \<noteq> t) (providers d), ndnc = ndnc d,
     api_keys = filter (\<lambda>r. ak_tenant r \<noteq> t) (api_keys d),
     consents = filter (\<lambda>r. cl_tenant r \<noteq> t) (consents d),
     audits = filter (\<lambda>r. au_tenant r \<noteq> t) (audits d)\<rparr>"

definition confined :: "string \<Rightarrow> db \<Rightarrow> world \<Rightarrow> bool" where
  "confined t d0 w \<longleftrightarrow> in_tx t d0 w \<and> others t (db w) = others t d0"

lemma keeps_confined_stmt:
  assumes "\<And>c d d' x. guc c = t \<Longrightarrow> f c d = Some (d', x) \<Longrightarrow> others t d' = others t d"
  shows "keeps (confined t d0) (db_stmt f)"
proof (rule keeps_by_wp, rule wp_stmt, goal_cases)
  case (1 s s')
  then show ?case by (simp add: confined_def quiet_in_tx quietD(1))
next
  case (2 s s' c d x)
  then have "others t d = others t (db s)" by (intro assms) (auto simp: confined_def in_tx_guc)
  with 2 show ?case by (simp add: confined_def quiet_in_tx)
qed

lemma keeps_confined_exec:
  assumes "\<And>c d d'. guc c = t \<Longrightarrow> f c d = Some d' \<Longrightarrow> others t d' = others t d"
  shows "keeps (confined t d0) (exec f)"
  unfolding exec_def
proof (rule keeps_confined_stmt)
  fix c d d' and x :: unit
  assume "guc c = t" "map_option (\<lambda>d'. (d', ())) (f c d) = Some (d', x)"
  with assms [of c d d'] show "others t d' = others t d" by auto
qed

lemma keeps_confined_query [keeps_rules]:
  "keeps (confined t d0) (query g)" "keeps (confined t d0) (query_row h)"
  by (rule keeps_by_wp, rule wp_query wp_query_row, auto simp: confined_def quiet_in_tx quietD(1))+

lemma keeps_confined_time [keeps_rules]: "keeps (confined t d0) time_now"
  by (rule keeps_by_wp, rule wp_time_now) (auto simp: confined_def quiet_in_tx quietD(1))

lemma keeps_confined_publish [keeps_rules]: "keeps (confined t d0) (js_publish subj m)"
  by (rule keeps_by_wp, rule wp_js_publish) (auto simp: confined_def quiet_in_tx quietD(1))

lemma keeps_confined_redis [keeps_rules]:
  "keeps (confined t d0) (redis_SetNX k v ttl)" "keeps (confined t d0) (redis_Get k)"
  "keeps (confined t d0) (redis_Set k v ttl)" "keeps (confined t d0) (redis_Del k)"
  by (rule keeps_by_wp, rule wp_redis_SetNX wp_redis_Get wp_redis_Set wp_redis_Del;
      auto simp: confined_def quiet_in_tx quietD(1))+

text \<open>\<open>same_tables d w\<close>: the database is \<open>d\<close>, outside any transaction.\<close>

definition at_rest :: "db \<Rightarrow> world \<Rightarrow> bool" where
  "at_rest d w \<longleftrightarrow> saved w = None \<and> db w = d"

lemma at_rest_quiet: "quiet s s' \<Longrightarrow> at_rest d s' = at_rest d s"
  by (auto simp: at_rest_def quiet_def)

section \<open>What a key grants\<close>

definition key_owner :: "db \<Rightarrow> string \<Rightarrow> (string \<times> string) option" where
  "key_owner d h = (case select_api_key d h of Some ts \<Rightarrow> Some ts
     | None \<Rightarrow> map_option (\<lambda>t. (t, ''full'')) (select_master_key d h))"

definition scope_allows :: "string \<Rightarrow> request \<Rightarrow> bool" where
  "scope_allows sc rq \<longleftrightarrow> (sc = ''read'' \<longrightarrow> rm_method rq = ''GET'')
     \<and> (sc = ''send'' \<longrightarrow> rm_method rq = ''POST'' \<and> HasSuffix (rm_path rq) ''/events'')"

text \<open>The tenant a request may act for: that of its key, when the scope of the key allows it.\<close>

definition granted :: "db \<Rightarrow> request \<Rightarrow> string option" where
  "granted d rq = (let key = header rq ''X-Qeet-Api-Key'' in
     if key = [] then None
     else case key_owner d (hashAPIKey key) of None \<Rightarrow> None
       | Some (t, sc) \<Rightarrow> if scope_allows sc rq then Some t else None)"

text \<open>No tenant has the empty id.\<close>

definition tenants_named :: "db \<Rightarrow> bool" where
  "tenants_named d \<longleftrightarrow> [] \<notin> ak_tenant ` set (api_keys d) \<and> [] \<notin> tn_id ` set (tenants d)"

lemma key_owner_named: "tenants_named d \<Longrightarrow> key_owner d h = Some (t, sc) \<Longrightarrow> t \<noteq> []"
  by (force simp: key_owner_def select_api_key_def select_master_key_def tenants_named_def
      dest: find_Some_in split: option.splits)

lemma wp_LookupTenantByKey:
  assumes "\<And>s' e. quiet s s' \<Longrightarrow> saved s \<noteq> None \<or> db_faults s \<noteq> [] \<Longrightarrow> Q (Inl e) s'"
    and "\<And>s'. quiet s s' \<Longrightarrow> Q (Inr (key_owner (db s) h)) s'"
  shows "wp (LookupTenantByKey h) Q s"
  unfolding LookupTenantByKey_def wp_on_err
proof (rule wp_query_row_strong, goal_cases)
  case (1 s' e)
  show ?case
  proof (cases "e = ErrNoRows")
    case False
    with 1 have "saved s \<noteq> None \<or> db_faults s \<noteq> []" by (auto simp: broken_def saved_def)
    with False 1(1) show ?thesis by (simp add: assms(1))
  next
    case True
    with 1 have none: "select_api_key (db s) h = None" and nb: "\<not> broken s" by auto
    show ?thesis
      unfolding True sum.case
      apply (simp only: simp_thms if_False wp_on_err)
    proof (rule wp_query_row_strong, goal_cases)
      case (1 s2 e2)
      have q: "quiet s s2" by (rule quiet_trans [OF \<open>quiet s s'\<close> 1(1)])
      show ?case
      proof (cases "e2 = ErrNoRows")
        case True
        with 1 have "select_master_key (db s) h = None" using quietD(1) [OF \<open>quiet s s'\<close>] by auto
        with True none show ?thesis using assms(2) [OF q] by (simp add: key_owner_def)
      next
        case False
        have "saved s \<noteq> None \<or> db_faults s \<noteq> []"
        proof (rule ccontr)
          assume "\<not> ?thesis"
          then have "db_faults s' = []" "saved s' = None"
            using \<open>quiet s s'\<close> by (auto simp: quiet_def calm_def)
          with False 1(3) show False by (auto simp: broken_def saved_def)
        qed
        with False q show ?thesis by (simp add: assms(1))
      qed
    next
      case (2 s2 c t)
      have q: "quiet s s2" by (rule quiet_trans [OF \<open>quiet s s'\<close> 2(1)])
      have "key_owner (db s) h = Some (t, ''full'')"
        using 2 none quietD(1) [OF \<open>quiet s s'\<close>] by (simp add: key_owner_def)
      then show ?case using assms(2) [OF q] by simp
    qed
  qed
next
  case (2 s' c x)
  then show ?case using assms(2) [of s'] by (simp add: key_owner_def)
qed

definition refused :: "answer res \<Rightarrow> bool" where
  "refused r \<longleftrightarrow> (\<exists>p. r = Inr p \<and> rp_status p \<in> {401, 403, 429})"

definition denied :: "answer res \<Rightarrow> bool" where
  "denied r \<longleftrightarrow> (\<exists>p. r = Inr p \<and> rp_status p \<in> {401, 403})"

definition limited :: "answer res \<Rightarrow> bool" where
  "limited r \<longleftrightarrow> (\<exists>p. r = Inr p \<and> rp_status p = 429)"

lemma denied_refused: "denied r \<Longrightarrow> refused r"
  by (auto simp: denied_def refused_def)

definition with_key :: "request \<Rightarrow> string \<Rightarrow> string \<Rightarrow> request" where
  "with_key rq t sc = rq\<lparr>ctx_tenant := Some t, ctx_scope := Some sc,
     ctx_key_hash := Some (hashAPIKey (header rq ''X-Qeet-Api-Key''))\<rparr>"

lemma with_key_fields [simp]: "ctx_tenant (with_key rq t sc) = Some t"
  "ctx_scope (with_key rq t sc) = Some sc" "rm_method (with_key rq t sc) = rm_method rq"
  "rm_pattern (with_key rq t sc) = rm_pattern rq" "rm_path (with_key rq t sc) = rm_path rq"
  by (simp_all add: with_key_def)

lemma ScopeGuard_passes: "scope_allows sc rq \<Longrightarrow>
    ScopeGuard next (with_key rq t sc) = next (with_key rq t sc)"
  by (auto simp: ScopeGuard_def ScopeFromContext_def scope_allows_def Let_def)

text \<open>The chain up to the handler: who gets through, and what has happened by then.\<close>

lemma wp_scope_and_rate:
  assumes q: "quiet s s1" "tx s1 = tx s"
    and key: "key_owner (db s) (hashAPIKey (header rq ''X-Qeet-Api-Key'')) = Some (t, sc)"
    and g: "granted (db s) rq = (if scope_allows sc rq then Some t else None)"
    and stop: "\<And>r s'. kv_only s s' \<Longrightarrow> refused r \<Longrightarrow>
      (granted (db s) rq = None \<Longrightarrow> quiet s s' \<and> denied r) \<Longrightarrow>
      (granted (db s) rq \<noteq> None \<Longrightarrow> db_faults s = [] \<Longrightarrow> limited r) \<Longrightarrow> Q r s'"
    and go: "\<And>s'. kv_only s s' \<Longrightarrow> granted (db s) rq = Some t \<Longrightarrow> wp (next (with_key rq t sc)) Q s'"
  shows "wp (ScopeGuard (RateLimit l win next) (with_key rq t sc)) Q s1"
proof (cases "scope_allows sc rq")
  case True
  have "wp (RateLimit l win next (with_key rq t sc)) Q s1"
    unfolding RateLimit_def with_key_fields option.case wp_on_err
  proof (rule wp_redis_IncrExpire, goal_cases)
    case (1 s2 e)
    have "kv_only s s2" by (rule kv_only_trans [OF kv_only_quiet [OF q] 1(1)])
    with g True show ?case by (simp add: go)
  next
    case (2 s2 n i)
    have k: "kv_only s (s2\<lparr>kv := x\<rparr>)" for x
      by (rule kv_only_trans [OF kv_only_quiet [OF q]]) (simp add: 2)
    from k g True show ?case by (auto simp: refused_def limited_def intro!: go stop)
  qed
  with True show ?thesis by (simp add: ScopeGuard_passes)
next
  case False
  have "Q (Inr (http_error 403 m)) s1" for m
    using q g False by (intro stop) (auto simp: refused_def denied_def intro: kv_only_quiet)
  then show ?thesis using False
    by (auto simp: ScopeGuard_def ScopeFromContext_def scope_allows_def Let_def)
qed

lemma wp_gates:
  assumes stop: "\<And>r s'. kv_only s s' \<Longrightarrow> refused r \<Longrightarrow>
      (granted (db s) rq = None \<Longrightarrow> quiet s s' \<and> denied r) \<Longrightarrow>
      (granted (db s) rq \<noteq> None \<Longrightarrow> db_faults s = [] \<Longrightarrow> limited r) \<Longrightarrow> Q r s'"
    and go: "\<And>s' t sc. kv_only s s' \<Longrightarrow> granted (db s) rq = Some t \<Longrightarrow>
      key_owner (db s) (hashAPIKey (header rq ''X-Qeet-Api-Key'')) = Some (t, sc) \<Longrightarrow>
      wp (next (with_key rq t sc)) Q s'"
    and rest: "saved s = None"
  shows "wp (Auth LookupTenantByKey (ScopeGuard (RateLimit l win next)) rq) Q s"
proof (cases "header rq ''X-Qeet-Api-Key'' = []")
  case True
  then show ?thesis
    using stop [of s "Inr (http_error 401 ''missing X-Qeet-Api-Key'')"]
    by (simp add: Auth_def refused_def denied_def kv_only_quiet granted_def Let_def)
next
  case False
  have tx: "tx s' = tx s" if "quiet s s'" for s'
  proof -
    have "saved s' = None" using that rest by (simp add: quiet_def)
    with rest show ?thesis by (simp flip: no_tx_iff)
  qed
  have bad: "Q (Inr (http_error 401 m)) s'" if "quiet s s'" "granted (db s) rq = None \<or> db_faults s \<noteq> []" for s' m
    using that tx [OF that(1)] by (intro stop) (auto simp: refused_def denied_def intro: kv_only_quiet)
  show ?thesis
    unfolding Auth_def Let_def wp_on_err if_not_P [OF False]
  proof (rule wp_LookupTenantByKey, goal_cases)
    case (1 s' e)
    then show ?case using rest by (simp add: bad)
  next
    case (2 s1)
    note q = this tx [OF this]
    show ?case
    proof (cases "key_owner (db s) (hashAPIKey (header rq ''X-Qeet-Api-Key''))")
      case None
      then have "granted (db s) rq = None" by (simp add: granted_def Let_def)
      with None show ?thesis using bad [OF 2] by simp
    next
      case (Some ts)
      then obtain t sc where ts: "key_owner (db s) (hashAPIKey (header rq ''X-Qeet-Api-Key'')) = Some (t, sc)"
        by (cases ts) auto
      have g: "granted (db s) rq = (if scope_allows sc rq then Some t else None)"
        using False ts by (simp add: granted_def Let_def)
      have "wp (ScopeGuard (RateLimit l win next) (with_key rq t sc)) Q s1"
        by (rule wp_scope_and_rate [OF q ts g]) (fact stop, rule go [OF _ _ ts])
      with ts show ?thesis by (simp add: with_key_def)
    qed
  qed
qed

text \<open>The audit row comes on top, in a transaction of its own.\<close>

definition only_audits :: "string \<Rightarrow> db \<Rightarrow> db \<Rightarrow> bool" where
  "only_audits t d d' \<longleftrightarrow> (\<exists>rs. d' = d\<lparr>audits := audits d @ rs\<rparr> \<and> (\<forall>r \<in> set rs. au_tenant r = t))"

definition failed_answer :: "answer res \<Rightarrow> bool" where
  "failed_answer r = (case r of Inl e \<Rightarrow> True | Inr p \<Rightarrow> 400 \<le> rp_status p)"

lemma only_audits_refl [simp]: "only_audits t d d"
  unfolding only_audits_def by (rule exI [of _ "[]"]) simp

lemma only_audits_step:
  "insert_audit c d r = Some d' \<Longrightarrow> au_tenant r = t \<Longrightarrow> only_audits t d d'"
  unfolding only_audits_def
  by (rule exI [of _ "[r]"]) (auto simp: insert_audit_def split: if_splits)

lemma only_audits_others: "only_audits t d d' \<Longrightarrow> others t d' = others t d"
  by (auto simp: only_audits_def others_def filter_empty_conv)

lemma wp_audit_insert:
  assumes "saved s = None"
    and "\<And>s'. saved s' = None \<Longrightarrow> only_audits t (db s) (db s') \<Longrightarrow> effects s' = effects s \<Longrightarrow> Q s'"
    and "\<And>c. au_tenant (row c) = t"
  shows "wp (RunInTenant t (exec (\<lambda>c d. insert_audit c d (row c)))) (\<lambda>_. Q) s"
proof (rule wp_RunInTenant [OF assms(1)], goal_cases)
  case (1 e s')
  then show ?case by (simp add: assms(2) saved_def)
next
  case (2 s1)
  show ?case
  proof (rule wp_exec, goal_cases)
    case (1 s2)
    then show ?case using 2 by (auto simp: quiet_in_tx quietD quiet_effects saved_def intro!: assms(2))
  next
    case (2 s2 c d)
    have "only_audits t (db s) d" using 2(3) assms(3) \<open>db s1 = db s\<close> by (auto intro: only_audits_step)
    then show ?case using 2 \<open>in_tx t (db s) s1\<close> \<open>effects s1 = effects s\<close>
      by (auto simp: quiet_in_tx quietD(1) quiet_effects saved_def intro!: assms(2))
  qed
qed

locale tenant_handler =
  fixes h :: handler
  assumes confines: "ctx_tenant rq = Some t \<Longrightarrow> t \<noteq> [] \<Longrightarrow> keeps (confined t d0) (h rq)"
begin

text \<open>
  In its transaction: an answer of 400 or more and a panic leave the tables as they were, and
  nothing else changes more than the tenant's own rows.
\<close>

lemma wp_TenantTx:
  assumes "ctx_tenant rq = Some t" "t \<noteq> []" "at_rest d s"
  shows "wp (TenantTx h rq) (\<lambda>r s'. saved s' = None \<and> others t (db s') = others t d
    \<and> ((case r of Inl e \<Rightarrow> True | Inr p \<Rightarrow> 400 \<le> rp_status p) \<longrightarrow> db s' = d)) s"
proof -
  have s: "saved s = None" "db s = d" using assms(3) by (auto simp: at_rest_def)
  have "wp (TenantTx h rq) (\<lambda>r s'. saved s' = None \<and> others t (db s') = others t (db s)
    \<and> ((case r of Inl e \<Rightarrow> True | Inr p \<Rightarrow> 400 \<le> rp_status p) \<longrightarrow> db s' = db s)) s"
    unfolding TenantTx_def using assms(1,2)
    apply (simp only: option.distinct option.inject simp_thms if_False option.sel wp_on_err)
    apply (rule wp_begin_tx [OF s(1)])
    subgoal for s' using s(1) by (simp add: quiet_def)
    apply (simp only: sum.case wp_on_err)
    apply (rule wp_set_tenant, assumption)
    subgoal premises p for s1 s2
    proof -
      have "in_tx [] (db s) s2" using p(7,8) by (simp add: quiet_in_tx)
      then show ?thesis by (simp add: wp_roll_back saved_def)
    qed
    subgoal premises p for s1 s2
    proof -
      have "confined t (db s) s2" using p by (simp add: confined_def)
      from keeps_wp [OF confines [OF assms(1,2)] this] show ?thesis
        apply (simp only: sum.case wp_on_err)
        apply (rule wp_mono)
        apply assumption
        apply (auto simp: confined_def wp_roll_back saved_def split: sum.splits)
        apply (rule wp_commit_tx, assumption)
         apply (auto simp: quiet_def)
        done
    qed
    done
  with s show ?thesis by simp
qed

lemma wp_Audit:
  assumes "ctx_tenant rq = Some t" "t \<noteq> []" "at_rest d s"
  shows "wp (Audit (TenantTx h) rq) (\<lambda>r s'. saved s' = None \<and> others t (db s') = others t d
    \<and> (failed_answer r \<longrightarrow> only_audits t d (db s'))) s"
proof -
  have run: "wp (TenantTx h rq) (\<lambda>r s'. saved s' = None \<and> others t (db s') = others t d
      \<and> (failed_answer r \<longrightarrow> db s' = d)) s"
    using wp_TenantTx [OF assms] by (simp add: failed_answer_def)
  have log: "wp (do { RunInTenant t (exec (\<lambda>c d. insert_audit c d (audit_row_of rq st c))); answers p })
      (\<lambda>r s'. saved s' = None \<and> others t (db s') = others t d
        \<and> (failed_answer r \<longrightarrow> only_audits t d (db s'))) s1"
    if "saved s1 = None" "others t (db s1) = others t d" "failed_answer (Inr p) \<longrightarrow> db s1 = d" for s1 p st
    unfolding wp_bind wp_return
  proof (rule wp_audit_insert [OF that(1)])
    show "au_tenant (audit_row_of rq st c) = t" for c using assms(1) by (simp add: audit_row_of_def)
  qed (use that in \<open>auto simp: only_audits_others\<close>)
  show ?thesis
  proof (cases "rm_method rq \<in> {''GET'', ''HEAD'', ''OPTIONS''}")
    case True
    then show ?thesis unfolding Audit_def by (auto intro!: wp_mono [OF run])
  next
    case False
    show ?thesis
      unfolding Audit_def if_not_P [OF False] wp_on_err
      apply (rule wp_mono [OF run])
      subgoal premises r for r s1
        using r assms(1) log [of s1 "projr r" "rp_status (projr r)"]
        by (cases r) (auto simp del: wp_bind)
      done
  qed
qed

text \<open>
  A whole request: only the tenant its key grants is affected, and a request that fails leaves no
  trace but its audit row.
\<close>

lemma request_confined:
  assumes "saved s = None" "tenants_named (db s)"
  shows "wp (api_v1 h rq) (\<lambda>r s'. saved s' = None \<and> (case granted (db s) rq of
      None \<Rightarrow> db s' = db s \<and> effects s' = effects s \<and> refused r
    | Some t \<Rightarrow> others t (db s') = others t (db s) \<and> (failed_answer r \<longrightarrow> only_audits t (db s) (db s')))) s"
  unfolding api_v1_def
proof (rule wp_gates [OF _ _ assms(1)], goal_cases)
  case (1 r s')
  then show ?case using assms(1) by (auto simp: kv_onlyD quiet_effects split: option.splits)
next
  case (2 s' t sc)
  then have "at_rest (db s) s'" using assms(1) by (simp add: at_rest_def kv_onlyD)
  from wp_Audit [OF _ key_owner_named [OF assms(2) 2(3)] this, of "with_key rq t sc"] 2(2)
  show ?case by simp
qed

end

section \<open>Properties of the chain\<close>

text \<open>
  C10.
  A request whose key is missing, unknown or revoked, or whose key's scope does not admit it, is
  answered 401 or 403 whatever the handler would do: no table, message, Redis key or outgoing
  request changes.
\<close>

theorem unauthorised_requests_stop:
  assumes "saved w = None" "granted (db w) rq = None"
  shows "wp (api_v1 h rq) (\<lambda>r w'. quiet w w' \<and> denied r) w"
  unfolding api_v1_def
  by (rule wp_gates [OF _ _ assms(1)]) (use assms in auto)

definition read_key_db :: db where
  "read_key_db = sample_db\<lparr>api_keys := [\<lparr>ak_id = ''k1'', ak_tenant = ''t1'', ak_name = ''ro'',
     ak_hash = hashAPIKey ''k'', ak_prefix = ''qn_live_'', ak_scope = ''read'', ak_created = 0,
     ak_revoked = None\<rparr>]\<rparr>"

definition sample_request :: request where
  "sample_request = \<lparr>rm_method = ''POST'', rm_path = ''/v1/templates'', rm_pattern = ''/v1/templates'',
     rm_params = [], rm_headers = [(''X-Qeet-Api-Key'', ''k'')], rm_query = [], rm_body = None,
     rm_remote = ''10.0.0.1:4242'', ctx_tenant = None, ctx_scope = None, ctx_key_hash = None\<rparr>"

theorem unauthorised_requests_stop_witness:
  "wp (api_v1 (\<lambda>_. answers (bare_answer 200)) sample_request)
     (\<lambda>r w'. quiet (world0 read_key_db) w' \<and> denied r) (world0 read_key_db)"
  by (rule unauthorised_requests_stop)
    (simp_all add: saved_def sample_defs read_key_db_def granted_def Let_def sample_request_def header_def
      fold_eq_def lower_c_def ccode_def key_owner_def select_api_key_def scope_allows_def)

text \<open>What a run of requests through the limiter is answered, one after another.\<close>

fun run_all :: "('s, 'a) state list \<Rightarrow> ('s, 'a list) state" where
  "run_all [] = ret []"
| "run_all (m # ms) = do { x \<leftarrow> m; xs \<leftarrow> run_all ms; ret (x # xs) }"

definition status_of :: "answer res \<Rightarrow> nat" where
  "status_of r = (case r of Inl _ \<Rightarrow> 500 | Inr p \<Rightarrow> rp_status p)"

lemma status_of_simps [simp]: "status_of (Inr p) = rp_status p" "status_of (Inl e) = 500"
  by (simp_all add: status_of_def)

text \<open>The limiter's counter stands at \<open>c\<close> and will still be there at the next reading of the clock.\<close>

definition counter :: "string \<Rightarrow> int \<Rightarrow> world \<Rightarrow> bool" where
  "counter t c w \<longleftrightarrow> kv_faults w = [] \<and> (if c = 0 then kv w (rl_key t) = None
     else \<exists>x. kv w (rl_key t) = Some (Itoa c, Some x) \<and> clock w (ticks w) < x)"

definition steady :: "int \<Rightarrow> world \<Rightarrow> bool" where
  "steady window w \<longleftrightarrow> (\<forall>n. clock w (Suc n) < clock w n + window)"

lemma wp_counted:
  assumes "counter t c w" "steady window w" "0 \<le> c" "c < 2 ^ 63 - 1"
  shows "wp (redis_IncrExpire Atoi (rl_key t) window)
    (\<lambda>r w'. r = Inr (c + 1) \<and> steady window w' \<and> counter t (c + 1) w') w"
proof -
  let ?w = "w\<lparr>kv_faults := [], ticks := Suc (ticks w)\<rparr>"
  have "Atoi ''0'' = Some 0" by (simp add: Atoi_def read_digits_def dec_digit_def ccode_def int64_ok_def)
  moreover have "Atoi (Itoa c) = Some c" using assms(3,4) by (intro Atoi_Itoa) (auto simp: int64_ok_def)
  ultimately have "Atoi (case kv_live ?w (clock w (ticks w)) (rl_key t) of None \<Rightarrow> ''0'' | Some v \<Rightarrow> v) = Some c"
    using assms(1) by (auto simp: counter_def kv_live_def split: if_splits)
  then show ?thesis
    using assms
    by (simp add: redis_IncrExpire_def kv_fault_def time_now_def next_fault_def Let_def
        counter_def steady_def)
qed

lemma RateLimit_step:
  assumes "ctx_tenant rq = Some t" "counter t c w" "steady window w" "0 \<le> c" "c < 2 ^ 63 - 1"
  shows "wp (RateLimit limit window (\<lambda>_. answers p) rq) (\<lambda>r w'. steady window w' \<and> counter t (c + 1) w'
    \<and> status_of r = (if c + 1 > limit then 429 else rp_status p)) w"
  unfolding RateLimit_def assms(1) option.case wp_on_err
  by (rule wp_mono [OF wp_counted [OF assms(2-5)]]) (auto simp: status_of_def)

text \<open>
  C31.
  The limiter is not a sliding window: every request, a refused one included, pushes the expiry of
  the counter back by a whole window, so requests that follow one another within a window are
  counted for ever. Whatever their rate, all of them from the one after the limit are answered 429.
\<close>

theorem rate_limit_never_resets:
  assumes "ctx_tenant rq = Some t" "counter t 0 w" "steady window w" "int n < 2 ^ 63 - 1"
  shows "wp (run_all (replicate n (RateLimit limit window (\<lambda>_. answers p) rq)))
    (\<lambda>rs _. map status_of rs = map (\<lambda>i. if int i > limit then 429 else rp_status p) [1..<Suc n]) w"
proof -
  have "wp (run_all (replicate n (RateLimit limit window (\<lambda>_. answers p) rq)))
    (\<lambda>rs _. map status_of rs = map (\<lambda>i. if int i > limit then 429 else rp_status p) [Suc k..<Suc k + n]) w"
    if "counter t (int k) w" "steady window w" "int (k + n) < 2 ^ 63 - 1" for k w
    using that
  proof (induction n arbitrary: k w)
    case (Suc n)
    show ?case
      unfolding replicate_Suc run_all.simps wp_bind
    proof (rule wp_mono [OF RateLimit_step [OF assms(1) Suc.prems(1,2), of limit p]])
      fix r w'
      assume r: "steady window w' \<and> counter t (int k + 1) w'
        \<and> status_of r = (if int k + 1 > limit then 429 else rp_status p)"
      then have "counter t (int (Suc k)) w'" by (simp add: add.commute)
      from Suc.IH [OF this] r Suc.prems(3)
      have "wp (run_all (replicate n (RateLimit limit window (\<lambda>_. answers p) rq)))
        (\<lambda>rs _. map status_of rs
          = map (\<lambda>i. if int i > limit then 429 else rp_status p) [Suc (Suc k)..<Suc (Suc k) + n]) w'"
        by simp
      then show "wp (run_all (replicate n (RateLimit limit window (\<lambda>_. answers p) rq)))
        (\<lambda>xs. wp (ret (r # xs)) (\<lambda>rs _. map status_of rs
          = map (\<lambda>i. if int i > limit then 429 else rp_status p) [Suc k..<Suc k + Suc n])) w'"
        by (rule wp_mono) (use r in \<open>simp add: upt_conv_Cons add.commute\<close>)
    qed (use Suc.prems(3) in auto)
  qed simp
  from this [of 0] assms(2-4) show ?thesis by simp
qed

text \<open>One request a second, two allowed per minute: the third to the fifth are refused.\<close>

theorem rate_limit_never_resets_witness:
  "wp (run_all (replicate 5 (RateLimit 2 (60 * 10 ^ 9) (\<lambda>_. answers (bare_answer 200))
      (with_key sample_request ''t1'' ''full''))))
    (\<lambda>rs _. map status_of rs = [200, 200, 429, 429, 429]) (world0 empty_db)"
  using rate_limit_never_resets [of "with_key sample_request ''t1'' ''full''" "''t1''" "world0 empty_db"
      "60 * 10 ^ 9" 5 2 "bare_answer 200"]
  by (simp add: counter_def steady_def world0_def upt_rec [of _ 6] upt_rec)

text \<open>
  C32.
  The audit trail: when the database works, a request with another method than GET, HEAD or
  OPTIONS that its handler answers, with success or with an error, adds exactly one row, with the
  caller, the action and the status of the answer. The event intake is left out.
\<close>

theorem audit_records_change:
  assumes "rm_method rq \<notin> {''GET'', ''HEAD'', ''OPTIONS''}" "\<not> HasSuffix (rm_pattern rq) ''/events''"
    and "ctx_tenant rq = Some t" "t \<noteq> []"
    and "wp (next rq) (\<lambda>r w'. r = Inr p \<and> saved w' = None \<and> db_faults w' = [] \<and> audits (db w') = log) w"
  shows "wp (Audit next rq) (\<lambda>r w'. r = Inr p \<and> (\<exists>row. audits (db w') = log @ [row] \<and> au_tenant row = t
      \<and> (au_actor_type row, au_actor row) = ActorFromContext rq
      \<and> au_action row = rm_method rq @ '' '' @ rm_pattern rq
      \<and> au_new row = GObj [(''status'', GInt (int (rp_status p)))])) w"
  unfolding Audit_def if_not_P [OF assms(1)] wp_on_err
proof (rule wp_mono [OF assms(5)], goal_cases)
  case (1 r s)
  then have s: "saved s = None" "db_faults s = []" "audits (db s) = log" by auto
  have log: "wp (RunInTenant t (exec (\<lambda>c d. insert_audit c d (audit_row_of rq (rp_status p) c))))
      (\<lambda>_ w'. \<exists>c. audits (db w') = log @ [audit_row_of rq (rp_status p) c]) s"
  proof (rule wp_RunInTenant [OF s(1)], goal_cases)
    case (2 s1)
    then have nf: "db_faults s1 = []" "\<not> broken s1" "cur_guc s1 = t" "audits (db s1) = log"
      using s by (auto simp: calm_def in_tx_guc)
    show ?case
    proof (rule wp_exec_strong, goal_cases)
      case (1 s2)
      have False using 1(3) nf assms(3,4) by (auto simp: insert_audit_def sees_def audit_row_of_def)
      then show ?case ..
    next
      case (2 s2 c d)
      have "db_faults s2 = []" "\<not> broken s2" "in_tx t (db s) s2"
        using quiet_calm [OF 2(1)] broken_tx [OF 2(4)] quiet_in_tx [OF 2(1)] nf(1,2) \<open>in_tx t (db s) s1\<close>
        by (simp_all add: calm_def)
      moreover have "audits d = log @ [audit_row_of rq (rp_status p) c]"
        using 2(5) nf quietD(1) [OF 2(1)] by (auto simp: insert_audit_def split: if_splits)
      ultimately show ?case by (auto simp: quietD(1))
    qed
  qed (use s in simp)
  from 1 have "r = Inr p" by simp
  moreover have "\<not> (HasSuffix (rm_pattern rq) ''/events'' \<or> ctx_tenant rq = None \<or> ctx_tenant rq = Some [])"
    using assms(2-4) by simp
  ultimately show ?case
    unfolding assms(3) option.sel
    by (simp only: sum.case if_False wp_bind wp_return)
      (rule wp_mono [OF log], auto simp: audit_row_of_def assms(3))
qed

theorem audit_records_change_witness:
  "wp (Audit (\<lambda>_. fails 404 ''not found'') (with_key sample_request ''t1'' ''full''))
     (\<lambda>r w'. r = Inr (http_error 404 ''not found'') \<and> (\<exists>row. audits (db w') = [] @ [row] \<and> au_tenant row = ''t1''
       \<and> (au_actor_type row, au_actor row) = ActorFromContext (with_key sample_request ''t1'' ''full'')
       \<and> au_action row = rm_method (with_key sample_request ''t1'' ''full'') @ '' ''
            @ rm_pattern (with_key sample_request ''t1'' ''full'')
       \<and> au_new row = GObj [(''status'', GInt (int (rp_status (http_error 404 ''not found''))))]))
     (world0 sample_db)"
  by (rule audit_records_change)
    (simp_all add: sample_request_def HasSuffix_def suffix_def sample_defs saved_def)

end
