(* ===== verification/Events_Api.thy ===== *)
theory Events_Api
  imports Middleware Engine_Spec
begin

text \<open>
  \<^verbatim>\<open>platform/api/handler/events.go\<close>: the event intake, with its idempotency keys in Redis. The
  server always hands the handler a Redis client, so the tests for a nil one are left out.
\<close>

definition idempotencyTTL :: int where
  "idempotencyTTL = 24 * 3600 * 10 ^ 9"

definition idempotencyPending :: string where
  "idempotencyPending = ''__pending__''"

definition idem_key :: "string \<Rightarrow> string \<Rightarrow> string" where
  "idem_key t key = ''idem:'' @ t @ '':'' @ key"

definition accepted_text :: string where
  "accepted_text = ''{'' @ quoted ''status'' @ '':'' @ quoted ''accepted'' @ ''}''"

definition releaseIdem :: "string \<Rightarrow> unit app" where
  "releaseIdem k = (if k = [] then ret () else do { redis_Del k; ret () })"

text \<open>\<^verbatim>\<open>triggerEventRequest\<close>: event, subscriber and payload.\<close>

definition trigger_request :: "gval option \<Rightarrow> (string \<times> string \<times> gmap) option" where
  "trigger_request b = (case body_members b of None \<Rightarrow> None
     | Some m \<Rightarrow> (case (jstr m ''event'', jstr m ''subscriber_id'', jmap m ''payload'') of
         (Some e, Some s, Some p) \<Rightarrow> Some (e, s, p) | _ \<Rightarrow> None))"

definition event_of :: "string \<Rightarrow> string \<times> string \<times> gmap \<Rightarrow> event" where
  "event_of t r = (case r of (e, s, p) \<Rightarrow> \<lparr>ev_tenant = t, ev_subscriber = s, ev_event = e,
     ev_payload = p, ev_workflow = [], ev_run = []\<rparr>)"

text \<open>What follows the claim of the key; \<open>k\<close> is the empty string when there is none to keep.\<close>

definition intake :: "string \<Rightarrow> string \<Rightarrow> handler" where
  "intake t k rq = (case trigger_request (rm_body rq) of
       None \<Rightarrow> do { releaseIdem k; fails 400 ''invalid json'' }
     | Some (e, s, p) \<Rightarrow>
        (if e = [] then do { releaseIdem k; fails 422 ''event is required'' }
         else if s = [] then do { releaseIdem k; fails 422 ''subscriber_id is required'' }
         else on_err (js_publish (EventSubject t) (encode_event (event_of t (e, s, p))))
           (\<lambda>_. do { releaseIdem k; fails 500 ''failed to queue event'' })
           (\<lambda>_. do {
              (if k = [] then ret () else do { redis_Set k accepted_text idempotencyTTL; ret () });
              answers \<lparr>rp_status = 202, rp_headers = json_header, rp_body = Text accepted_text\<rparr> })))"

definition NewTriggerEvent :: handler where
  "NewTriggerEvent rq = (case ctx_tenant rq of None \<Rightarrow> fails 401 ''missing tenant context''
     | Some t \<Rightarrow> let key = header rq ''Idempotency-Key''; k = idem_key t key in
        if key = [] then intake t [] rq
        else on_err (redis_SetNX k idempotencyPending idempotencyTTL) (\<lambda>_. intake t [] rq)
          (\<lambda>claimed. if claimed then intake t k rq
             else on_err (redis_Get k) (\<lambda>_. intake t k rq)
               (\<lambda>prev. if prev = idempotencyPending
                  then fails 409 ''a request with this Idempotency-Key is still being processed''
                  else answers \<lparr>rp_status = 202,
                    rp_headers = json_header @ [(''Idempotent-Replayed'', ''true'')],
                    rp_body = Text prev\<rparr>)))"

lemma keeps_confined_release [keeps_rules]: "keeps (confined t d0) (releaseIdem k)"
  unfolding releaseIdem_def by (intro keeps_rules)

interpretation trigger: tenant_handler NewTriggerEvent
  by unfold_locales (auto simp: NewTriggerEvent_def intake_def Let_def intro!: keeps_rules
      split: option.splits)

section \<open>A valid event reaches the engine\<close>

definition valid_trigger :: "request \<Rightarrow> (string \<times> string \<times> gmap) option" where
  "valid_trigger rq = (case trigger_request (rm_body rq) of None \<Rightarrow> None
     | Some (e, s, p) \<Rightarrow> if e = [] \<or> s = [] then None else Some (e, s, p))"

text \<open>A request without a key, on every branch.\<close>

definition intake_spec :: "string \<Rightarrow> request \<Rightarrow> world \<Rightarrow> answer res \<Rightarrow> world \<Rightarrow> bool" where
  "intake_spec t rq w r w' \<longleftrightarrow> db w' = db w \<and> pubsub w' = pubsub w \<and> http_log w' = http_log w \<and>
     (case valid_trigger rq of None \<Rightarrow> bus w' = bus w \<and> status_of r \<in> {400, 422}
      | Some v \<Rightarrow> if status_of r = 202
          then \<exists>m. bus w' = bus w @ [(EventSubject t, m)] \<and> decode_event m = Some (event_of t v)
          else bus w' = bus w \<and> status_of r = 500 \<and> bus_faults w \<noteq> [])"

text \<open>One request under a key: what it leaves in Redis under the key, with Redis up.\<close>

definition key_story :: "string \<Rightarrow> string \<Rightarrow> answer res \<Rightarrow> world \<Rightarrow> bool" where
  "key_story t k r w' \<longleftrightarrow> kv_faults w' = [] \<and> within idempotencyTTL w'
     \<and> (if status_of r = 202 then holds_key w' k accepted_text else kv w' k = None)"

lemma accepted_not_pending [simp]: "accepted_text \<noteq> idempotencyPending"
  by (simp add: accepted_text_def idempotencyPending_def)

lemma idem_key_ne [simp]: "idem_key t key \<noteq> []"
  by (simp add: idem_key_def)

lemma wp_release:
  assumes "kv_faults s = []" "k \<noteq> []"
    and "\<And>s'. kv_only s s' \<Longrightarrow> kv s' k = None \<Longrightarrow> kv_faults s' = [] \<Longrightarrow> Q () s'"
  shows "wp (releaseIdem k) Q s"
  unfolding releaseIdem_def if_not_P [OF assms(2)] wp_bind
  by (rule wp_redis_Del) (use assms(1) in \<open>auto simp: quiet_def calm_def intro!: assms(3)\<close>)

text \<open>The event is published when, and only when, the answer is 202.\<close>

definition keyed :: "string \<Rightarrow> string \<Rightarrow> request \<Rightarrow> world \<Rightarrow> answer res \<Rightarrow> world \<Rightarrow> bool" where
  "keyed t k rq s r s' \<longleftrightarrow> key_story t k r s' \<and> clock s' = clock s \<and>
     (if status_of r = 202 then \<exists>v. valid_trigger rq = Some v \<and>
        bus s' = bus s @ [(EventSubject t, encode_event (event_of t v))]
      else bus s' = bus s)"

lemma wp_store_answer:
  assumes "kv_faults s = []" "within idempotencyTTL s"
  shows "wp (redis_Set k accepted_text idempotencyTTL) (\<lambda>_ s'. holds_key s' k accepted_text
    \<and> kv_faults s' = [] \<and> clock s' = clock s \<and> bus s' = bus s) s"
proof (rule wp_redis_Set, goal_cases)
  case (1 s')
  then show ?case using assms(1) by simp
next
  case (2 s' n)
  have "holds_key (s'\<lparr>kv := (kv s)(k \<mapsto> (accepted_text, Some (clock s n + idempotencyTTL)))\<rparr>) k accepted_text"
    by (rule holds_key_set [OF assms(2)]) (use quietD(7) [OF 2(1)] in auto)
  then show ?case using 2 assms(1) quiet_calm [OF 2(1)] by (simp add: calm_def quietD)
qed

lemma wp_intake:
  assumes "kv_faults s = []" "within idempotencyTTL s" "k \<noteq> []"
  shows "wp (intake t k rq) (keyed t k rq s) s"
proof -
  have stop: "wp (do { releaseIdem k; fails c m }) (keyed t k rq s) s'"
    if "kv_faults s' = []" "clock s' = clock s" "bus s' = bus s" "c \<noteq> 202" for c m s'
    unfolding wp_bind
    by (rule wp_release [OF that(1) assms(3)])
      (use that assms(2) in \<open>auto simp: keyed_def key_story_def kv_onlyD intro: within_cong [THEN iffD2]\<close>)
  show ?thesis
  proof (cases "valid_trigger rq")
    case None
    then show ?thesis
      unfolding intake_def valid_trigger_def using assms(3)
      by (auto simp: assms(1) stop simp del: wp_bind split: option.splits prod.splits if_splits)
  next
    case (Some v)
    then obtain e x p where v: "v = (e, x, p)" "trigger_request (rm_body rq) = Some (e, x, p)"
      "e \<noteq> []" "x \<noteq> []"
      by (auto simp: valid_trigger_def split: option.splits prod.splits if_splits)
    show ?thesis
      unfolding intake_def v(2) option.case prod.case if_not_P [OF v(3)] if_not_P [OF v(4)] wp_on_err
    proof (rule wp_js_publish, goal_cases)
      case (1 s')
      then show ?case unfolding sum.case using assms(1)
        by (intro stop) (auto simp: quiet_def calm_def effects_def)
    next
      case (2 s')
      let ?s = "s'\<lparr>bus := bus s @ [(EventSubject t, encode_event (event_of t (e, x, p)))]\<rparr>"
      have "kv_faults ?s = []" "within idempotencyTTL ?s" "clock ?s = clock s"
        using 2(1) assms(1,2) by (auto simp: quiet_def calm_def effects_def within_def)
      then show ?case
        unfolding sum.case wp_bind if_not_P [OF assms(3)] wp_return
        by (intro wp_mono [OF wp_store_answer])
          (use Some v(1) assms(2) in \<open>auto simp: keyed_def key_story_def within_def\<close>)
    qed
  qed
qed

text \<open>A request under a key starts with its claim; the key then holds an answer or a claim, or nothing.\<close>

lemma keyed_enter:
  assumes "ctx_tenant rq = Some t" "header rq ''Idempotency-Key'' = key" "key \<noteq> []"
  shows "wp (NewTriggerEvent rq) Q s = wp (redis_SetNX (idem_key t key) idempotencyPending idempotencyTTL)
    (\<lambda>r. case r of Inl _ \<Rightarrow> wp (intake t [] rq) Q
      | Inr claimed \<Rightarrow> wp (if claimed then intake t (idem_key t key) rq
          else on_err (redis_Get (idem_key t key)) (\<lambda>_. intake t (idem_key t key) rq)
            (\<lambda>prev. if prev = idempotencyPending
               then fails 409 ''a request with this Idempotency-Key is still being processed''
               else answers \<lparr>rp_status = 202, rp_headers = json_header @ [(''Idempotent-Replayed'', ''true'')],
                 rp_body = Text prev\<rparr>)) Q) s"
  using assms by (simp add: NewTriggerEvent_def Let_def del: wp_return)

lemma wp_trigger_held:
  assumes "ctx_tenant rq = Some t" "header rq ''Idempotency-Key'' = key" "key \<noteq> []"
    and "kv_faults s = []" "within idempotencyTTL s"
    and "holds_key s (idem_key t key) v"
  shows "wp (NewTriggerEvent rq) (\<lambda>r s'. kv_faults s' = [] \<and> clock s' = clock s \<and> kv s' = kv s \<and> bus s' = bus s
    \<and> status_of r = (if v = idempotencyPending then 409 else 202)) s"
proof -
  show ?thesis
    unfolding keyed_enter [OF assms(1-3)]
  proof (rule wp_redis_SetNX, goal_cases)
    case (1 s')
    then show ?case using assms(4) by simp
  next
    case (2 s' n v')
    then have s': "kv_faults s' = []" "clock s' = clock s" "kv s' = kv s" "bus s' = bus s"
      using assms(4) by (auto simp: quiet_def calm_def effects_def)
    have "holds_key s' (idem_key t key) v" using assms(6) s' by (simp add: holds_key_def)
    then have live: "kv_live s' (clock s n) (idem_key t key) = Some v" for n
      using holds_key_live s'(2) by metis
    show ?case
      unfolding sum.case if_False wp_on_err assms(2)
    proof (rule wp_redis_Get, goal_cases)
      case (1 s2 e)
      then show ?case by (simp add: s' live)
    next
      case (2 s2 n v2)
      then have "v2 = v" "kv_faults s2 = []" by (simp_all add: live quiet_def calm_def s')
      then show ?case using 2(1) s' by (simp add: quietD)
    qed
  next
    case (3 s' n)
    then show ?case using holds_key_live [OF assms(6)] assms(2) by simp
  qed
qed

lemma wp_trigger_free:
  assumes "ctx_tenant rq = Some t" "header rq ''Idempotency-Key'' = key" "key \<noteq> []"
    and "kv_faults s = []" "within idempotencyTTL s"
    and "kv s (idem_key t key) = None"
  shows "wp (NewTriggerEvent rq) (keyed t (idem_key t key) rq s) s"
proof -
  show ?thesis
    unfolding keyed_enter [OF assms(1-3)]
  proof (rule wp_redis_SetNX, goal_cases)
    case (1 s')
    then show ?case using assms(4) by simp
  next
    case (2 s' n v')
    then show ?case using assms(6) by (simp add: kv_live_def)
  next
    case (3 s' n)
    let ?s = "s'\<lparr>kv := (kv s)(idem_key t key \<mapsto> (idempotencyPending, Some (clock s n + idempotencyTTL)))\<rparr>"
    have "kv_faults ?s = []" "within idempotencyTTL ?s" "clock ?s = clock s" "bus ?s = bus s"
      using 3(1) assms(4,5) by (auto simp: quiet_def calm_def effects_def within_def)
    note s' = this
    have "keyed t k rq ?s = keyed t k rq s" for k
      using s'(3,4) by (simp add: keyed_def fun_eq_iff)
    with wp_intake [OF s'(1,2), of "idem_key t key" t rq] show ?case
      unfolding sum.case if_True assms(2) by (simp only: idem_key_ne simp_thms)
  qed
qed

text \<open>Any number of requests, one after another.\<close>

definition under_key :: "string \<Rightarrow> string \<Rightarrow> request list \<Rightarrow> bool" where
  "under_key t key rqs \<longleftrightarrow> (\<forall>rq \<in> set rqs. ctx_tenant rq = Some t \<and> header rq ''Idempotency-Key'' = key)"

lemma requests_held:
  assumes "key \<noteq> []"
  shows "under_key t key rqs \<Longrightarrow> kv_faults w = [] \<Longrightarrow> within idempotencyTTL w \<Longrightarrow> holds_key w (idem_key t key) v \<Longrightarrow>
    wp (run_all (map NewTriggerEvent rqs)) (\<lambda>rs w'. bus w' = bus w
      \<and> (\<forall>r \<in> set rs. status_of r = (if v = idempotencyPending then 409 else 202))) w"
proof (induction rqs arbitrary: w)
  case (Cons rq rqs)
  show ?case
    unfolding list.map run_all.simps wp_bind
  proof (rule wp_mono [OF wp_trigger_held [of rq t key w v]], goal_cases)
    case (7 r w')
    then have "wp (run_all (map NewTriggerEvent rqs)) (\<lambda>rs w''. bus w'' = bus w'
        \<and> (\<forall>r \<in> set rs. status_of r = (if v = idempotencyPending then 409 else 202))) w'"
      using Cons.prems by (intro Cons.IH) (auto simp: within_def holds_key_def under_key_def)
    then show ?case by (rule wp_mono) (use 7 in auto)
  qed (use Cons.prems assms in \<open>auto simp: under_key_def\<close>)
qed simp

definition published_once :: "string \<Rightarrow> request list \<Rightarrow> world \<Rightarrow> answer res list \<Rightarrow> world \<Rightarrow> bool" where
  "published_once t rqs w rs w' \<longleftrightarrow> (if \<exists>r \<in> set rs. status_of r = 202
     then \<exists>rq \<in> set rqs. \<exists>v. valid_trigger rq = Some v \<and> bus w' = bus w @ [(EventSubject t, encode_event (event_of t v))]
     else bus w' = bus w)"

lemma requests_free:
  assumes "key \<noteq> []"
  shows "under_key t key rqs \<Longrightarrow> kv_faults w = [] \<Longrightarrow> within idempotencyTTL w \<Longrightarrow> kv w (idem_key t key) = None \<Longrightarrow>
    wp (run_all (map NewTriggerEvent rqs)) (published_once t rqs w) w"
proof (induction rqs arbitrary: w)
  case (Cons rq rqs)
  have later: "under_key t key rqs" using Cons.prems(1) by (simp add: under_key_def)
  show ?case
    unfolding list.map run_all.simps wp_bind
  proof (rule wp_mono [OF wp_trigger_free [of rq t key w]], goal_cases)
    case (7 r w')
    then have s: "kv_faults w' = []" "within idempotencyTTL w'" by (auto simp: keyed_def key_story_def)
    show ?case
    proof (cases "status_of r = 202")
      case True
      with 7 have kept: "holds_key w' (idem_key t key) accepted_text" by (simp add: keyed_def key_story_def)
      show ?thesis
        by (rule wp_mono [OF requests_held [OF assms later s kept]])
          (use True 7 in \<open>auto simp: keyed_def published_once_def\<close>)
    next
      case False
      with 7 have n: "kv w' (idem_key t key) = None" "bus w' = bus w" by (simp_all add: keyed_def key_story_def)
      show ?thesis
        by (rule wp_mono [OF Cons.IH [OF later s n(1)]])
          (use False n in \<open>auto simp: published_once_def simp del: split_paired_Ex split: if_splits\<close>)
    qed
  qed (use Cons.prems assms in \<open>auto simp: under_key_def\<close>)
qed (simp add: published_once_def)

section \<open>Properties\<close>

text \<open>
  C18.
  Idempotent intake, with Redis up and within 24 hours: of any requests of a tenant under one
  fresh Idempotency-Key, whatever their bodies and whatever publishes fail, at most one event is
  published; one is when some request is answered 202, and it is the event of one of the requests.
  While the first is still being processed, a duplicate is answered 409 and publishes nothing.
\<close>

theorem idempotency_key_publishes_once:
  assumes same: "\<forall>rq \<in> set rqs. ctx_tenant rq = Some t \<and> header rq ''Idempotency-Key'' = key"
    and key: "key \<noteq> []" and up: "kv_faults w = []" "within idempotencyTTL w"
  shows "(kv w (idem_key t key) = None \<longrightarrow> wp (run_all (map NewTriggerEvent rqs))
      (\<lambda>rs w'. if \<exists>r \<in> set rs. status_of r = 202
        then \<exists>rq \<in> set rqs. \<exists>v. valid_trigger rq = Some v
          \<and> bus w' = bus w @ [(EventSubject t, encode_event (event_of t v))]
        else bus w' = bus w) w)
    \<and> (holds_key w (idem_key t key) idempotencyPending \<longrightarrow> wp (run_all (map NewTriggerEvent rqs))
      (\<lambda>rs w'. bus w' = bus w \<and> (\<forall>r \<in> set rs. status_of r = 409)) w)"
  using requests_free [OF key, of t rqs w] requests_held [OF key, of t rqs w idempotencyPending] same up
  by (simp add: under_key_def published_once_def [abs_def])

text \<open>The same request three times; the first publish fails.\<close>

definition keyed_request :: request where
  "keyed_request = sample_request\<lparr>ctx_tenant := Some ''t1'', rm_headers := [(''Idempotency-Key'', ''a'')],
     rm_body := Some (GObj [(''event'', GStr ''user.welcome''), (''subscriber_id'', GStr ''s1'')])\<rparr>"

definition intake_world :: world where
  "intake_world = (world0 sample_db)\<lparr>bus_faults := [True], clock := \<lambda>_. 0\<rparr>"

theorem idempotency_key_publishes_once_witness:
  "wp (run_all (map NewTriggerEvent [keyed_request, keyed_request, keyed_request]))
      (\<lambda>rs w'. if \<exists>r \<in> set rs. status_of r = 202
        then \<exists>rq \<in> set [keyed_request, keyed_request, keyed_request]. \<exists>v. valid_trigger rq = Some v
          \<and> bus w' = bus intake_world @ [(EventSubject ''t1'', encode_event (event_of ''t1'' v))]
        else bus w' = bus intake_world) intake_world"
  using idempotency_key_publishes_once [of "[keyed_request, keyed_request, keyed_request]" "''t1''" "''a''"
      intake_world]
  by (simp add: keyed_request_def header_def fold_eq_def within_def intake_world_def sample_defs
      idempotencyTTL_def)

text \<open>
  The intake without a key, on every branch: a body that is not JSON or lacks the event or the
  subscriber is answered 400 or 422 and publishes nothing; a valid one is answered 202 and puts on
  the tenant's subject one message, which the engine decodes to the same event with the tenant of
  the key, unless the bus fails, which is answered 500. No table changes.
\<close>

theorem intake_outcome:
  assumes "ctx_tenant rq = Some t" "header rq ''Idempotency-Key'' = []"
  shows "wp (NewTriggerEvent rq) (intake_spec t rq w) w"
proof (cases "valid_trigger rq")
  case None
  then show ?thesis
    unfolding NewTriggerEvent_def assms intake_def valid_trigger_def
    by (auto simp: releaseIdem_def intake_spec_def valid_trigger_def Let_def
        split: option.splits prod.splits if_splits)
next
  case (Some v)
  then obtain e x p where v: "v = (e, x, p)" "trigger_request (rm_body rq) = Some (e, x, p)"
    "e \<noteq> []" "x \<noteq> []"
    by (auto simp: valid_trigger_def split: option.splits prod.splits if_splits)
  then have "wp (intake t [] rq) (intake_spec t rq w) w"
    unfolding intake_def v(2) option.case prod.case if_not_P [OF v(3)] if_not_P [OF v(4)] wp_on_err
    by (intro wp_js_publish) (use Some in \<open>auto simp: releaseIdem_def intake_spec_def quietD event_decode\<close>)
  then show ?thesis by (simp add: NewTriggerEvent_def assms Let_def)
qed

theorem intake_outcome_witness:
  "wp (NewTriggerEvent (keyed_request\<lparr>rm_headers := []\<rparr>))
     (intake_spec ''t1'' (keyed_request\<lparr>rm_headers := []\<rparr>) intake_world) intake_world"
  by (rule intake_outcome) (simp_all add: keyed_request_def header_def)

end
