(* ===== verification/Api_Logic.thy ===== *)
theory Api_Logic
  imports Middleware Workers
begin

text \<open>
  What the handlers of the API share, and the reasoning about a whole request: the tenant
  transaction around a handler when the database has no fault, and what a handler that changes one
  table has to show.
\<close>

text \<open>The tenant of the request: the empty string when the context has none.\<close>

definition tenant_of :: "request \<Rightarrow> string" where
  "tenant_of rq = (case ctx_tenant rq of None \<Rightarrow> [] | Some t \<Rightarrow> t)"

lemma tenant_of_simp [simp]: "ctx_tenant rq = Some t \<Longrightarrow> tenant_of rq = t"
  by (simp add: tenant_of_def)

definition or_default :: "string \<Rightarrow> string \<Rightarrow> string" where
  "or_default d s = (if s = [] then d else s)"

text \<open>A value of the request over the stored one; the range of a column of type \<^verbatim>\<open>INT\<close>.\<close>

definition keep_or :: "'a \<Rightarrow> 'a option \<Rightarrow> 'a" where
  "keep_or x y = (case y of None \<Rightarrow> x | Some z \<Rightarrow> z)"

definition int4_ok :: "int \<Rightarrow> bool" where
  "int4_ok i \<longleftrightarrow> - (2 ^ 31) \<le> i \<and> i < 2 ^ 31"

text \<open>\<open>idle w\<close>: between two requests, with no fault due in the database or on the bus.\<close>

definition idle :: "world \<Rightarrow> bool" where
  "idle w \<longleftrightarrow> saved w = None \<and> db_faults w = [] \<and> bus_faults w = []"

lemma idle_world0 [simp]: "idle (world0 d)"
  by (simp add: idle_def world0_def saved_def)

text \<open>
  The transaction around a handler, without faults: what the handler achieves is kept when its
  answer is below 400, and undone otherwise.
\<close>

definition settled_db :: "answer res \<Rightarrow> db \<Rightarrow> db \<Rightarrow> db" where
  "settled_db r d d' = (if failed_answer r then d else d')"

lemma wp_TenantTx_running:
  assumes "ctx_tenant rq = Some t" "t \<noteq> []" "idle w"
    and "\<And>s. running t w s \<Longrightarrow> wp (h rq) (\<lambda>r s'. in_tx t (db w) s' \<and> healthy s'
      \<and> Q r (settled_db r (db w) (db s'))) s"
  shows "wp (TenantTx h rq) (\<lambda>r s'. idle s' \<and> Q r (db s')) w"
proof -
  have w: "saved w = None" "db_faults w = []" "bus_faults w = []" using assms(3) by (auto simp: idle_def)
  show ?thesis
    unfolding TenantTx_def using assms(1,2)
    apply (simp only: option.distinct option.inject simp_thms if_False option.sel wp_on_err)
    apply (rule wp_begin_tx [OF w(1)])
    subgoal using w by simp
    apply (simp only: sum.case wp_on_err)
    apply (rule wp_set_tenant, assumption)
    subgoal using w by (simp add: calm_def)
    subgoal premises p for s1 s2
    proof -
      have "running t w s2" using p w by (simp add: running_def healthy_def calm_def)
      from assms(4) [OF this] show ?thesis
        unfolding sum.case wp_on_err
      proof (rule wp_mono, goal_cases)
        case (1 r s')
        then have i: "in_tx t (db w) s'" "healthy s'" "Q r (settled_db r (db w) (db s'))" by auto
        show ?case
        proof (cases "failed_answer r")
          case True
          then show ?thesis using i
            by (auto simp: failed_answer_def settled_db_def wp_roll_back idle_def healthy_def saved_def
                split: sum.splits)
        next
          case False
          then obtain a where a: "r = Inr a" "rp_status a < 400"
            by (auto simp: failed_answer_def split: sum.splits)
          have "wp commit_tx (\<lambda>_ s'. idle s' \<and> Q r (db s')) s'"
            by (rule wp_commit_tx [OF i(1)])
              (use i False in \<open>auto simp: healthy_def idle_def saved_def quiet_def calm_def settled_db_def\<close>)
          with a show ?thesis by simp
        qed
      qed
    qed
    done
qed

text \<open>The same for every pattern of faults: the commit may fail after any answer.\<close>

lemma wp_TenantTx_any:
  assumes "ctx_tenant rq = Some t" "t \<noteq> []" "saved w = None"
    and "Q (Inr (http_error 500 ''internal error'')) (db w)"
    and "\<And>s. in_tx t (db w) s \<Longrightarrow> db s = db w \<Longrightarrow> wp (h rq) (\<lambda>r s'. in_tx t (db w) s'
      \<and> Q r (db w) \<and> (\<not> failed_answer r \<and> \<not> broken s' \<longrightarrow> Q r (db s'))) s"
  shows "wp (TenantTx h rq) (\<lambda>r s'. Q r (db s')) w"
  unfolding TenantTx_def using assms(1,2)
  apply (simp only: option.distinct option.inject simp_thms if_False option.sel wp_on_err)
  apply (rule wp_begin_tx [OF assms(3)])
  subgoal using assms(4) by (simp add: quietD(1))
  apply (simp only: sum.case wp_on_err)
  apply (rule wp_set_tenant, assumption)
  subgoal premises p for s1 s2
  proof -
    have "in_tx [] (db w) s2" using p(7,8) by (simp add: quiet_in_tx)
    then show ?thesis using assms(4) by (simp add: wp_roll_back)
  qed
  subgoal premises p for s1 s2
  proof -
    have "in_tx t (db w) s2" "db s2 = db w" using p by simp_all
    from assms(5) [OF this] show ?thesis
      unfolding sum.case wp_on_err
    proof (rule wp_mono, goal_cases)
      case (1 r s')
      then have i: "in_tx t (db w) s'" "Q r (db w)" "\<not> failed_answer r \<and> \<not> broken s' \<longrightarrow> Q r (db s')"
        by auto
      show ?case
      proof (cases r)
        case (Inl e)
        then show ?thesis using i by (simp add: wp_roll_back)
      next
        case (Inr a)
        have "wp commit_tx (\<lambda>_ s'. Q r (db s')) s'" if "\<not> failed_answer r"
          by (rule wp_commit_tx [OF i(1)]) (use i(2,3) that in \<open>auto simp: quietD(1)\<close>)
        then show ?thesis using Inr i by (auto simp: failed_answer_def wp_roll_back not_less)
      qed
    qed
  qed
  done

lemma failed_in_tx:
  "quiet s s' \<Longrightarrow> (saved s \<noteq> None \<longrightarrow> broken s') \<Longrightarrow> in_tx t d s \<Longrightarrow> in_tx t d s' \<and> broken s'"
  by (simp only: quiet_in_tx) (auto simp: in_tx_def saved_def)

text \<open>Statements of a handler in a transaction without faults.\<close>

lemma wp_healthy_stmt:
  assumes "healthy s" and "\<And>c. guc c = cur_guc s \<Longrightarrow> f c (db s) \<noteq> None"
    and "\<And>s' c d x. quiet s s' \<Longrightarrow> healthy s' \<Longrightarrow> guc c = cur_guc s \<Longrightarrow> f c (db s) = Some (d, x) \<Longrightarrow>
      Q (Inr x) (s'\<lparr>db := d\<rparr>)"
  shows "wp (db_stmt f) Q s"
proof (rule wp_stmt_strong, goal_cases)
  case (1 s')
  have False using 1(3) assms(1) assms(2) by (force simp: healthy_def)
  then show ?case ..
next
  case (2 s' c d x)
  then show ?case using assms(3) [OF 2(1) healthy_quiet [OF 2(1,4) assms(1)]] by simp
qed

lemma wp_healthy_exec:
  assumes "healthy s" and "\<And>c. guc c = cur_guc s \<Longrightarrow> f c (db s) \<noteq> None"
    and "\<And>s' c d. quiet s s' \<Longrightarrow> healthy s' \<Longrightarrow> guc c = cur_guc s \<Longrightarrow> f c (db s) = Some d \<Longrightarrow>
      Q (Inr ()) (s'\<lparr>db := d\<rparr>)"
  shows "wp (exec f) Q s"
  unfolding exec_def
  by (rule wp_healthy_stmt [OF assms(1)]) (use assms(2,3) in auto)

lemma wp_running_stmt:
  assumes "running t w s" and "\<And>c. guc c = t \<Longrightarrow> f c (db w) \<noteq> None"
    and "\<And>s' c d x. in_tx t (db w) s' \<Longrightarrow> healthy s' \<Longrightarrow> effects s' = effects w \<Longrightarrow> guc c = t \<Longrightarrow>
      f c (db w) = Some (d, x) \<Longrightarrow> db s' = d \<Longrightarrow> Q (Inr x) s'"
  shows "wp (db_stmt f) Q s"
proof (rule wp_healthy_stmt [OF runningD(1) [OF assms(1)]], goal_cases)
  case (1 c)
  then show ?case using assms(2) runningD(3,4) [OF assms(1)] by simp
next
  case (2 s' c d x)
  have "running t w s'" using 2(1,2) by (rule running_quiet [OF assms(1)])
  from runningD [OF this] show ?case
    using 2 assms(3) [of "s'\<lparr>db := d\<rparr>" c d x] runningD(3,4) [OF assms(1)] by simp
qed

lemma wp_running_exec:
  assumes "running t w s" and "\<And>c. guc c = t \<Longrightarrow> f c (db w) \<noteq> None"
    and "\<And>s' c d. in_tx t (db w) s' \<Longrightarrow> healthy s' \<Longrightarrow> effects s' = effects w \<Longrightarrow> guc c = t \<Longrightarrow>
      f c (db w) = Some d \<Longrightarrow> db s' = d \<Longrightarrow> Q (Inr ()) s'"
  shows "wp (exec f) Q s"
  unfolding exec_def
  by (rule wp_running_stmt [OF assms(1)]) (use assms(2,3) in auto)

section \<open>Rows found again after an update\<close>

lemma find_snoc: "find p (xs @ [y]) = (case find p xs of None \<Rightarrow> if p y then Some y else None | Some x \<Rightarrow> Some x)"
  by (induction xs) auto

lemma find_update_where:
  assumes "\<And>r. p (f r) = p r"
  shows "find p (update_where p f rs) = map_option f (find p rs)"
  using assms by (induction rs) (auto simp: update_where_def)

text \<open>
  A view of the tables that every step of \<open>fn\<close> preserves survives the transaction, whether it commits
  or rolls back.
\<close>

definition viewed :: "(db \<Rightarrow> 'v) \<Rightarrow> string \<Rightarrow> db \<Rightarrow> world \<Rightarrow> bool" where
  "viewed v t d0 s \<longleftrightarrow> in_tx t d0 s \<and> v (db s) = v d0"

lemma wp_RunInTenant_view:
  assumes "saved w = None"
    and "\<And>s. viewed v t (db w) s \<Longrightarrow> db s = db w \<Longrightarrow> wp fn (\<lambda>_. viewed v t (db w)) s"
  shows "wp (RunInTenant t fn) (\<lambda>_ s'. saved s' = None \<and> v (db s') = v (db w)) w"
proof (rule wp_RunInTenant [OF assms(1)], goal_cases)
  case (1 e s')
  then show ?case by (simp add: saved_def)
next
  case (2 s1)
  then have "viewed v t (db w) s1" by (simp add: viewed_def)
  from assms(2) [OF this 2(1)] show ?case
    by (rule wp_mono) (auto simp: viewed_def saved_def quietD(1) split: sum.splits)
qed

lemma keeps_view_stmt:
  assumes "\<And>c d d' x. guc c = t \<Longrightarrow> f c d = Some (d', x) \<Longrightarrow> v d' = v d"
  shows "keeps (viewed v t d0) (db_stmt f)"
proof (rule keeps_by_wp, rule wp_stmt, goal_cases)
  case (1 s s')
  then show ?case by (simp add: viewed_def quiet_in_tx quietD(1))
next
  case (2 s s' c d x)
  then have "v d = v (db s)" by (intro assms) (auto simp: viewed_def in_tx_guc)
  with 2 show ?case by (simp add: viewed_def quiet_in_tx)
qed

lemma keeps_view_exec:
  assumes "\<And>c d d'. guc c = t \<Longrightarrow> f c d = Some d' \<Longrightarrow> v d' = v d"
  shows "keeps (viewed v t d0) (exec f)"
  unfolding exec_def by (rule keeps_view_stmt) (use assms in auto)

lemma keeps_view_rest [keeps_rules]:
  "keeps (viewed v t d0) (query g)"
  "keeps (viewed v t d0) (query_row h)"
  "keeps (viewed v t d0) time_now"
  "keeps (viewed v t d0) (js_publish subj m)"
  by (rule keeps_by_wp, rule wp_query wp_query_row wp_time_now wp_js_publish;
      auto simp: viewed_def quiet_in_tx quietD(1))+

end
