(* ===== verification/Email_Events.thy ===== *)
theory Email_Events
  imports Api_Logic Preferences
begin

text \<open>
  \<^verbatim>\<open>platform/api/handler/webhooks.go\<close>: the callbacks of the e-mail providers, which turn bounces and
  complaints into suppressions. The handler answers 200 and leaves the work to a goroutine of its
  own; here it runs right after the decision, and no answer depends on it.
\<close>

fun map_member :: "gval \<Rightarrow> gmap option" where
  "map_member (GObj m) = Some m"
| "map_member _ = None"

fun str_member :: "gval \<Rightarrow> string" where
  "str_member (GStr s) = s"
| "str_member _ = []"

text \<open>The notification inside the SNS envelope, when there is one that parses.\<close>

definition unwrap_sns :: "env \<Rightarrow> gmap \<Rightarrow> gmap" where
  "unwrap_sns E m = (case obj_get m ''Message'' of
     GStr s \<Rightarrow> (case body_members (e_parse E s) of Some inner \<Rightarrow> inner | None \<Rightarrow> m)
   | _ \<Rightarrow> m)"

text \<open>The id of the first bounced recipient.\<close>

definition bounce_id :: "gmap \<Rightarrow> string" where
  "bounce_id m = (case map_member (obj_get m ''bounce'') of None \<Rightarrow> []
     | Some b \<Rightarrow> (case obj_get b ''bouncedRecipients'' of
         GArr (r # _) \<Rightarrow> (case map_member r of None \<Rightarrow> [] | Some r0 \<Rightarrow> str_member (obj_get r0 ''messageId''))
       | _ \<Rightarrow> []))"

definition mail_id :: "gmap \<Rightarrow> string" where
  "mail_id m = (case map_member (obj_get m ''mail'') of None \<Rightarrow> [] | Some x \<Rightarrow> str_member (obj_get x ''messageId''))"

definition extractEmailEvent :: "env \<Rightarrow> string \<Rightarrow> gmap \<Rightarrow> string \<times> string" where
  "extractEmailEvent E provider payload =
     (if provider = ''ses'' then
        let m = unwrap_sns E payload; k = str_member (obj_get m ''notificationType'') in
        if k = ''Bounce'' then (''bounced'', bounce_id m)
        else if k = ''Complaint'' then (''complained'', [])
        else if k = ''Delivery'' then (''delivered'', mail_id m)
        else ([], [])
      else if provider = ''resend'' then
        let i = str_member (obj_get payload ''email_id''); k = obj_get payload ''type'' in
        if k = GStr ''email.bounced'' then (''bounced'', i)
        else if k = GStr ''email.complained'' then (''complained'', i)
        else if k = GStr ''email.delivered'' then (''delivered'', i)
        else if k = GStr ''email.opened'' then (''opened'', i)
        else if k = GStr ''email.clicked'' then (''clicked'', i)
        else ([], [])
      else ([], []))"

section \<open>Processing\<close>

definition select_sent :: "db \<Rightarrow> string \<Rightarrow> string \<Rightarrow> (string \<times> string \<times> string) option" where
  "select_sent d mid prov = map_option (\<lambda>r. (nt_id r, nt_tenant r, nt_subscriber r))
     (find (\<lambda>r. nt_provider_msg r = Some mid \<and> nt_provider r = Some prov) (notifications d))"

definition plain_email :: "env \<Rightarrow> sctx \<Rightarrow> db \<Rightarrow> string \<Rightarrow> string option" where
  "plain_email E c d s = map_option
     (\<lambda>r. case sb_email r of None \<Rightarrow> [] | Some x \<Rightarrow> notify_decrypt E x)
     (find (\<lambda>r. sees c (sb_tenant r) \<and> sb_id r = s) (subscribers d))"

definition insert_delivery :: "sctx \<Rightarrow> db \<Rightarrow> string \<Rightarrow> string \<Rightarrow> string \<Rightarrow> string \<Rightarrow> int \<Rightarrow> db option" where
  "insert_delivery c d t nid et prov at =
     (if nid \<notin> nt_id ` set (notifications d) then None
      else Some (d\<lparr>deliveries := deliveries d @ [\<lparr>de_id = new_id c, de_tenant = t, de_notification = nid,
             de_type = et, de_provider = Some prov, de_response = GNil, de_at = at\<rparr>]\<rparr>))"

text \<open>Every error of these four statements is ignored.\<close>

definition email_event_tx :: "env \<Rightarrow> string \<Rightarrow> string \<Rightarrow> string \<Rightarrow> string \<Rightarrow> string \<Rightarrow> unit res app" where
  "email_event_tx E nid t s prov et = do {
     em \<leftarrow> query_row (\<lambda>c d. plain_email E c d s);
     now \<leftarrow> time_now;
     exec (\<lambda>c d. insert_delivery c d t nid et prov (now div 1000));
     (case em of Inl _ \<Rightarrow> ret ()
      | Inr plain \<Rightarrow> if et \<in> {''bounced'', ''complained''} \<and> plain \<noteq> []
          then do { exec (\<lambda>c d. insert_suppression c d t ''email'' (sha256_hex plain)
                 (if et = ''complained'' then ''spam_complaint'' else ''hard_bounce'')); ret () }
          else ret ());
     exec (\<lambda>c d. set_notification nid
       (\<lambda>r. r\<lparr>nt_status := (if et \<in> {''bounced'', ''complained''} then ''failed'' else et)\<rparr>) d);
     ret (Inr ()) }"

definition processEmailEvent :: "env \<Rightarrow> string \<Rightarrow> string \<Rightarrow> string \<Rightarrow> unit app" where
  "processEmailEvent E prov mid et = on_err (query_row (\<lambda>c d. select_sent d mid prov)) (\<lambda>_. ret ())
     (\<lambda>(nid, t, s). do { RunInTenant t (email_event_tx E nid t s prov et); ret () })"

definition InboundEmailWebhook :: "env \<Rightarrow> handler" where
  "InboundEmailWebhook E rq = (case body_members (rm_body rq) of
       None \<Rightarrow> fails 400 ''invalid json''
     | Some payload \<Rightarrow>
        let (et, mid) = extractEmailEvent E (URLParam rq ''provider'') payload in
        if et = [] \<or> mid = [] then answers (bare_answer 200)
        else do { processEmailEvent E (URLParam rq ''provider'') mid et; answers (bare_answer 200) })"

section \<open>Properties\<close>

text \<open>
  Complaints that SES reports are dropped: the code never reads a message id for them, so no
  notification of type Complaint, wrapped by SNS or not, changes anything.
\<close>
theorem ses_complaints_ignored:
  assumes "URLParam rq ''provider'' = ''ses''" "rm_body rq = Some (GObj m)"
    and "obj_get (unwrap_sns E m) ''notificationType'' = GStr ''Complaint''"
  shows "run_state (InboundEmailWebhook E rq) w = (Inr (bare_answer 200), w)"
  using assms by (simp add: InboundEmailWebhook_def extractEmailEvent_def Let_def)

definition ses_complaint :: request where
  "ses_complaint = sample_request\<lparr>rm_params := [(''provider'', ''ses'')],
     rm_body := Some (GObj [(''notificationType'', GStr ''Complaint''),
       (''mail'', GObj [(''messageId'', GStr ''m1'')])])\<rparr>"

theorem ses_complaints_ignored_witness:
  "run_state (InboundEmailWebhook sample_env ses_complaint) (world0 sample_db)
    = (Inr (bare_answer 200), world0 sample_db)"
  by (rule ses_complaints_ignored [where m = "[(''notificationType'', GStr ''Complaint''),
       (''mail'', GObj [(''messageId'', GStr ''m1'')])]"])
    (simp_all add: ses_complaint_def URLParam_def unwrap_sns_def obj_get_def)

lemma set_notification_bad_status:
  assumes "\<exists>r \<in> set (notifications d). nt_id r = nid" "x \<notin> set notification_statuses"
  shows "set_notification nid (\<lambda>r. r\<lparr>nt_status := x\<rparr>) d = None"
  using assms by (auto simp: set_notification_def list_all_iff in_update_where Let_def)

lemma select_sent_in: "select_sent d mid prov = Some (nid, t, s) \<Longrightarrow> \<exists>r \<in> set (notifications d). nt_id r = nid"
  by (auto simp: select_sent_def dest: find_Some_in)

text \<open>The statements before the status change keep the notifications.\<close>

definition same_notifs :: "string \<Rightarrow> db \<Rightarrow> world \<Rightarrow> bool" where
  "same_notifs t d0 s \<longleftrightarrow> in_tx t d0 s \<and> notifications (db s) = notifications d0"

lemma keeps_same_notifs:
  "keeps (same_notifs t d0) (query_row q)" "keeps (same_notifs t d0) time_now"
  "(\<And>c d d'. f c d = Some d' \<Longrightarrow> notifications d' = notifications d) \<Longrightarrow> keeps (same_notifs t d0) (exec f)"
  by (rule keeps_by_wp, rule wp_query_row wp_time_now wp_exec;
      auto simp: same_notifs_def quiet_in_tx quietD(1))+

lemma wp_email_event_tx_bad:
  assumes "same_notifs t' d0 s1" "\<exists>r \<in> set (notifications d0). nt_id r = nid"
    and "et \<notin> set notification_statuses" "et \<notin> {''bounced'', ''complained''}"
  shows "wp (email_event_tx E nid t s prov et) (\<lambda>r s'. in_tx t' d0 s' \<and> broken s' \<and> r = Inr ()) s1"
proof -
  have pre: "keeps (same_notifs t' d0) (do {
     em \<leftarrow> query_row (\<lambda>c d. plain_email E c d s);
     now \<leftarrow> time_now;
     exec (\<lambda>c d. insert_delivery c d t nid et prov (now div 1000)) })"
    by (intro keeps_rules keeps_same_notifs) (auto simp: insert_delivery_def split: if_splits)
  have last: "wp (exec (\<lambda>c d. set_notification nid (\<lambda>r. r\<lparr>nt_status := et\<rparr>) d))
      (\<lambda>_ s'. in_tx t' d0 s' \<and> broken s') s2" if "same_notifs t' d0 s2" for s2
  proof (rule wp_exec_strong, goal_cases)
    case (1 s')
    then show ?case using that failed_in_tx by (auto simp: same_notifs_def)
  next
    case (2 s' c d)
    then show ?case using that set_notification_bad_status [OF _ assms(3)] assms(2)
      by (simp add: same_notifs_def)
  qed
  from keeps_wp [OF pre assms(1)] assms(4) show ?thesis
    unfolding email_event_tx_def
    by (auto simp: wp_cases split: sum.splits elim!: wp_mono dest!: last)
qed

text \<open>
  Opens and clicks that Resend reports are lost, whatever fails or not: the status the code writes
  for them is not one the table admits, the failing update aborts the transaction, and with it goes
  the delivery event that was to be recorded. The database is the same after the callback as before.
\<close>

theorem opened_and_clicked_lost:
  assumes "saved w = None" "et \<in> {''opened'', ''clicked''}"
  shows "wp (processEmailEvent E prov mid et) (\<lambda>_ w'. db w' = db w \<and> saved w' = None) w"
  unfolding processEmailEvent_def wp_on_err
proof (rule wp_query_row, goal_cases)
  case (1 s e)
  then show ?case using assms(1) by (simp add: quietD)
next
  case (2 s c x)
  obtain nid t sid where x: "x = (nid, t, sid)" by (cases x)
  from 2 have some: "\<exists>r \<in> set (notifications (db s)). nt_id r = nid"
    using select_sent_in [of "db w" mid prov nid t sid] by (simp add: x quietD(1))
  have et: "et \<notin> set notification_statuses" "et \<notin> {''bounced'', ''complained''}"
    using assms(2) by (auto simp: notification_statuses_def)
  have "wp (RunInTenant t (email_event_tx E nid t sid prov et)) (\<lambda>_ w'. db w' = db s \<and> saved w' = None) s"
  proof (rule wp_RunInTenant, goal_cases)
    case 1
    then show ?case using 2(1) assms(1) by (simp add: quietD)
  next
    case (2 e s')
    then show ?case by (simp add: saved_def)
  next
    case (3 s1)
    then have "same_notifs t (db s) s1" by (simp add: same_notifs_def)
    from wp_email_event_tx_bad [OF this some et] show ?case
      by (rule wp_mono) (auto simp: saved_def)
  qed
  then show ?case using 2(1) by (simp add: x quietD(1))
qed

definition mailed_db :: db where
  "mailed_db = channel_db\<lparr>notifications := map (\<lambda>r. r\<lparr>nt_provider := Some ''resend'', nt_provider_msg := Some ''m1''\<rparr>)
     (notifications channel_db)\<rparr>"

theorem opened_and_clicked_lost_witness:
  "wp (processEmailEvent sample_env ''resend'' ''m1'' ''opened'')
     (\<lambda>_ w'. db w' = db (world0 mailed_db) \<and> saved w' = None) (world0 mailed_db)"
  by (rule opened_and_clicked_lost) (simp_all add: world0_def saved_def)

lemma guc_plain_email: "guc c = t \<Longrightarrow> plain_email E c d s = plain_email E (tctx t) d s"
  by (simp add: plain_email_def sees_def)

lemma insert_suppression_effect:
  assumes "insert_suppression c d t ch h x = Some d'"
  shows "deliveries d' = deliveries d" "notifications d' = notifications d"
    "sees c' t \<Longrightarrow> suppressed_in c' d' t ch h" "subscribers d' = subscribers d"
proof -
  show "deliveries d' = deliveries d" "notifications d' = notifications d" "subscribers d' = subscribers d"
    using assms by (auto simp: insert_suppression_def split: if_splits)
  show "suppressed_in c' d' t ch h" if "sees c' t"
  proof (cases "list_ex (\<lambda>r. su_tenant r = t \<and> su_channel r = ch \<and> su_hash r = h) (suppressions d)")
    case True
    then show ?thesis using assms that
      by (auto simp: insert_suppression_def suppressed_in_def list_ex_iff split: if_splits)
  next
    case False
    then show ?thesis using assms that
      by (auto simp: insert_suppression_def suppressed_in_def split: if_splits)
  qed
qed

lemma set_notification_failed:
  "set_notification nid (\<lambda>r. r\<lparr>nt_status := ''failed''\<rparr>) d
    = Some (d\<lparr>notifications := update_where (\<lambda>r. nt_id r = nid) (\<lambda>r. r\<lparr>nt_status := ''failed''\<rparr>) (notifications d)\<rparr>)"
  by (rule set_notification_Some) (simp_all add: notification_statuses_def)

text \<open>What a bounce or a complaint leaves behind.\<close>

definition bounced_state :: "string \<Rightarrow> string \<Rightarrow> string \<Rightarrow> string \<Rightarrow> db \<Rightarrow> db \<Rightarrow> bool" where
  "bounced_state t nid a et d d' \<longleftrightarrow> subscribers d' = subscribers d
     \<and> suppressed_in (tctx t) d' t ''email'' (hashValue a)
     \<and> notifications d' = update_where (\<lambda>r. nt_id r = nid) (\<lambda>r. r\<lparr>nt_status := ''failed''\<rparr>) (notifications d)
     \<and> (\<exists>e. deliveries d' = deliveries d @ [e]
         \<and> (de_tenant e, de_notification e, de_type e) = (t, nid, et))"

lemma wp_bounce_updates:
  assumes s: "in_tx t d0 s" "healthy s" "effects s = effects w"
    and d: "db s = d0\<lparr>deliveries := deliveries d0 @ [e]\<rparr>" "(de_tenant e, de_notification e, de_type e) = (t, nid, et)"
    and t: "t \<noteq> []" "t \<in> tn_id ` set (tenants d0)" and et: "et \<in> {''bounced'', ''complained''}"
  shows "wp (exec (\<lambda>c d. insert_suppression c d t ''email'' (sha256_hex a)
      (if et = ''complained'' then ''spam_complaint'' else ''hard_bounce'')))
    (\<lambda>_. wp (exec (\<lambda>c d. set_notification nid
       (\<lambda>r. r\<lparr>nt_status := (if et \<in> {''bounced'', ''complained''} then ''failed'' else et)\<rparr>) d))
     (\<lambda>_ s'. in_tx t d0 s' \<and> healthy s' \<and> effects s' = effects w \<and> bounced_state t nid a et d0 (db s'))) s"
proof (rule wp_healthy_exec [OF s(2)], goal_cases)
  case (1 c)
  then have "sees c t" using t(1) in_tx_guc [OF s(1)] by (simp add: sees_def)
  then show ?case using t(2) d(1) by (auto simp: insert_suppression_def channels_def suppression_reasons_def)
next
  case (2 s4 c' d2)
  have eff: "in_tx t d0 s4" "effects s4 = effects w"
    using s(1,3) quiet_in_tx [OF 2(1)] quiet_effects [OF 2(1)] by simp_all
  have d2: "deliveries d2 = deliveries d0 @ [e]" "notifications d2 = notifications d0" "subscribers d2 = subscribers d0"
    "suppressed_in (tctx t) d2 t ''email'' (hashValue a)"
    using insert_suppression_effect [OF 2(4)] insert_suppression_effect(3) [OF 2(4), of "tctx t"] t(1) d(1)
    by (simp_all add: sees_def hashValue_def)
  show ?case
  proof (rule wp_healthy_exec, goal_cases)
    case 1
    then show ?case using 2(2) by simp
  next
    case (2 c)
    then show ?case using et by (auto simp: set_notification_failed)
  next
    case (3 s5 c3 d3)
    then have "d3 = d2\<lparr>notifications := update_where (\<lambda>r. nt_id r = nid)
        (\<lambda>r. r\<lparr>nt_status := ''failed''\<rparr>) (notifications d2)\<rparr>"
      using et by (auto simp: set_notification_failed)
    then have "bounced_state t nid a et d0 d3" using d(2) d2 by (auto simp: bounced_state_def suppressed_in_def)
    then show ?case using 3(2) eff by (simp add: quiet_in_tx [OF 3(1)] quiet_effects [OF 3(1)])
  qed
qed

lemma wp_email_event_tx_bounce:
  assumes run: "running t w s" and t: "t \<noteq> []" "t \<in> tn_id ` set (tenants (db w))"
    and nid: "nid \<in> nt_id ` set (notifications (db w))"
    and a: "plain_email E (tctx t) (db w) sid = Some a" "a \<noteq> []" and et: "et \<in> {''bounced'', ''complained''}"
  shows "wp (email_event_tx E nid t sid prov et) (\<lambda>r s'. in_tx t (db w) s' \<and> healthy s'
    \<and> effects s' = effects w \<and> r = Inr () \<and> bounced_state t nid a et (db w) (db s')) s"
  unfolding email_event_tx_def wp_bind
proof (rule wp_running_query_row [OF run, where x = a], goal_cases)
  case (1 c)
  then show ?case using a(1) guc_plain_email [OF 1, of E "db w" sid] by metis
next
  case (2 s1)
  show ?case
  proof (rule wp_time_now_clock, goal_cases)
    case (1 n s2)
    have "healthy s2" by (rule healthy_quiet [OF 1 runningD(1) [OF 2]])
    with 2 1(1) have r2: "running t w s2" by (intro running_quiet [OF 2])
    show ?case
    proof (rule wp_running_exec [OF r2], goal_cases)
      case (1 c)
      then show ?case using nid by (simp add: insert_delivery_def)
    next
      case (2 s3 c d1)
      then obtain e where d1: "d1 = (db w)\<lparr>deliveries := deliveries (db w) @ [e]\<rparr>"
          "(de_tenant e, de_notification e, de_type e) = (t, nid, et)"
        using nid by (auto simp: insert_delivery_def)
      note s3 = 2(1-3,6)
      have "wp (exec (\<lambda>c d. insert_suppression c d t ''email'' (sha256_hex a)
            (if et = ''complained'' then ''spam_complaint'' else ''hard_bounce'')))
          (\<lambda>_. wp (exec (\<lambda>c d. set_notification nid
             (\<lambda>r. r\<lparr>nt_status := (if et \<in> {''bounced'', ''complained''} then ''failed'' else et)\<rparr>) d))
             (\<lambda>_ s'. in_tx t (db w) s' \<and> healthy s' \<and> effects s' = effects w
               \<and> bounced_state t nid a et (db w) (db s'))) s3"
        by (rule wp_bounce_updates [OF s3(1-3) _ d1(2) t et]) (simp add: s3(4) d1(1))
      then show ?case using a(2) et by (auto elim!: wp_mono)
    qed
  qed
qed



end
