(* ===== verification/Subscribers_Api.thy ===== *)
theory Subscribers_Api
  imports Api_Logic Preferences
begin

text \<open>
  \<^verbatim>\<open>platform/api/handler/subscribers.go\<close>: subscribers, their preferences, the unsubscribe link, the
  erasure and the export of personal data. Encryption is \<^verbatim>\<open>pgp_sym_encrypt\<close>, the function
  \<open>e_encrypt\<close> of the environment, with the fresh id of its statement as the session randomness.
\<close>

section \<open>Creating\<close>

record new_subscriber =
  ns_external :: string
  ns_email :: string
  ns_phone :: string
  ns_whatsapp :: string
  ns_locale :: string
  ns_timezone :: string
  ns_metadata :: "gmap option"

definition subscriber_request :: "gval option \<Rightarrow> new_subscriber option" where
  "subscriber_request b = (case body_members b of None \<Rightarrow> None
     | Some m \<Rightarrow> (case (jstr m ''external_id'', jstr m ''email'', jstr m ''phone'', jstr m ''whatsapp_id'') of
         (Some x, Some e, Some p, Some wa) \<Rightarrow>
           (case (jstr m ''locale'', jstr m ''timezone'', pmap m ''metadata'') of
              (Some l, Some z, Some md) \<Rightarrow> Some \<lparr>ns_external = x, ns_email = e, ns_phone = p,
                ns_whatsapp = wa, ns_locale = l, ns_timezone = z, ns_metadata = md\<rparr>
            | _ \<Rightarrow> None)
       | _ \<Rightarrow> None))"

text \<open>A value that cannot be encrypted is left out of the row.\<close>

definition encrypt_field :: "env \<Rightarrow> string \<Rightarrow> string option app" where
  "encrypt_field E v = (if v = [] then ret None
     else on_err (query (\<lambda>c d. e_encrypt E (new_id c) v (e_key E))) (\<lambda>_. ret None) (\<lambda>x. ret (Some x)))"

definition insert_subscriber :: "sctx \<Rightarrow> db \<Rightarrow> subscriber_row \<Rightarrow> (db \<times> string) option" where
  "insert_subscriber c d r =
     (if \<not> sees c (sb_tenant r) \<or> sb_tenant r \<notin> tn_id ` set (tenants d)
         \<or> list_ex (\<lambda>q. sb_tenant q = sb_tenant r \<and> sb_external q = sb_external r) (subscribers d)
         \<or> sb_id r \<in> sb_id ` set (subscribers d) then None
      else Some (d\<lparr>subscribers := subscribers d @ [r]\<rparr>, sb_id r))"

definition subscriber_of :: "string \<Rightarrow> new_subscriber \<Rightarrow> string option \<Rightarrow> string option \<Rightarrow> sctx \<Rightarrow> subscriber_row" where
  "subscriber_of t n em ph c = \<lparr>sb_id = new_id c, sb_tenant = t, sb_external = ns_external n,
     sb_email = em, sb_phone = ph, sb_whatsapp = nilIfEmpty (ns_whatsapp n), sb_push = GArr [],
     sb_locale = or_default ''en'' (ns_locale n), sb_timezone = or_default ''UTC'' (ns_timezone n),
     sb_metadata = GObj (case ns_metadata n of None \<Rightarrow> [] | Some m \<Rightarrow> m), sb_deleted = False,
     sb_created = db_now c\<rparr>"

definition CreateSubscriber :: "env \<Rightarrow> handler" where
  "CreateSubscriber E rq = (case subscriber_request (rm_body rq) of
       None \<Rightarrow> fails 400 ''invalid json''
     | Some n \<Rightarrow> if ns_external n = [] then fails 422 ''external_id is required''
        else do {
          em \<leftarrow> encrypt_field E (ns_email n);
          ph \<leftarrow> encrypt_field E (ns_phone n);
          on_err (db_stmt (\<lambda>c d. insert_subscriber c d (subscriber_of (tenant_of rq) n em ph c)))
            (\<lambda>_. fails 500 ''create failed'')
            (\<lambda>i. answers (json_answer 201 (GObj [(''id'', GStr i)]))) })"

section \<open>Reading\<close>

text \<open>\<^verbatim>\<open>subscriberRow\<close>.\<close>

definition subscriber_json :: "subscriber_row \<Rightarrow> gval" where
  "subscriber_json r = GObj [(''id'', GStr (sb_id r)), (''external_id'', GStr (sb_external r)),
     (''locale'', GStr (sb_locale r)), (''timezone'', GStr (sb_timezone r)),
     (''metadata'', json_map (sb_metadata r)), (''is_deleted'', GBool (sb_deleted r)),
     (''created_at'', json_time (sb_created r))]"

definition live_subscribers :: "sctx \<Rightarrow> db \<Rightarrow> string \<Rightarrow> subscriber_row list" where
  "live_subscribers c d t =
     filter (\<lambda>r. sees c (sb_tenant r) \<and> sb_tenant r = t \<and> \<not> sb_deleted r) (subscribers d)"

definition ListSubscribers :: handler where
  "ListSubscribers rq = do {
     n \<leftarrow> query (\<lambda>c d. length (live_subscribers c d (tenant_of rq)));
     on_err (query (\<lambda>c d. page rq (newest_first sb_created (live_subscribers c d (tenant_of rq)))))
       (\<lambda>_. fails 500 ''query failed'')
       (\<lambda>rs. answers (json_answer 200 (GObj [(''subscribers'', GArr (map subscriber_json rs)),
          (''total'', GInt64 (case n of Inl _ \<Rightarrow> 0 | Inr k \<Rightarrow> int k))]))) }"

definition find_subscriber :: "sctx \<Rightarrow> db \<Rightarrow> string \<Rightarrow> string \<Rightarrow> subscriber_row option" where
  "find_subscriber c d t s = find (\<lambda>r. sees c (sb_tenant r) \<and> sb_id r = s \<and> sb_tenant r = t) (subscribers d)"

definition GetSubscriber :: handler where
  "GetSubscriber rq =
     on_err (query_row (\<lambda>c d. find_subscriber c d (tenant_of rq) (URLParam rq ''subscriberID'')))
       (\<lambda>_. fails 404 ''not found'') (\<lambda>r. answers (json_answer 200 (subscriber_json r)))"

definition preference_rows :: "sctx \<Rightarrow> db \<Rightarrow> string \<Rightarrow> string \<Rightarrow> preference_row list" where
  "preference_rows c d t s =
     filter (\<lambda>r. sees c (pf_tenant r) \<and> pf_tenant r = t \<and> pf_subscriber r = s) (preferences d)"

definition preference_json :: "preference_row \<Rightarrow> gval" where
  "preference_json r = GObj [(''channel'', GStr (pf_channel r)), (''category'', GStr (pf_category r)),
     (''is_opted_in'', GBool (pf_opted_in r))]"

definition GetPreferences :: handler where
  "GetPreferences rq =
     on_err (query (\<lambda>c d. preference_rows c d (tenant_of rq) (URLParam rq ''subscriberID'')))
       (\<lambda>_. fails 500 ''query failed'')
       (\<lambda>rs. answers (json_answer 200 (GObj [(''preferences'', GArr (map preference_json rs))])))"

text \<open>\<^verbatim>\<open>consent.Item\<close>.\<close>

definition consent_json :: "consent_row \<Rightarrow> gval" where
  "consent_json r = GObj ([(''channel'', GStr (cl_channel r)), (''category'', GStr (cl_category r)),
     (''opted_in'', GBool (cl_opted_in r)), (''source'', GStr (cl_source r))]
     @ omit_opt ''purpose'' (cl_purpose r) @ omit_opt ''version'' (cl_version r)
     @ omit_opt ''actor'' (cl_actor r) @ [(''created_at'', json_time (cl_created r))])"

definition profile_json :: "env \<Rightarrow> subscriber_row \<Rightarrow> gval" where
  "profile_json E r = GObj [(''created_at'', json_time (sb_created r)),
     (''email'', json_opt (map_option (notify_decrypt E) (sb_email r))),
     (''external_id'', GStr (sb_external r)), (''id'', GStr (sb_id r)),
     (''is_deleted'', GBool (sb_deleted r)), (''locale'', GStr (sb_locale r)),
     (''metadata'', json_map (sb_metadata r)),
     (''phone'', json_opt (map_option (notify_decrypt E) (sb_phone r))),
     (''timezone'', GStr (sb_timezone r)), (''whatsapp_id'', json_opt (sb_whatsapp r))]"

definition ExportSubscriberData :: "env \<Rightarrow> handler" where
  "ExportSubscriberData E rq = (let t = tenant_of rq; s = URLParam rq ''subscriberID'' in
     on_err (query_row (\<lambda>c d. find_subscriber c d t s)) (\<lambda>_. fails 404 ''not found'') (\<lambda>r. do {
       ps \<leftarrow> query (\<lambda>c d. preference_rows c d t s);
       on_err (History t s) (\<lambda>_. fails 500 ''query failed'')
         (\<lambda>h. answers (json_answer 200 (GObj [(''consent_history'', GArr (map consent_json h)),
            (''preferences'', GArr (map preference_json (case ps of Inl _ \<Rightarrow> [] | Inr x \<Rightarrow> x))),
            (''subscriber'', profile_json E r)]))) }))"

section \<open>Changing\<close>

definition DeleteSubscriber :: handler where
  "DeleteSubscriber rq = on_err (EraseSubscriber (tenant_of rq) (URLParam rq ''subscriberID''))
     (\<lambda>_. fails 500 ''erasure failed'') (\<lambda>_. answers (bare_answer 204))"

definition set_subscriber :: "sctx \<Rightarrow> db \<Rightarrow> string \<Rightarrow> string \<Rightarrow> string \<Rightarrow> string \<Rightarrow> gval \<Rightarrow> db" where
  "set_subscriber c d t s locale tz meta = d\<lparr>subscribers := update_where
     (\<lambda>r. sees c (sb_tenant r) \<and> sb_id r = s \<and> sb_tenant r = t)
     (\<lambda>r. r\<lparr>sb_locale := locale, sb_timezone := tz, sb_metadata := meta\<rparr>) (subscribers d)\<rparr>"

text \<open>
  Merging into the stored metadata panics when it is not an object and there is a member to merge.
\<close>

definition UpdateSubscriber :: handler where
  "UpdateSubscriber rq = (let t = tenant_of rq; s = URLParam rq ''subscriberID'' in
     case body_members (rm_body rq) of None \<Rightarrow> fails 400 ''invalid json''
     | Some m \<Rightarrow> (case (pstr m ''locale'', pstr m ''timezone'', pmap m ''metadata'') of
         (Some l, Some z, Some md) \<Rightarrow>
           on_err (query_row (\<lambda>c d. find_subscriber c d t s)) (\<lambda>_. fails 404 ''not found'') (\<lambda>cur.
             let new = (case md of None \<Rightarrow> [] | Some x \<Rightarrow> x) in
             if new \<noteq> [] \<and> column_map (sb_metadata cur) = None then ret (Inl nil_map_write)
             else let meta = (case column_map (sb_metadata cur) of None \<Rightarrow> GNil | Some x \<Rightarrow> GObj (x @ new)) in
               on_err (exec (\<lambda>c d. Some (set_subscriber c d t s
                   (case l of None \<Rightarrow> sb_locale cur | Some x \<Rightarrow> x)
                   (case z of None \<Rightarrow> sb_timezone cur | Some x \<Rightarrow> x) meta)))
                 (\<lambda>_. fails 500 ''update failed'')
                 (\<lambda>_. answers (json_answer 200 (GObj [(''id'', GStr s)]))))
       | _ \<Rightarrow> fails 400 ''invalid json''))"

record pref_item =
  pi_channel :: string
  pi_category :: string
  pi_opted_in :: bool

fun decode_pref :: "gval \<Rightarrow> pref_item option" where
  "decode_pref GNil = Some \<lparr>pi_channel = [], pi_category = [], pi_opted_in = False\<rparr>"
| "decode_pref (GObj m) = (case (jstr m ''channel'', jstr m ''category'', jbool m ''is_opted_in'') of
     (Some ch, Some ca, Some b) \<Rightarrow> Some \<lparr>pi_channel = ch, pi_category = ca, pi_opted_in = b\<rparr>
   | _ \<Rightarrow> None)"
| "decode_pref _ = None"

definition preferences_request :: "gval option \<Rightarrow> pref_item list option" where
  "preferences_request b = (case body_members b of None \<Rightarrow> None
     | Some m \<Rightarrow> (case parr m ''preferences'' of None \<Rightarrow> None | Some None \<Rightarrow> Some []
         | Some (Some vs) \<Rightarrow> decode_list decode_pref vs))"

definition pref_row_of :: "string \<Rightarrow> string \<Rightarrow> pref_item \<Rightarrow> preference_row" where
  "pref_row_of t s p = \<lparr>pf_tenant = t, pf_subscriber = s, pf_channel = pi_channel p,
     pf_category = or_default ''all'' (pi_category p), pf_opted_in = pi_opted_in p\<rparr>"

definition pref_entry :: "string \<Rightarrow> string \<Rightarrow> string \<Rightarrow> string \<Rightarrow> pref_item \<Rightarrow> entry" where
  "pref_entry t s actor ip p = \<lparr>ce_tenant = t, ce_subscriber = s, ce_channel = pi_channel p,
     ce_category = or_default ''all'' (pi_category p), ce_opted_in = pi_opted_in p, ce_source = ''api'',
     ce_purpose = [], ce_version = [], ce_actor = actor, ce_ip = ip\<rparr>"

text \<open>The loop, which returns at the first failing upsert and ignores a failing ledger entry.\<close>

fun update_prefs :: "string \<Rightarrow> string \<Rightarrow> string \<Rightarrow> string \<Rightarrow> pref_item list \<Rightarrow> answer res app" where
  "update_prefs t s actor ip [] = answers (json_answer 200 (GObj [(''status'', GStr ''updated'')]))"
| "update_prefs t s actor ip (p # ps) =
     (if pi_channel p = [] then update_prefs t s actor ip ps
      else on_err (exec (\<lambda>c d. upsert_preference c d (pref_row_of t s p)))
        (\<lambda>_. fails 500 ''update failed'')
        (\<lambda>_. do { consent_Record (pref_entry t s actor ip p); update_prefs t s actor ip ps }))"

definition UpdatePreferences :: handler where
  "UpdatePreferences rq = (case preferences_request (rm_body rq) of
       None \<Rightarrow> fails 400 ''invalid json''
     | Some ps \<Rightarrow> update_prefs (tenant_of rq) (URLParam rq ''subscriberID'')
         (snd (ActorFromContext rq)) (ClientIP rq) ps)"

section \<open>The unsubscribe link\<close>

definition link_entry :: "string \<Rightarrow> string \<Rightarrow> string \<Rightarrow> string \<Rightarrow> entry" where
  "link_entry t s ch ip = \<lparr>ce_tenant = t, ce_subscriber = s, ce_channel = ch, ce_category = ''all'',
     ce_opted_in = False, ce_source = ''unsubscribe_link'', ce_purpose = [], ce_version = [],
     ce_actor = ''subscriber'', ce_ip = ip\<rparr>"

definition unsubscribed_text :: string where
  "unsubscribed_text = ''{'' @ quoted ''status'' @ '':'' @ quoted ''unsubscribed'' @ ''}''"

definition UnsubscribeLink :: handler where
  "UnsubscribeLink rq = (let t = query_get rq ''tenant_id''; s = query_get rq ''subscriber_id'';
       ch = or_default ''all'' (query_get rq ''channel'') in
     if t = [] \<or> s = [] then fails 400 ''missing params''
     else on_err (RunInTenant t (and_then (Unsubscribe t s ch)
         (\<lambda>_. do { consent_Record (link_entry t s ch (ClientIP rq)); ret (Inr ()) })))
       (\<lambda>_. fails 500 ''unsubscribe failed'')
       (\<lambda>_. answers \<lparr>rp_status = 200, rp_headers = json_header, rp_body = Text unsubscribed_text\<rparr>))"

section \<open>Confinement\<close>

lemma others_upsert_preference:
  "upsert_preference c d r = Some d' \<Longrightarrow> guc c = t \<Longrightarrow> others t d' = others t d"
  by (auto simp: upsert_preference_def others_def sees_def pref_key_def split: if_splits
      intro!: filter_update_where)

lemma others_insert_consent: "insert_consent c d e = Some d' \<Longrightarrow> guc c = t \<Longrightarrow> others t d' = others t d"
  by (auto simp: insert_consent_def others_def sees_def consent_of_def split: if_splits)

lemma others_insert_subscriber:
  "insert_subscriber c d r = Some (d', i) \<Longrightarrow> guc c = t \<Longrightarrow> others t d' = others t d"
  by (auto simp: insert_subscriber_def others_def sees_def split: if_splits)

lemma others_set_subscriber: "guc c = t \<Longrightarrow> others t (set_subscriber c d t' s l z m) = others t d"
  by (auto simp: set_subscriber_def others_def sees_def intro!: filter_update_where)

lemma others_erase:
  "guc c = t \<Longrightarrow> others t (d\<lparr>subscribers := update_where
     (\<lambda>r. sees c (sb_tenant r) \<and> sb_id r = sid \<and> sb_tenant r = t') erase_row (subscribers d)\<rparr>) = others t d"
  by (auto simp: others_def sees_def erase_row_def intro!: filter_update_where)

lemma keeps_confined_consent [keeps_rules]: "keeps (confined t d0) (consent_Record e)"
  unfolding consent_Record_def
  by (intro keeps_rules keeps_confined_exec) (rule others_insert_consent)

lemma keeps_confined_encrypt [keeps_rules]: "keeps (confined t d0) (encrypt_field E v)"
  unfolding encrypt_field_def by (intro keeps_rules)

lemma keeps_confined_prefs [keeps_rules]: "keeps (confined t d0) (update_prefs t' s a ip ps)"
proof (induction ps)
  case (Cons p ps)
  then show ?case
    unfolding update_prefs.simps
    by (intro keeps_rules keeps_confined_exec) (auto dest: others_upsert_preference)
qed (simp add: keeps_rules)

lemma keeps_confined_History [keeps_rules]: "keeps (confined t d0) (History t' s)"
  unfolding History_def by (intro keeps_rules)

interpretation create_subscriber: tenant_handler "CreateSubscriber E"
  by unfold_locales (auto simp: CreateSubscriber_def dest: others_insert_subscriber
      intro!: keeps_rules keeps_confined_stmt split: option.splits)

interpretation list_subscribers: tenant_handler ListSubscribers
  by unfold_locales (auto simp: ListSubscribers_def intro!: keeps_rules)

interpretation get_subscriber: tenant_handler GetSubscriber
  by unfold_locales (auto simp: GetSubscriber_def intro!: keeps_rules)

interpretation get_preferences: tenant_handler GetPreferences
  by unfold_locales (auto simp: GetPreferences_def intro!: keeps_rules)

interpretation export_subscriber: tenant_handler "ExportSubscriberData E"
  by unfold_locales (auto simp: ExportSubscriberData_def Let_def intro!: keeps_rules)

interpretation delete_subscriber: tenant_handler DeleteSubscriber
  by unfold_locales (auto simp: DeleteSubscriber_def EraseSubscriber_def others_erase
      intro!: keeps_rules keeps_confined_exec)

interpretation update_subscriber: tenant_handler UpdateSubscriber
  by unfold_locales (auto simp: UpdateSubscriber_def Let_def others_set_subscriber
      intro!: keeps_rules keeps_confined_exec split: option.splits)

interpretation update_preferences: tenant_handler UpdatePreferences
  by unfold_locales (auto simp: UpdatePreferences_def intro!: keeps_rules split: option.splits)

section \<open>Properties\<close>

lemma insert_consent_effect:
  assumes "insert_consent c d e = Some d'"
  shows "consents d' = consents d @ [consent_of c e]" "preferences d' = preferences d"
  using assms by (auto simp: insert_consent_def split: if_splits)

lemma upsert_effect: "upsert_preference c d r = Some d' \<Longrightarrow> consents d' = consents d"
  by (auto simp: upsert_preference_def split: if_splits)

text \<open>
  C20.
  The unsubscribe link is all or nothing, for every pattern of database failures: an answer 200
  means the opt-out of the channel is stored and the consent ledger has exactly one new entry for
  it; any other answer leaves the database as it was. So a ledger entry, although its error is
  ignored, is never missing beside a stored opt-out: its failure undoes the opt-out too.
\<close>

theorem unsubscribe_link_atomic:
  assumes "saved w = None" "query_get rq ''tenant_id'' = t" "query_get rq ''subscriber_id'' = s"
    and "t \<noteq> []" "s \<noteq> []" "or_default ''all'' (query_get rq ''channel'') = ch"
  shows "wp (UnsubscribeLink rq) (\<lambda>r w'. if status_of r = 200
      then pref_row (db w') t s ch ''all'' = Some False \<and> (\<exists>e. consents (db w') = consents (db w) @ [e]
        \<and> (cl_tenant e, cl_subscriber e, cl_channel e) = (t, s, ch) \<and> \<not> cl_opted_in e
        \<and> cl_source e = ''unsubscribe_link'')
      else status_of r = 500 \<and> db w' = db w) w"
proof -
  have no: "\<not> (t = [] \<or> s = [])" using assms(4,5) by simp
  show ?thesis
    unfolding UnsubscribeLink_def Let_def assms(2,3,6) if_not_P [OF no] wp_on_err
  proof (rule wp_RunInTenant [OF assms(1)], goal_cases)
    case (1 e s')
    then show ?case by simp
  next
    case (2 s1)
    show ?case
      unfolding wp_and_then Unsubscribe_def
    proof (rule wp_exec_strong, goal_cases)
      case (1 s2)
      then show ?case using 2(5) by (simp add: quiet_in_tx)
    next
      case (2 s2 c d)
      note up = 2
      have tx: "in_tx t (db w) s2" using 2(1) \<open>in_tx t (db w) s1\<close> by (simp add: quiet_in_tx)
      have row: "pref_row d t s ch ''all'' = Some False" "consents d = consents (db w)"
        using pref_row_upsert [OF up(5)] upsert_effect [OF up(5)] \<open>db s1 = db w\<close>
        by (simp_all add: pref_key_def)
      show ?case
        unfolding sum.case wp_bind consent_Record_def wp_on_err
      proof (rule wp_exec_strong, goal_cases)
        case (1 s3)
        have "in_tx t (db w) s3" using tx by (simp only: quiet_in_tx [OF 1(1)] in_tx_update)
        moreover have "saved s2 = Some (db w)" using tx by (simp only: in_tx_iff)
        ultimately show ?case using 1(2) by (auto simp: saved_def)
      next
        case (2 s3 c' d')
        then show ?case using tx row insert_consent_effect [of c' d _ d']
          by (auto simp: quiet_in_tx quietD(1) pref_row_def consent_of_def link_entry_def)
      qed
    qed
  qed
qed

definition link_request :: request where
  "link_request = sample_request\<lparr>rm_query := [(''tenant_id'', ''t1''), (''subscriber_id'', ''s1''),
     (''channel'', ''sms'')]\<rparr>"

theorem unsubscribe_link_atomic_witness:
  "wp (UnsubscribeLink link_request) (\<lambda>r w'. if status_of r = 200
      then pref_row (db w') ''t1'' ''s1'' ''sms'' ''all'' = Some False
        \<and> (\<exists>e. consents (db w') = consents (db (world0 sample_db)) @ [e]
        \<and> (cl_tenant e, cl_subscriber e, cl_channel e) = (''t1'', ''s1'', ''sms'') \<and> \<not> cl_opted_in e
        \<and> cl_source e = ''unsubscribe_link'')
      else status_of r = 500 \<and> db w' = db (world0 sample_db)) (world0 sample_db)"
  by (rule unsubscribe_link_atomic)
    (simp_all add: link_request_def query_get_def or_default_def sample_defs saved_def)

text \<open>
  What a list of preference items stores: the last item for a channel and category wins, and the
  ledger has one entry per item, in their order.
\<close>

definition item_key :: "pref_item \<Rightarrow> string \<times> string" where
  "item_key p = (pi_channel p, or_default ''all'' (pi_category p))"

definition prefs_stored :: "string \<Rightarrow> string \<Rightarrow> pref_item list \<Rightarrow> db \<Rightarrow> db \<Rightarrow> bool" where
  "prefs_stored t s ps d d' \<longleftrightarrow> (let qs = filter (\<lambda>p. pi_channel p \<noteq> []) ps in
     (\<exists>new. consents d' = consents d @ new
        \<and> map (\<lambda>e. (cl_tenant e, cl_subscriber e, cl_channel e, cl_category e, cl_opted_in e)) new
          = map (\<lambda>p. (t, s, fst (item_key p), snd (item_key p), pi_opted_in p)) qs)
     \<and> (\<forall>ch cat. pref_row d' t s ch cat = (case find (\<lambda>p. item_key p = (ch, cat)) (rev qs) of
          Some p \<Rightarrow> Some (pi_opted_in p) | None \<Rightarrow> pref_row d t s ch cat)))"

lemma prefs_stored_Nil: "prefs_stored t s [] d d"
  by (simp add: prefs_stored_def)

lemma prefs_stored_skip: "pi_channel p = [] \<Longrightarrow> prefs_stored t s (p # ps) d d' = prefs_stored t s ps d d'"
  by (simp add: prefs_stored_def)

lemma prefs_stored_step:
  assumes "pi_channel p \<noteq> []" "upsert_preference c d (pref_row_of t s p) = Some d1"
    and "insert_consent c' d1 (pref_entry t s actor ip p) = Some d2" "prefs_stored t s ps d2 d'"
  shows "prefs_stored t s (p # ps) d d'"
proof -
  have row: "pref_row d2 t s ch cat = (if item_key p = (ch, cat) then Some (pi_opted_in p) else pref_row d t s ch cat)"
    for ch cat
    using pref_row_upsert [OF assms(2)] insert_consent_effect(2) [OF assms(3)]
    by (simp add: pref_row_def pref_row_of_def pref_key_def item_key_def)
  have log: "consents d2 = consents d @ [consent_of c' (pref_entry t s actor ip p)]"
    using insert_consent_effect(1) [OF assms(3)] upsert_effect [OF assms(2)] by simp
  have cat: "or_default ''all'' x \<noteq> []" for x by (simp add: or_default_def)
  obtain new where "consents d' = consents d2 @ new"
    "map (\<lambda>e. (cl_tenant e, cl_subscriber e, cl_channel e, cl_category e, cl_opted_in e)) new
      = map (\<lambda>p. (t, s, fst (item_key p), snd (item_key p), pi_opted_in p)) (filter (\<lambda>p. pi_channel p \<noteq> []) ps)"
    using assms(4) by (auto simp: prefs_stored_def Let_def)
  then have "\<exists>new. consents d' = consents d @ new
      \<and> map (\<lambda>e. (cl_tenant e, cl_subscriber e, cl_channel e, cl_category e, cl_opted_in e)) new
        = map (\<lambda>p. (t, s, fst (item_key p), snd (item_key p), pi_opted_in p))
            (filter (\<lambda>p. pi_channel p \<noteq> []) (p # ps))"
    using log assms(1) cat
    by (intro exI [of _ "consent_of c' (pref_entry t s actor ip p) # new"])
      (simp add: consent_of_def pref_entry_def item_key_def)
  moreover have "pref_row d' t s ch cat = (case find (\<lambda>p. item_key p = (ch, cat))
      (rev (filter (\<lambda>p. pi_channel p \<noteq> []) (p # ps))) of
        Some p \<Rightarrow> Some (pi_opted_in p) | None \<Rightarrow> pref_row d t s ch cat)" for ch cat
    using assms(1,4) by (simp add: prefs_stored_def Let_def row find_snoc split: option.splits)
  ultimately show ?thesis by (simp add: prefs_stored_def Let_def)
qed

lemma wp_update_prefs:
  assumes "in_tx t d0 st"
  shows "wp (update_prefs t s actor ip ps) (\<lambda>r s'. in_tx t d0 s' \<and> status_of r \<in> {200, 500}
    \<and> (broken st \<and> \<not> failed_answer r \<longrightarrow> broken s')
    \<and> (\<not> failed_answer r \<and> \<not> broken s' \<longrightarrow> prefs_stored t s ps (db st) (db s'))) st"
  using assms
proof (induction ps arbitrary: st)
  case Nil
  then show ?case by (simp add: prefs_stored_Nil)
next
  case (Cons p ps)
  show ?case
  proof (cases "pi_channel p = []")
    case True
    with Cons show ?thesis by (simp add: prefs_stored_skip)
  next
    case False
    show ?thesis
      unfolding update_prefs.simps if_not_P [OF False] wp_on_err
    proof (rule wp_exec_strong, goal_cases)
      case (1 s1)
      then show ?case using Cons.prems by (simp add: quiet_in_tx failed_answer_def)
    next
      case (2 s1 c d)
      note up = 2
      have tx: "in_tx t d0 (s1\<lparr>db := d\<rparr>)" using Cons.prems up(1) by (simp add: quiet_in_tx)
      show ?case
        unfolding sum.case wp_bind consent_Record_def wp_on_err
      proof (rule wp_exec_strong, goal_cases)
        case (1 s2)
        have "in_tx t d0 s2" using tx by (simp only: quiet_in_tx [OF 1(1)])
        have "broken s2" using 1(2) tx by (auto simp: in_tx_def saved_def)
        show ?case
          unfolding sum.case wp_return
          by (rule wp_mono [OF Cons.IH [OF \<open>in_tx t d0 s2\<close>]]) (use \<open>broken s2\<close> up(3) in auto)
      next
        case (2 s2 c' d')
        have tx': "in_tx t d0 (s2\<lparr>db := d'\<rparr>)" using tx by (simp only: quiet_in_tx [OF 2(1)] in_tx_update)
        show ?case
          unfolding sum.case wp_return
          by (rule wp_mono [OF Cons.IH [OF tx']])
            (use up(3,5) 2(5) False in \<open>auto intro: prefs_stored_step\<close>)
      qed
    qed
  qed
qed

text \<open>
  C21.
  An update of preferences is all or nothing, for every pattern of database failures: either the
  database is as before, or the answer is 200 and exactly the items of the request are stored, the
  last one for a channel and category winning, with one ledger entry per item in their order.
\<close>

theorem update_preferences_atomic:
  assumes "ctx_tenant rq = Some t" "t \<noteq> []" "saved w = None"
  shows "wp (TenantTx UpdatePreferences rq) (\<lambda>r w'. db w' = db w \<or> (status_of r = 200
    \<and> (\<exists>ps. preferences_request (rm_body rq) = Some ps
        \<and> prefs_stored t (URLParam rq ''subscriberID'') ps (db w) (db w')))) w"
proof (rule wp_TenantTx_any [OF assms], goal_cases)
  case 1
  then show ?case by simp
next
  case (2 s)
  show ?case
  proof (cases "preferences_request (rm_body rq)")
    case None
    then show ?thesis using 2 by (simp add: UpdatePreferences_def)
  next
    case (Some ps)
    have "wp (update_prefs t (URLParam rq ''subscriberID'') (snd (ActorFromContext rq)) (ClientIP rq) ps)
      (\<lambda>r s'. in_tx t (db w) s' \<and> (db w = db w \<or> True) \<and> (\<not> failed_answer r \<and> \<not> broken s' \<longrightarrow>
        db s' = db w \<or> (status_of r = 200
          \<and> prefs_stored t (URLParam rq ''subscriberID'') ps (db w) (db s')))) s"
      by (rule wp_mono [OF wp_update_prefs [OF 2(1)]])
        (use 2(2) in \<open>auto simp: failed_answer_def split: sum.splits\<close>)
    then show ?thesis using Some assms(1) by (simp add: UpdatePreferences_def)
  qed
qed

definition opt_out_request :: request where
  "opt_out_request = sample_request\<lparr>ctx_tenant := Some ''t1'', rm_params := [(''subscriberID'', ''s1'')],
     rm_body := Some (GObj [(''preferences'', GArr [GObj [(''channel'', GStr ''sms''),
       (''is_opted_in'', GBool False)]])])\<rparr>"

theorem update_preferences_atomic_witness:
  "wp (TenantTx UpdatePreferences opt_out_request) (\<lambda>r w'. db w' = db (world0 sample_db) \<or> (status_of r = 200
    \<and> (\<exists>ps. preferences_request (rm_body opt_out_request) = Some ps
        \<and> prefs_stored ''t1'' (URLParam opt_out_request ''subscriberID'') ps (db (world0 sample_db)) (db w'))))
    (world0 sample_db)"
  by (rule update_preferences_atomic) (simp_all add: opt_out_request_def world0_def saved_def)

text \<open>
  The 200 does not mean that anything was stored. A ledger entry whose error is ignored has aborted
  the transaction: the commit, which comes after the answer, rolls the opt-out back and its error
  is dropped. Here the fourth statement of the request, the ledger entry, fails.
\<close>
theorem preferences_answer_before_commit:
  "wp (TenantTx UpdatePreferences opt_out_request) (\<lambda>r w'. status_of r = 200 \<and> db w' = sample_db)
    ((world0 sample_db)\<lparr>db_faults := [False, False, False, True]\<rparr>)"
  by (simp add: TenantTx_def UpdatePreferences_def opt_out_request_def preferences_request_def body_defs
      begin_tx_def set_tenant_def commit_tx_def roll_back_def db_fault_def next_fault_def time_now_def
      exec_def db_stmt_def Let_def wp_cases consent_Record_def URLParam_def upsert_preference_def
      pref_row_of_def sees_def channels_def sample_defs or_default_def tenant_of_def)

lemma find_subscriber_guc: "guc c = t \<Longrightarrow> find_subscriber c d t s = find_subscriber (tctx t) d t s"
  by (simp add: find_subscriber_def sees_def)

text \<open>The erasure and the export that follows it, each in its transaction.\<close>

definition erased_row :: "string \<Rightarrow> string \<Rightarrow> subscriber_row \<Rightarrow> db \<Rightarrow> bool" where
  "erased_row t s r d \<longleftrightarrow> find_subscriber (tctx t) d t s = Some (erase_row r)"

lemma wp_delete_subscriber:
  assumes "ctx_tenant rq = Some t" "t \<noteq> []" "idle w"
    and "find_subscriber (tctx t) (db w) t (URLParam rq ''subscriberID'') = Some r"
  shows "wp (TenantTx DeleteSubscriber rq) (\<lambda>a w'. idle w' \<and> status_of a = 204
    \<and> erased_row t (URLParam rq ''subscriberID'') r (db w')) w"
proof (rule wp_TenantTx_running [OF assms(1-3)], goal_cases)
  let ?s = "URLParam rq ''subscriberID''"
  have erase: "erased_row t ?s r (d\<lparr>subscribers := update_where
      (\<lambda>r. sees c (sb_tenant r) \<and> sb_id r = ?s \<and> sb_tenant r = t) erase_row (subscribers d)\<rparr>)"
    if "guc c = t" "find_subscriber (tctx t) d t ?s = Some r" for c d
    using that find_update_where [of "\<lambda>r. sees (tctx t) (sb_tenant r) \<and> sb_id r = ?s \<and> sb_tenant r = t" erase_row]
    by (simp add: erased_row_def find_subscriber_def sees_def erase_row_def)
  case (1 s)
  show ?case
    unfolding DeleteSubscriber_def EraseSubscriber_def wp_on_err
    by (rule wp_running_exec [OF 1])
      (use assms(1,4) erase in \<open>auto simp: failed_answer_def settled_db_def\<close>)
qed

lemma wp_export_subscriber:
  assumes "ctx_tenant rq = Some t" "t \<noteq> []" "idle w"
    and "find_subscriber (tctx t) (db w) t (URLParam rq ''subscriberID'') = Some r"
  shows "wp (TenantTx (ExportSubscriberData E) rq) (\<lambda>b s'. idle s' \<and> (\<exists>h ps.
    b = Inr (json_answer 200 (GObj [(''consent_history'', h), (''preferences'', ps),
      (''subscriber'', profile_json E r)])))) w"
proof (rule wp_TenantTx_running [OF assms(1-3)], goal_cases)
  case (1 s)
  show ?case
    unfolding ExportSubscriberData_def Let_def wp_on_err tenant_of_simp [OF assms(1)]
  proof (rule wp_running_query_row [OF 1, where x = r], goal_cases)
    case (1 c)
    show ?case using assms(4) unfolding find_subscriber_guc [OF 1] .
  next
    case (2 s1)
    show ?case
      unfolding sum.case wp_bind
    proof (rule wp_running_query [OF 2], goal_cases)
      case (1 s2 c)
      show ?case
        unfolding History_def wp_on_err
      proof (rule wp_running_query [OF 1(1)], goal_cases)
        case (1 s3 c')
        from runningD(1,2) [OF 1(1)] show ?case unfolding sum.case wp_return by blast
      qed
    qed
  qed
qed

lemma erased_profile:
  obtains prof where "profile_json E (erase_row r) = GObj prof"
    "map (obj_get prof) [''email'', ''phone'', ''whatsapp_id'', ''metadata'', ''is_deleted'']
      = [GNil, GNil, GNil, GObj [], GBool True]"
  by (rule that [OF profile_json_def]) (simp add: erase_row_def json_opt_def json_map_def obj_get_def)



end
