(* ===== verification/Catalog_Api.thy ===== *)
theory Catalog_Api
  imports Api_Logic Engine_Spec
begin

text \<open>
  \<^verbatim>\<open>platform/api/handler/templates.go\<close> and \<^verbatim>\<open>workflows.go\<close>: the message templates with their
  version counter, and the workflow definitions. These tables are not under forced row-level
  security: what keeps a request to its tenant is the tenant in each statement's condition.
\<close>

section \<open>Templates\<close>

definition int4 :: "int option \<Rightarrow> int option" where
  "int4 x = (case x of Some i \<Rightarrow> if int4_ok i then Some i else None | None \<Rightarrow> None)"

text \<open>\<^verbatim>\<open>COALESCE((metadata->>'version')::int, 1)\<close>; \<open>None\<close> is a failing cast.\<close>

definition version_of :: "gval \<Rightarrow> int option" where
  "version_of meta = (case column_map meta of None \<Rightarrow> Some 1
     | Some m \<Rightarrow> (case obj_get m ''version'' of
         GNil \<Rightarrow> Some 1 | GInt i \<Rightarrow> int4 (Some i) | GInt64 i \<Rightarrow> int4 (Some i)
       | GNum x \<Rightarrow> int4 (f64_int x) | GStr s \<Rightarrow> int4 (Atoi (TrimSpace s))
       | _ \<Rightarrow> None))"

definition tp_key :: "template_row \<Rightarrow> string \<times> string \<times> string \<times> string" where
  "tp_key r = (tp_tenant r, tp_name r, tp_channel r, tp_locale r)"

definition template_json :: "template_row \<times> int \<Rightarrow> gval" where
  "template_json rv = (case rv of (r, v) \<Rightarrow> GObj ([(''id'', GStr (tp_id r)), (''name'', GStr (tp_name r)),
     (''channel'', GStr (tp_channel r)), (''locale'', GStr (tp_locale r))]
     @ omit_opt ''subject'' (tp_subject r)
     @ [(''body'', GStr (tp_body r)), (''metadata'', json_map (tp_metadata r)),
        (''is_active'', GBool (tp_active r)), (''version'', GInt v),
        (''created_at'', json_time (tp_created r))]))"

text \<open>Rows with their version: one failing cast fails the statement.\<close>

fun with_versions :: "template_row list \<Rightarrow> (template_row \<times> int) list option" where
  "with_versions [] = Some []"
| "with_versions (r # rs) = (case (version_of (tp_metadata r), with_versions rs) of
     (Some v, Some l) \<Rightarrow> Some ((r, v) # l) | _ \<Rightarrow> None)"

definition template_page :: "db \<Rightarrow> string \<Rightarrow> request \<Rightarrow> template_row list" where
  "template_page d t rq = (let ch = query_get rq ''channel'' in page rq (sort_key tp_name
     (filter (\<lambda>r. tp_tenant r = t \<and> (ch = [] \<or> tp_channel r = ch)) (templates d))))"

definition ListTemplates :: handler where
  "ListTemplates rq =
     on_err (db_stmt (\<lambda>c d. map_option (Pair d) (with_versions (template_page d (tenant_of rq) rq))))
       (\<lambda>_. fails 500 ''query failed'')
       (\<lambda>rs. answers (json_answer 200 (GObj [(''templates'', GArr (map template_json rs)),
          (''total'', GInt (int (length rs)))])))"

definition find_template :: "db \<Rightarrow> string \<Rightarrow> string \<Rightarrow> template_row option" where
  "find_template d t i = find (\<lambda>r. tp_id r = i \<and> tp_tenant r = t) (templates d)"

text \<open>\<^verbatim>\<open>SELECT ... FROM templates WHERE id = $1 AND tenant_id = $2\<close> with the version: a failing cast or no row.\<close>

definition fetch_template :: "string \<Rightarrow> string \<Rightarrow> (template_row \<times> int) res app" where
  "fetch_template t i = and_then
     (db_stmt (\<lambda>c d. case find_template d t i of None \<Rightarrow> Some (d, None)
        | Some r \<Rightarrow> map_option (\<lambda>v. (d, Some (r, v))) (version_of (tp_metadata r))))
     (\<lambda>x. case x of None \<Rightarrow> ret (Inl ErrNoRows) | Some rv \<Rightarrow> ret (Inr rv))"

definition GetTemplate :: handler where
  "GetTemplate rq = on_err (fetch_template (tenant_of rq) (URLParam rq ''id''))
     (\<lambda>_. fails 404 ''not found'') (\<lambda>rv. answers (json_answer 200 (template_json rv)))"

definition insert_template :: "sctx \<Rightarrow> db \<Rightarrow> template_row \<Rightarrow> (db \<times> string) option" where
  "insert_template c d r = (let rs = templates d @ [r] in
     if tp_tenant r \<notin> tn_id ` set (tenants d) \<or> tp_channel r \<notin> set channels
        \<or> \<not> distinct (map tp_key rs) \<or> tp_id r \<in> tp_id ` set (templates d) then None
     else Some (d\<lparr>templates := rs\<rparr>, tp_id r))"

definition CreateTemplate :: handler where
  "CreateTemplate rq = (case body_members (rm_body rq) of None \<Rightarrow> fails 400 ''invalid json''
     | Some m \<Rightarrow> (case (jstr m ''name'', jstr m ''channel'', jstr m ''locale'', pstr m ''subject'',
           jstr m ''body'', pmap m ''metadata'') of
         (Some n, Some ch, Some l, Some sj, Some b, Some md) \<Rightarrow>
           if n = [] \<or> ch = [] \<or> b = [] then fails 422 ''name, channel, and body are required''
           else let meta = (case md of None \<Rightarrow> [] | Some x \<Rightarrow> x) @ [(''version'', GInt 1)] in
             on_err (db_stmt (\<lambda>c d. insert_template c d \<lparr>tp_id = new_id c, tp_tenant = tenant_of rq,
                 tp_name = n, tp_channel = ch, tp_locale = or_default ''en'' l, tp_subject = sj,
                 tp_body = b, tp_metadata = GObj meta, tp_active = True, tp_created = db_now c\<rparr>))
               (\<lambda>_. fails 500 ''create failed'')
               (\<lambda>i. answers (json_answer 201 (GObj [(''id'', GStr i)])))
       | _ \<Rightarrow> fails 400 ''invalid json''))"

text \<open>\<^verbatim>\<open>UPDATE templates SET ... WHERE id AND tenant_id\<close>, with the number of rows affected.\<close>

definition set_template :: "string \<Rightarrow> string \<Rightarrow> (template_row \<Rightarrow> template_row) \<Rightarrow> db \<Rightarrow> (db \<times> nat) option" where
  "set_template t i f d = (let p = (\<lambda>r. tp_id r = i \<and> tp_tenant r = t);
       rs = update_where p f (templates d) in
     if distinct (map tp_key rs) then Some (d\<lparr>templates := rs\<rparr>, length (filter p (templates d))) else None)"

record template_patch =
  tq_name :: "string option"
  tq_subject :: "string option"
  tq_body :: "string option"
  tq_locale :: "string option"
  tq_metadata :: "gmap option"
  tq_active :: "bool option"

definition template_patch_of :: "gval option \<Rightarrow> template_patch option" where
  "template_patch_of b = (case body_members b of None \<Rightarrow> None
     | Some m \<Rightarrow> (case (pstr m ''name'', pstr m ''subject'', pstr m ''body'', pstr m ''locale'',
           pmap m ''metadata'', pbool m ''is_active'') of
         (Some n, Some sj, Some bd, Some l, Some md, Some a) \<Rightarrow> Some \<lparr>tq_name = n, tq_subject = sj,
           tq_body = bd, tq_locale = l, tq_metadata = md, tq_active = a\<rparr>
       | _ \<Rightarrow> None))"

definition patch_template :: "template_patch \<Rightarrow> template_row \<Rightarrow> gmap \<Rightarrow> template_row \<Rightarrow> template_row" where
  "patch_template q cur meta r = r\<lparr>tp_name := keep_or (tp_name cur) (tq_name q),
     tp_subject := (case tq_subject q of None \<Rightarrow> tp_subject cur | Some s \<Rightarrow> Some s),
     tp_body := keep_or (tp_body cur) (tq_body q), tp_locale := keep_or (tp_locale cur) (tq_locale q),
     tp_metadata := GObj meta, tp_active := keep_or (tp_active cur) (tq_active q)\<rparr>"

definition UpdateTemplate :: handler where
  "UpdateTemplate rq = (let t = tenant_of rq; i = URLParam rq ''id'' in
     case template_patch_of (rm_body rq) of None \<Rightarrow> fails 400 ''invalid json''
     | Some q \<Rightarrow> on_err (fetch_template t i) (\<lambda>_. fails 404 ''not found'') (\<lambda>(cur, v).
         case column_map (tp_metadata cur) of None \<Rightarrow> ret (Inl nil_map_write)
         | Some old \<Rightarrow>
            let meta = old @ keep_or [] (tq_metadata q) @ [(''version'', GInt (v + 1))] in
            on_err (db_stmt (\<lambda>c d. set_template t i (patch_template q cur meta) d))
              (\<lambda>_. fails 500 ''update failed'')
              (\<lambda>_. answers (json_answer 200 (GObj [(''id'', GStr i), (''version'', GInt (v + 1))])))))"

definition DeleteTemplate :: handler where
  "DeleteTemplate rq =
     on_err (db_stmt (\<lambda>c d. set_template (tenant_of rq) (URLParam rq ''id'') (\<lambda>r. r\<lparr>tp_active := False\<rparr>) d))
       (\<lambda>_. fails 404 ''not found'')
       (\<lambda>n. if n = 0 then fails 404 ''not found'' else answers (bare_answer 204))"

definition PublishTemplate :: handler where
  "PublishTemplate rq = (let t = tenant_of rq; i = URLParam rq ''id'' in
     on_err (fetch_template t i) (\<lambda>_. fails 404 ''not found'') (\<lambda>(cur, v). do {
       now \<leftarrow> time_now;
       let meta = keep_or [] (column_map (tp_metadata cur))
         @ [(''published_version'', GInt v), (''published_at'', GStr (RFC3339 (now div 10 ^ 9) []))];
       on_err (db_stmt (\<lambda>c d. set_template t i (\<lambda>r. r\<lparr>tp_metadata := GObj meta\<rparr>) d))
         (\<lambda>_. fails 500 ''publish failed'')
         (\<lambda>_. answers (json_answer 200 (GObj [(''id'', GStr i), (''published_version'', GInt v)]))) }))"

section \<open>Workflows\<close>

definition workflow_json :: "workflow_row \<Rightarrow> gval" where
  "workflow_json r = GObj [(''id'', GStr (wf_id r)), (''name'', GStr (wf_name r)),
     (''trigger_event'', GStr (wf_trigger r)),
     (''steps'', case wf_steps r of GArr xs \<Rightarrow> GArr xs | _ \<Rightarrow> GNil),
     (''is_active'', GBool (wf_active r)), (''created_at'', json_time (wf_created r))]"

definition ListWorkflows :: handler where
  "ListWorkflows rq =
     on_err (query (\<lambda>c d. page rq (newest_first wf_created
         (filter (\<lambda>r. wf_tenant r = tenant_of rq) (workflows d)))))
       (\<lambda>_. fails 500 ''query failed'')
       (\<lambda>rs. answers (json_answer 200 (GObj [(''total'', GInt (int (length rs))),
          (''workflows'', GArr (map workflow_json rs))])))"

definition find_workflow :: "db \<Rightarrow> string \<Rightarrow> string \<Rightarrow> workflow_row option" where
  "find_workflow d t i = find (\<lambda>r. wf_id r = i \<and> wf_tenant r = t) (workflows d)"

definition GetWorkflow :: handler where
  "GetWorkflow rq = on_err (query_row (\<lambda>c d. find_workflow d (tenant_of rq) (URLParam rq ''id'')))
     (\<lambda>_. fails 404 ''not found'') (\<lambda>r. answers (json_answer 200 (workflow_json r)))"

definition insert_workflow :: "sctx \<Rightarrow> db \<Rightarrow> workflow_row \<Rightarrow> (db \<times> string) option" where
  "insert_workflow c d r =
     (if wf_tenant r \<notin> tn_id ` set (tenants d) \<or> wf_id r \<in> wf_id ` set (workflows d) then None
      else Some (d\<lparr>workflows := workflows d @ [r]\<rparr>, wf_id r))"

definition CreateWorkflow :: handler where
  "CreateWorkflow rq = (case body_members (rm_body rq) of None \<Rightarrow> fails 400 ''invalid json''
     | Some m \<Rightarrow> (case (jstr m ''name'', jstr m ''trigger_event'', parr m ''steps'') of
         (Some n, Some e, Some st) \<Rightarrow>
           if n = [] \<or> e = [] then fails 422 ''name and trigger_event are required''
           else on_err (db_stmt (\<lambda>c d. insert_workflow c d \<lparr>wf_id = new_id c, wf_tenant = tenant_of rq,
                 wf_name = n, wf_trigger = e, wf_steps = GArr (keep_or [] st), wf_active = True,
                 wf_created = db_now c\<rparr>))
               (\<lambda>_. fails 500 ''create failed'')
               (\<lambda>i. answers (json_answer 201 (GObj [(''id'', GStr i)])))
       | _ \<Rightarrow> fails 400 ''invalid json''))"

definition set_workflow :: "string \<Rightarrow> string \<Rightarrow> (workflow_row \<Rightarrow> workflow_row) \<Rightarrow> db \<Rightarrow> db \<times> nat" where
  "set_workflow t i f d = (let p = (\<lambda>r. wf_id r = i \<and> wf_tenant r = t) in
     (d\<lparr>workflows := update_where p f (workflows d)\<rparr>, length (filter p (workflows d))))"

definition UpdateWorkflow :: handler where
  "UpdateWorkflow rq = (let t = tenant_of rq; i = URLParam rq ''id'' in
     case body_members (rm_body rq) of None \<Rightarrow> fails 400 ''invalid json''
     | Some m \<Rightarrow> (case (pstr m ''name'', pstr m ''trigger_event'', parr m ''steps'') of
         (Some n, Some e, Some st) \<Rightarrow>
           on_err (query_row (\<lambda>c d. find_workflow d t i)) (\<lambda>_. fails 404 ''not found'') (\<lambda>cur.
             on_err (db_stmt (\<lambda>c d. Some (set_workflow t i (\<lambda>r. r\<lparr>wf_name := keep_or (wf_name cur) n,
                 wf_trigger := keep_or (wf_trigger cur) e,
                 wf_steps := (case st of None \<Rightarrow> wf_steps cur | Some xs \<Rightarrow> GArr xs)\<rparr>) d)))
               (\<lambda>_. fails 500 ''update failed'')
               (\<lambda>_. answers (json_answer 200 (GObj [(''id'', GStr i)]))))
       | _ \<Rightarrow> fails 400 ''invalid json''))"

text \<open>The three that switch a workflow, with their answer.\<close>

definition switch_workflow :: "bool \<Rightarrow> (string \<Rightarrow> answer) \<Rightarrow> handler" where
  "switch_workflow b reply rq = (let i = URLParam rq ''id'' in
     on_err (db_stmt (\<lambda>c d. Some (set_workflow (tenant_of rq) i (\<lambda>r. r\<lparr>wf_active := b\<rparr>) d)))
       (\<lambda>_. fails 404 ''not found'')
       (\<lambda>n. if n = 0 then fails 404 ''not found'' else answers (reply i)))"

definition ArchiveWorkflow :: handler where
  "ArchiveWorkflow = switch_workflow False (\<lambda>_. bare_answer 204)"

definition ActivateWorkflow :: handler where
  "ActivateWorkflow = switch_workflow True
     (\<lambda>i. json_answer 200 (GObj [(''id'', GStr i), (''status'', GStr ''active'')]))"

definition PauseWorkflow :: handler where
  "PauseWorkflow = switch_workflow False
     (\<lambda>i. json_answer 200 (GObj [(''id'', GStr i), (''status'', GStr ''paused'')]))"

fun run_status_text :: "run_status \<Rightarrow> string" where
  "run_status_text Running = ''running''"
| "run_status_text Completed = ''completed''"
| "run_status_text Failed = ''failed''"
| "run_status_text Cancelled = ''cancelled''"

definition run_json :: "run_row \<Rightarrow> gval" where
  "run_json r = GObj ([(''id'', GStr (rn_id r)), (''workflow_id'', GStr (rn_workflow r))]
     @ omit_opt ''subscriber_id'' (rn_subscriber r)
     @ [(''trigger_event'', GStr (rn_event r)), (''status'', GStr (run_status_text (rn_status r))),
        (''current_step_index'', GInt (rn_step r))]
     @ omit_opt ''error'' (rn_error r) @ [(''created_at'', json_time (rn_created r))])"

definition ListWorkflowRuns :: handler where
  "ListWorkflowRuns rq =
     on_err (query (\<lambda>c d. take (page_limit 20 100 rq) (newest_first rn_created
         (filter (\<lambda>r. rn_workflow r = URLParam rq ''id'' \<and> rn_tenant r = tenant_of rq) (runs d)))))
       (\<lambda>_. fails 500 ''query failed'')
       (\<lambda>rs. answers (json_answer 200 (GObj [(''runs'', GArr (map run_json rs))])))"

section \<open>Confinement\<close>

text \<open>Template and workflow statements name the tenant they may touch in their conditions.\<close>

lemma others_insert_template:
  "insert_template c d r = Some (d', i) \<Longrightarrow> tp_tenant r = t \<Longrightarrow> others t d' = others t d"
  by (auto simp: insert_template_def others_def Let_def split: if_splits)

lemma others_set_template:
  "set_template t i f d = Some (d', n) \<Longrightarrow> (\<And>r. tp_tenant (f r) = tp_tenant r) \<Longrightarrow> others t d' = others t d"
  by (auto simp: set_template_def others_def Let_def split: if_splits intro!: filter_update_where)

lemma others_insert_workflow:
  "insert_workflow c d r = Some (d', i) \<Longrightarrow> wf_tenant r = t \<Longrightarrow> others t d' = others t d"
  by (auto simp: insert_workflow_def others_def split: if_splits)

lemma others_set_workflow:
  "set_workflow t i f d = (d', n) \<Longrightarrow> (\<And>r. wf_tenant (f r) = wf_tenant r) \<Longrightarrow> others t d' = others t d"
  by (auto simp: set_workflow_def others_def Let_def intro!: filter_update_where)

lemma keeps_confined_fetch [keeps_rules]: "keeps (confined t d0) (fetch_template t' i)"
  unfolding fetch_template_def
  by (intro keeps_rules keeps_confined_stmt) (auto split: option.splits)

lemma patch_template_tenant [simp]: "tp_tenant (patch_template q cur m r) = tp_tenant r"
  by (simp add: patch_template_def)

interpretation list_templates: tenant_handler ListTemplates
  by unfold_locales (auto simp: ListTemplates_def intro!: keeps_rules keeps_confined_stmt)

interpretation get_template: tenant_handler GetTemplate
  by unfold_locales (auto simp: GetTemplate_def intro!: keeps_rules)

interpretation create_template: tenant_handler CreateTemplate
  by unfold_locales (auto simp: CreateTemplate_def Let_def dest!: others_insert_template
      intro!: keeps_rules keeps_confined_stmt split: option.splits)

interpretation update_template: tenant_handler UpdateTemplate
  by unfold_locales (auto simp: UpdateTemplate_def Let_def dest!: others_set_template
      intro!: keeps_rules keeps_confined_stmt split: option.splits)

interpretation delete_template: tenant_handler DeleteTemplate
  by unfold_locales (auto simp: DeleteTemplate_def dest!: others_set_template
      intro!: keeps_rules keeps_confined_stmt)

interpretation publish_template: tenant_handler PublishTemplate
  by unfold_locales (auto simp: PublishTemplate_def Let_def dest!: others_set_template
      intro!: keeps_rules keeps_confined_stmt)

interpretation list_workflows: tenant_handler ListWorkflows
  by unfold_locales (auto simp: ListWorkflows_def intro!: keeps_rules)

interpretation get_workflow: tenant_handler GetWorkflow
  by unfold_locales (auto simp: GetWorkflow_def intro!: keeps_rules)

interpretation create_workflow: tenant_handler CreateWorkflow
  by unfold_locales (auto simp: CreateWorkflow_def dest!: others_insert_workflow
      intro!: keeps_rules keeps_confined_stmt split: option.splits)

interpretation update_workflow: tenant_handler UpdateWorkflow
  by unfold_locales (auto simp: UpdateWorkflow_def Let_def dest!: others_set_workflow
      intro!: keeps_rules keeps_confined_stmt split: option.splits)

lemma keeps_confined_switch:
  "ctx_tenant rq = Some t \<Longrightarrow> keeps (confined t d0) (switch_workflow b reply rq)"
  by (auto simp: switch_workflow_def Let_def dest!: others_set_workflow
      intro!: keeps_rules keeps_confined_stmt)

interpretation archive_workflow: tenant_handler ArchiveWorkflow
  by unfold_locales (simp add: ArchiveWorkflow_def keeps_confined_switch)

interpretation activate_workflow: tenant_handler ActivateWorkflow
  by unfold_locales (simp add: ActivateWorkflow_def keeps_confined_switch)

interpretation pause_workflow: tenant_handler PauseWorkflow
  by unfold_locales (simp add: PauseWorkflow_def keeps_confined_switch)

interpretation list_runs: tenant_handler ListWorkflowRuns
  by unfold_locales (auto simp: ListWorkflowRuns_def intro!: keeps_rules)

section \<open>The version of a template\<close>

definition template_version :: "db \<Rightarrow> string \<Rightarrow> string \<Rightarrow> int option" where
  "template_version d t i = Option.bind (find_template d t i) (\<lambda>r. version_of (tp_metadata r))"

lemma int4_SomeD: "int4 x = Some v \<Longrightarrow> int4_ok v"
  by (auto simp: int4_def split: option.splits if_splits)

lemma version_of_int4: "version_of m = Some v \<Longrightarrow> int4_ok v"
  by (auto simp: version_of_def int4_ok_def split: option.splits gval.splits dest!: int4_SomeD)

lemma version_of_bumped: "int4_ok v \<Longrightarrow> version_of (GObj (m @ [(''version'', GInt v)])) = Some v"
  by (simp add: version_of_def int4_def)

lemma version_of_bumped2: "int4_ok v \<Longrightarrow> version_of (GObj (m @ n @ [(''version'', GInt v)])) = Some v"
  using version_of_bumped [of v "m @ n"] by simp

lemma find_template_set:
  assumes "set_template t i f d = Some (d', n)" "\<And>r. tp_id (f r) = tp_id r \<and> tp_tenant (f r) = tp_tenant r"
  shows "find_template d' t j = (if j = i then map_option f else id) (find_template d t j)"
proof -
  have d': "templates d' = update_where (\<lambda>r. tp_id r = i \<and> tp_tenant r = t) f (templates d)"
    using assms(1) by (auto simp: set_template_def Let_def split: if_splits)
  show ?thesis
  proof (cases "j = i")
    case True
    then show ?thesis using assms(2) by (simp add: find_template_def d' find_update_where)
  next
    case False
    have "find (\<lambda>r. tp_id r = j \<and> tp_tenant r = t) (update_where (\<lambda>r. tp_id r = i \<and> tp_tenant r = t) f rs)
        = find (\<lambda>r. tp_id r = j \<and> tp_tenant r = t) rs" for rs
      using False assms(2) by (induction rs) (auto simp: update_where_def)
    with False show ?thesis by (simp add: find_template_def d')
  qed
qed

lemma wp_fetch_template:
  assumes "\<And>s' e. quiet s s' \<Longrightarrow> Q (Inl e) s'"
    and "\<And>s' r v. quiet s s' \<Longrightarrow> find_template (db s) t i = Some r \<Longrightarrow> version_of (tp_metadata r) = Some v \<Longrightarrow>
      Q (Inr (r, v)) s'"
  shows "wp (fetch_template t i) Q s"
  unfolding fetch_template_def wp_and_then
proof (rule wp_stmt, goal_cases)
  case (1 s')
  then show ?case by (simp add: assms(1))
next
  case (2 s' c d x)
  then have "d = db s'" by (auto simp: quietD(1) split: option.splits)
  with 2 show ?case using assms by (auto split: option.splits)
qed

lemma template_version_patched:
  assumes "set_template t k (patch_template q cur (old @ m @ [(''version'', GInt (u + 1))])) d = Some (d', n)"
    and "find_template d t k = Some cur" "version_of (tp_metadata cur) = Some u"
    and "template_version d t i = Some v" "int4_ok (v + 1)"
  shows "template_version d' t i = Some v \<or> template_version d' t i = Some (v + 1)"
proof (cases "i = k")
  case True
  then have "u = v" using assms(2-4) by (simp add: template_version_def)
  with True assms(2,5) find_template_set [OF assms(1), of i] show ?thesis
    by (simp add: template_version_def patch_template_def version_of_bumped2)
next
  case False
  with assms(4) find_template_set [OF assms(1), of i] show ?thesis
    by (simp add: template_version_def patch_template_def)
qed

lemma UpdateTemplate_version:
  assumes "ctx_tenant rq = Some t" "t \<noteq> []" "saved w = None" "template_version (db w) t i = Some v"
    and "int4_ok (v + 1)"
  shows "wp (TenantTx UpdateTemplate rq) (\<lambda>r w'. template_version (db w') t i = Some v
    \<or> status_of r = 200 \<and> template_version (db w') t i = Some (v + 1)) w"
proof (rule wp_TenantTx_any [OF assms(1-3)], goal_cases)
  case 1
  then show ?case using assms(4) by simp
next
  case (2 s)
  let ?i = "URLParam rq ''id''"
  show ?case
  proof (cases "template_patch_of (rm_body rq)")
    case None
    then show ?thesis using 2 assms(4) by (simp add: UpdateTemplate_def Let_def)
  next
    case (Some q)
    show ?thesis
      unfolding UpdateTemplate_def Let_def tenant_of_simp [OF assms(1)] Some option.case wp_on_err
    proof (rule wp_fetch_template, goal_cases)
      case (1 s1 e)
      then show ?case using 2 assms(4) by (simp add: quiet_in_tx quietD(1))
    next
      case (2 s1 cur u)
      note fetched = this
      have tx: "in_tx t (db w) s1" "db s1 = db w"
        using fetched(1) \<open>in_tx t (db w) s\<close> \<open>db s = db w\<close> by (simp_all add: quiet_in_tx quietD(1))
      show ?case
      proof (cases "column_map (tp_metadata cur)")
        case None
        then show ?thesis using tx assms(4) by simp
      next
        case (Some old)
        show ?thesis
          unfolding sum.case prod.case Some option.case wp_on_err
        proof (rule wp_stmt, goal_cases)
          case (1 s2)
          then show ?case using tx assms(4) by (simp add: quiet_in_tx quietD(1))
        next
          case (2 s2 c d n)
          have "template_version d t i = Some v \<or> template_version d t i = Some (v + 1)"
            using template_version_patched [OF 2(3)] fetched(2,3) assms(4,5) tx(2) \<open>db s = db w\<close> by simp
          with 2 tx assms(4) show ?case by (simp add: quiet_in_tx quietD(1))
        qed
      qed
    qed
  qed
qed


text \<open>A tenant with a template at version 3, and an edit that tries to set the version itself.\<close>

definition edited_db :: db where
  "edited_db = sample_db\<lparr>templates := [\<lparr>tp_id = ''p1'', tp_tenant = ''t1'', tp_name = ''hello'',
     tp_channel = ''email'', tp_locale = ''en'', tp_subject = None, tp_body = ''hi'',
     tp_metadata = GObj [(''version'', GInt 3)], tp_active = True, tp_created = 0\<rparr>]\<rparr>"

definition edit_request :: request where
  "edit_request = sample_request\<lparr>ctx_tenant := Some ''t1'', rm_params := [(''id'', ''p1'')],
     rm_body := Some (GObj [(''body'', GStr ''hello''), (''metadata'', GObj [(''version'', GInt 99)])])\<rparr>"


section \<open>Pausing a workflow\<close>

text \<open>The runs of a workflow.\<close>

definition runs_of :: "string \<Rightarrow> db \<Rightarrow> string list" where
  "runs_of i d = map rn_id (filter (\<lambda>r. rn_workflow r = i) (runs d))"

lemma runs_of_update_run: "(\<And>r. rn_id (f r) = rn_id r \<and> rn_workflow (f r) = rn_workflow r) \<Longrightarrow>
    runs_of i (update_run run f d) = runs_of i d"
proof -
  assume "\<And>r. rn_id (f r) = rn_id r \<and> rn_workflow (f r) = rn_workflow r"
  then have "map rn_id (filter (\<lambda>r. rn_workflow r = i) (update_where p f rs))
      = map rn_id (filter (\<lambda>r. rn_workflow r = i) rs)" for p rs
    by (induction rs) (auto simp: update_where_def)
  then show ?thesis by (simp add: runs_of_def update_run_def)
qed

lemma keeps_runs_dispatch: "keeps (viewed (runs_of i) t d0) (dispatchChannel ev s run)"
  unfolding dispatchChannel_def IsOptedIn_def Let_def
  by (intro keeps_rules keeps_view_stmt) (auto simp: insert_notification_def runs_of_def split: if_splits)

lemma keeps_runs_loop: "keeps (viewed (runs_of i) t d0) (exec_loop left ev steps run k)"
proof (induction left ev steps run k rule: exec_loop.induct)
  case (1 left ev steps run k)
  have up: "keeps (viewed (runs_of i) t d0) (exec (\<lambda>c d. Some (update_run run f d)))"
    if "\<And>r. rn_id (f r) = rn_id r \<and> rn_workflow (f r) = rn_workflow r" for f
    by (rule keeps_view_exec) (use runs_of_update_run [of f] that in auto)
  show ?case
    by (subst exec_loop.simps, cases "length steps \<le> k"; cases left; cases "st_type (steps ! k)")
      (auto simp: Let_def failRun_def intro!: keeps_rules up keeps_runs_dispatch 1 [simplified])
qed

lemma select_workflow_cong: "workflows d' = workflows d \<Longrightarrow> select_workflow d' = select_workflow d"
  by (intro ext) (simp add: select_workflow_def)

lemma engine_adds_no_run:
  assumes "saved w = None" "\<And>e sj. select_workflow (db w) t e \<noteq> Some (i, sj)"
    and "Option.bind (m_json msg) decode_event = Some ev" "ev_tenant ev = t"
  shows "wp (engine_consume msg) (\<lambda>_ w'. runs_of i (db w') = runs_of i (db w)) w"
proof -
  have loop: "wp (executeFrom ev' steps run k) (\<lambda>_. viewed (runs_of i) t d0) s"
    if "viewed (runs_of i) t d0 s" for ev' steps run k d0 s
    unfolding executeFrom_def by (rule keeps_wp [OF keeps_runs_loop that])
  have new: "wp (ProcessEvent ev) (\<lambda>_. viewed (runs_of i) t (db w)) s"
    if "viewed (runs_of i) t (db w) s" "db s = db w" for s
    unfolding ProcessEvent_def lookupWorkflow_def wp_and_then wp_on_err
  proof (rule wp_query_row, goal_cases)
    case (1 s1 e)
    then show ?case using that by (simp add: viewed_def quiet_in_tx quietD(1))
  next
    case (2 s1 c ws)
    have "select_workflow (db w) t (ev_event ev) = Some ws" using 2(3) assms(4) that(2) by simp
    then obtain wid sj where ws: "ws = (wid, sj)" "wid \<noteq> i" using assms(2) by (cases ws) auto
    have v1: "viewed (runs_of i) t (db w) s1"
      using 2(1) that by (simp add: viewed_def quiet_in_tx quietD(1))
    have run: "keeps (viewed (runs_of i) t (db w)) (createRun ev wid)"
      unfolding createRun_def
      by (rule keeps_view_stmt) (use ws(2) in \<open>auto simp: insert_run_def runs_of_def split: if_splits\<close>)
    show ?case
      using v1 ws(1) keeps_wp [OF run v1]
      by (auto split: option.splits sum.splits elim!: wp_mono intro!: loop)
  qed
  have resume: "wp (Resume run) (\<lambda>_. viewed (runs_of i) t (db w)) s"
    if "viewed (runs_of i) t (db w) s" for run s
    unfolding Resume_def wp_on_err
  proof (rule wp_query_row, goal_cases)
    case (1 s1 e)
    then show ?case using that by (simp add: viewed_def quiet_in_tx quietD(1))
  next
    case (2 s1 c ws)
    then have "viewed (runs_of i) t (db w) s1"
      using that by (simp add: viewed_def quiet_in_tx quietD(1))
    then show ?case by (auto simp: wp_cases intro!: loop split: prod.splits option.splits)
  qed
  have "wp (RunInTenant t (if ev_run ev \<noteq> [] then Resume (ev_run ev) else ProcessEvent ev))
      (\<lambda>_ s'. saved s' = None \<and> runs_of i (db s') = runs_of i (db w)) w"
    by (rule wp_RunInTenant_view [OF assms(1)]) (auto intro: new resume)
  then show ?thesis
    using assms(3,4) by (auto simp: engine_consume_def engine_handle_def wp_cases elim!: wp_mono split: sum.splits)
qed

lemma not_selected_switched:
  assumes "set_workflow t i (\<lambda>r. r\<lparr>wf_active := False\<rparr>) d = (d', n)"
  shows "select_workflow d' t e \<noteq> Some (i, sj)"
proof
  assume "select_workflow d' t e = Some (i, sj)"
  then obtain f where "find (\<lambda>f. wf_tenant f = t \<and> wf_trigger f = e \<and> wf_active f) (workflows d') = Some f"
    "wf_id f = i" by (auto simp: select_workflow_def)
  then have f: "f \<in> set (workflows d')" "wf_tenant f = t" "wf_active f" "wf_id f = i"
    by (auto dest: find_Some_in)
  have "workflows d' = update_where (\<lambda>r. wf_id r = i \<and> wf_tenant r = t) (\<lambda>r. r\<lparr>wf_active := False\<rparr>) (workflows d)"
    using arg_cong [OF assms, of "\<lambda>x. workflows (fst x)"] by (simp add: set_workflow_def Let_def)
  with f(1) obtain r where "f = (if wf_id r = i \<and> wf_tenant r = t then r\<lparr>wf_active := False\<rparr> else r)"
    by (auto simp: in_update_where)
  with f(2-) show False by (simp split: if_splits)
qed

text \<open>
  C34.
  Pausing a workflow, or archiving it, takes effect at once: after an answer below 400 whatever
  event of the tenant the engine then handles, with whatever failures, no run of this workflow is
  added.
\<close>

theorem paused_workflow_starts_no_run:
  assumes "ctx_tenant rq = Some t" "t \<noteq> []" "idle w" "URLParam rq ''id'' = i"
    and "h \<in> {PauseWorkflow, ArchiveWorkflow}"
    and "Option.bind (m_json msg) decode_event = Some ev" "ev_tenant ev = t"
  shows "wp (TenantTx h rq) (\<lambda>r w'. \<not> failed_answer r \<longrightarrow>
    (\<forall>w2. saved w2 = None \<and> workflows (db w2) = workflows (db w') \<longrightarrow>
      wp (engine_consume msg) (\<lambda>_ w3. runs_of i (db w3) = runs_of i (db w2)) w2)) w"
proof -
  obtain reply where h: "h = switch_workflow False reply"
    using assms(5) by (auto simp: PauseWorkflow_def ArchiveWorkflow_def)
  let ?off = "\<lambda>d. \<forall>e sj. select_workflow d t e \<noteq> Some (i, sj)"
  have "wp (TenantTx h rq) (\<lambda>r w'. idle w' \<and> (\<not> failed_answer r \<longrightarrow> ?off (db w'))) w"
  proof (rule wp_TenantTx_running [OF assms(1-3)], goal_cases)
    case (1 s)
    show ?case
      unfolding h switch_workflow_def Let_def tenant_of_simp [OF assms(1)] assms(4) wp_on_err
    proof (rule wp_running_stmt [OF 1], goal_cases)
      case (2 s' c d n)
      then have "?off d" using not_selected_switched [of t i "db w" d n] by simp
      with 2 show ?case by (auto simp: settled_db_def failed_answer_def)
    qed simp
  qed
  then show ?thesis
  proof (rule wp_mono, goal_cases)
    case (1 r w')
    show ?case
    proof (intro impI allI, elim conjE)
      fix w2
      assume "\<not> failed_answer r" "saved w2 = None" "workflows (db w2) = workflows (db w')"
      with 1 have "select_workflow (db w2) t e \<noteq> Some (i, sj)" for e sj
        by (simp add: select_workflow_cong [of "db w2" "db w'"])
      then show "wp (engine_consume msg) (\<lambda>_ w3. runs_of i (db w3) = runs_of i (db w2)) w2"
        by (rule engine_adds_no_run [OF \<open>saved w2 = None\<close> _ assms(6,7)])
    qed
  qed
qed

definition pause_request :: request where
  "pause_request = sample_request\<lparr>ctx_tenant := Some ''t1'', rm_params := [(''id'', ''f1'')]\<rparr>"

theorem paused_workflow_starts_no_run_witness:
  "wp (TenantTx PauseWorkflow pause_request) (\<lambda>r w'. \<not> failed_answer r \<longrightarrow>
    (\<forall>w2. saved w2 = None \<and> workflows (db w2) = workflows (db w') \<longrightarrow>
      wp (engine_consume signup_msg) (\<lambda>_ w3. runs_of ''f1'' (db w3) = runs_of ''f1'' (db w2)) w2)) (world0 wf_db)"
  by (rule paused_workflow_starts_no_run [where t = "''t1''" and ev = signup])
    (simp_all add: pause_request_def URLParam_def signup_msg_def signup_def event_decode)

section \<open>Creating and reading a workflow\<close>

lemma find_workflow_inserted:
  assumes "insert_workflow c d r = Some (d', i)" "wf_tenant r = t"
  shows "find_workflow d' t i = Some r" "i = wf_id r"
proof -
  have r: "d' = d\<lparr>workflows := workflows d @ [r]\<rparr>" "i = wf_id r" "wf_id r \<notin> wf_id ` set (workflows d)"
    using assms(1) by (auto simp: insert_workflow_def split: if_splits)
  then have "find (\<lambda>q. wf_id q = wf_id r \<and> wf_tenant q = t) (workflows d) = None"
    by (auto simp: find_None_iff) (metis imageI)
  then show "find_workflow d' t i = Some r" "i = wf_id r"
    using r assms(2) by (simp_all add: find_workflow_def find_snoc)
qed

lemma wp_get_workflow:
  assumes "ctx_tenant rq = Some t" "t \<noteq> []" "idle w" "find_workflow (db w) t (URLParam rq ''id'') = Some r"
  shows "wp (TenantTx GetWorkflow rq) (\<lambda>b _. b = Inr (json_answer 200 (workflow_json r))) w"
proof -
  have "wp (TenantTx GetWorkflow rq) (\<lambda>b s'. idle s' \<and> b = Inr (json_answer 200 (workflow_json r))) w"
  proof (rule wp_TenantTx_running [OF assms(1-3)], goal_cases)
    case (1 s1)
    show ?case
      unfolding GetWorkflow_def tenant_of_simp [OF assms(1)] wp_on_err
      by (rule wp_running_query_row [OF 1, where x = r]) (use assms(4) in \<open>auto dest: runningD\<close>)
  qed
  then show ?thesis by (rule wp_mono) simp
qed

text \<open>
  What is created can be read back: whatever fails, a creation either leaves the tables as they
  were or is answered 201 with an id, and then, in any later state with these workflows, reading
  that id returns the name, the trigger event and the steps that were sent, active.
\<close>

theorem workflow_create_get:
  assumes "ctx_tenant rq = Some t" "t \<noteq> []" "saved w = None" "rm_body rq = Some (GObj m)"
    and "jstr m ''name'' = Some n" "jstr m ''trigger_event'' = Some e" "parr m ''steps'' = Some st"
  shows "wp (TenantTx CreateWorkflow rq) (\<lambda>r w'. db w' = db w \<or> (\<exists>i at. r = Inr (json_answer 201 (GObj [(''id'', GStr i)]))
    \<and> (\<forall>rq2 w2. ctx_tenant rq2 = Some t \<and> URLParam rq2 ''id'' = i \<and> idle w2 \<and> workflows (db w2) = workflows (db w') \<longrightarrow>
        wp (TenantTx GetWorkflow rq2) (\<lambda>b _. b = Inr (json_answer 200 (GObj [(''id'', GStr i), (''name'', GStr n),
          (''trigger_event'', GStr e), (''steps'', GArr (keep_or [] st)), (''is_active'', GBool True),
          (''created_at'', json_time at)]))) w2))) w"
proof (rule wp_TenantTx_any [OF assms(1-3)], goal_cases)
  case 1
  then show ?case by simp
next
  case (2 s)
  show ?case
  proof (cases "n = [] \<or> e = []")
    case True
    then show ?thesis using 2 assms(4-7) by (simp add: CreateWorkflow_def)
  next
    case False
    show ?thesis
      using False 2 assms(1,4-7)
      apply (simp add: CreateWorkflow_def)
      apply (rule wp_stmt)
      subgoal for s' by (simp add: quiet_in_tx failed_answer_def)
      subgoal premises p for s' c d i
      proof -
        let ?r = "\<lparr>wf_id = new_id c, wf_tenant = t, wf_name = n, wf_trigger = e,
          wf_steps = GArr (keep_or [] st), wf_active = True, wf_created = db_now c\<rparr>"
        have f: "find_workflow d t i = Some ?r" "i = new_id c"
          using find_workflow_inserted [of c _ ?r d i t] p by auto
        have "wp (TenantTx GetWorkflow rq2) (\<lambda>b _. b = Inr (json_answer 200 (GObj [(''id'', GStr i),
            (''name'', GStr n), (''trigger_event'', GStr e), (''steps'', GArr (keep_or [] st)),
            (''is_active'', GBool True), (''created_at'', json_time (db_now c))]))) w2"
          if "ctx_tenant rq2 = Some t" "URLParam rq2 ''id'' = i" "idle w2" "workflows (db w2) = workflows d" for rq2 w2
        proof -
          have "find_workflow (db w2) t (URLParam rq2 ''id'') = Some ?r"
            using f(1) that(2,4) by (simp add: find_workflow_def)
          from wp_get_workflow [OF that(1) assms(2) that(3) this] show ?thesis
            by (rule wp_mono) (simp add: workflow_json_def f(2))
        qed
        then show ?thesis
          using p by (simp add: quiet_in_tx) blast
      qed
      done
  qed
qed

definition create_request :: request where
  "create_request = sample_request\<lparr>ctx_tenant := Some ''t1'', rm_body := Some (GObj [(''name'', GStr ''welcome''),
     (''trigger_event'', GStr ''signup''), (''steps'', GArr [])])\<rparr>"

theorem workflow_create_get_witness:
  "wp (TenantTx CreateWorkflow create_request) (\<lambda>r w'. db w' = db (world0 sample_db)
    \<or> (\<exists>i at. r = Inr (json_answer 201 (GObj [(''id'', GStr i)]))
    \<and> (\<forall>rq2 w2. ctx_tenant rq2 = Some ''t1'' \<and> URLParam rq2 ''id'' = i \<and> idle w2
          \<and> workflows (db w2) = workflows (db w') \<longrightarrow>
        wp (TenantTx GetWorkflow rq2) (\<lambda>b _. b = Inr (json_answer 200 (GObj [(''id'', GStr i), (''name'', GStr ''welcome''),
          (''trigger_event'', GStr ''signup''), (''steps'', GArr (keep_or [] (Some []))), (''is_active'', GBool True),
          (''created_at'', json_time at)]))) w2))) (world0 sample_db)"
  by (rule workflow_create_get [where m = "[(''name'', GStr ''welcome''), (''trigger_event'', GStr ''signup''),
      (''steps'', GArr [])]"]) (simp_all add: create_request_def body_defs saved_def sample_defs)

end
