(* ===== verification/Admin_Api.thy ===== *)
theory Admin_Api
  imports Api_Logic Providers
begin

text \<open>
  \<^verbatim>\<open>platform/api/handler/apikeys.go\<close>, \<^verbatim>\<open>providers.go\<close> and \<^verbatim>\<open>dlt.go\<close>: the scoped API keys, the provider
  credentials and the registrations of DLT templates. The 24 bytes of \<^verbatim>\<open>crypto/rand\<close> are a
  parameter, \<open>None\<close> when the source of randomness fails.
\<close>

definition delete_rows :: "('r \<Rightarrow> bool) \<Rightarrow> 'r list \<Rightarrow> 'r list \<times> nat" where
  "delete_rows p rs = (filter (\<lambda>r. \<not> p r) rs, length (filter p rs))"

section \<open>API keys\<close>

definition api_key_json :: "api_key_row \<Rightarrow> gval" where
  "api_key_json r = GObj ([(''id'', GStr (ak_id r)), (''name'', GStr (ak_name r)),
     (''prefix'', GStr (ak_prefix r)), (''scope'', GStr (ak_scope r)), (''created_at'', json_time (ak_created r))]
     @ (case ak_revoked r of None \<Rightarrow> [] | Some at \<Rightarrow> [(''revoked_at'', json_time at)]))"

definition ListAPIKeys :: handler where
  "ListAPIKeys rq =
     on_err (query (\<lambda>c d. newest_first ak_created (filter (\<lambda>r. ak_tenant r = tenant_of rq) (api_keys d))))
       (\<lambda>_. fails 500 ''query failed'')
       (\<lambda>rs. answers (json_answer 200 (GObj [(''api_keys'', GArr (map api_key_json rs))])))"

text \<open>The key, its hash and its prefix.\<close>

definition generateAPIKey :: "nat list option \<Rightarrow> (string \<times> string \<times> string) res" where
  "generateAPIKey rnd = (case rnd of
     None \<Rightarrow> Inl (Wrap ''generate random bytes'' (Err ''rand''))
   | Some buf \<Rightarrow> (let raw = ''qn_live_'' @ EncodeToString buf in Inr (raw, sha256_hex raw, take 16 raw)))"

definition insert_api_key :: "sctx \<Rightarrow> db \<Rightarrow> api_key_row \<Rightarrow> (db \<times> string) option" where
  "insert_api_key c d r =
     (if ak_tenant r \<notin> tn_id ` set (tenants d) \<or> ak_hash r \<in> ak_hash ` set (api_keys d)
         \<or> ak_scope r \<notin> set api_scopes \<or> ak_id r \<in> ak_id ` set (api_keys d) then None
      else Some (d\<lparr>api_keys := api_keys d @ [r]\<rparr>, ak_id r))"

definition key_warning :: string where
  "key_warning = ''Store this key securely '' @ [CHR 0xE2, CHR 0x80, CHR 0x94]
     @ '' it will not be shown again.''"

definition key_row :: "string \<Rightarrow> string \<Rightarrow> string \<Rightarrow> string \<Rightarrow> string \<Rightarrow> sctx \<Rightarrow> api_key_row" where
  "key_row t n h pre sc c = \<lparr>ak_id = new_id c, ak_tenant = t, ak_name = n, ak_hash = h, ak_prefix = pre,
     ak_scope = sc, ak_created = db_now c, ak_revoked = None\<rparr>"

definition CreateAPIKey :: "nat list option \<Rightarrow> handler" where
  "CreateAPIKey rnd rq = (case body_members (rm_body rq) of None \<Rightarrow> fails 400 ''invalid json''
     | Some m \<Rightarrow> (case (jstr m ''name'', jstr m ''scope'') of
         (Some n, Some s) \<Rightarrow>
           if n = [] then fails 422 ''name is required''
           else let sc = or_default ''full'' s in
             (case generateAPIKey rnd of
                Inl e \<Rightarrow> fails 500 ''key generation failed''
              | Inr (raw, h, pre) \<Rightarrow>
                  on_err (db_stmt (\<lambda>c d. insert_api_key c d (key_row (tenant_of rq) n h pre sc c)))
                    (\<lambda>_. fails 500 ''create failed'')
                    (\<lambda>i. answers (json_answer 201 (GObj [(''id'', GStr i), (''key'', GStr raw),
                       (''prefix'', GStr pre), (''scope'', GStr sc), (''warning'', GStr key_warning)]))))
       | _ \<Rightarrow> fails 400 ''invalid json''))"

definition revoke_key :: "sctx \<Rightarrow> string \<Rightarrow> string \<Rightarrow> db \<Rightarrow> db \<times> nat" where
  "revoke_key c t i d = (let p = (\<lambda>r. ak_id r = i \<and> ak_tenant r = t \<and> ak_revoked r = None) in
     (d\<lparr>api_keys := update_where p (\<lambda>r. r\<lparr>ak_revoked := Some (db_now c)\<rparr>) (api_keys d)\<rparr>,
      length (filter p (api_keys d))))"

definition RevokeAPIKey :: handler where
  "RevokeAPIKey rq =
     on_err (db_stmt (\<lambda>c d. Some (revoke_key c (tenant_of rq) (URLParam rq ''id'') d)))
       (\<lambda>_. fails 404 ''not found or already revoked'')
       (\<lambda>n. if n = 0 then fails 404 ''not found or already revoked'' else answers (bare_answer 204))"

section \<open>Providers\<close>

definition provider_channels :: "string list" where
  "provider_channels = [''email'', ''sms'', ''whatsapp'', ''push'', ''webhook'']"

definition provider_json :: "provider_row \<Rightarrow> gval" where
  "provider_json r = GObj [(''id'', GStr (pv_id r)), (''channel'', GStr (pv_channel r)),
     (''provider'', GStr (pv_provider r)), (''priority'', GInt (pv_priority r)),
     (''is_active'', GBool (pv_active r)), (''created_at'', json_time (pv_created r))]"

definition ListProviders :: handler where
  "ListProviders rq =
     on_err (query (\<lambda>c d. sort_key pv_channel (sort_key pv_priority
         (filter (\<lambda>r. pv_tenant r = tenant_of rq) (providers d)))))
       (\<lambda>_. fails 500 ''query failed'')
       (\<lambda>rs. answers (json_answer 200 (GObj [(''providers'', GArr (map provider_json rs))])))"

definition pv_key :: "provider_row \<Rightarrow> string \<times> string \<times> string" where
  "pv_key r = (pv_tenant r, pv_channel r, pv_provider r)"

definition insert_provider :: "sctx \<Rightarrow> db \<Rightarrow> provider_row \<Rightarrow> (db \<times> string) option" where
  "insert_provider c d r =
     (if pv_tenant r \<notin> tn_id ` set (tenants d) \<or> pv_channel r \<notin> set provider_channels
         \<or> \<not> int4_ok (pv_priority r) \<or> pv_key r \<in> pv_key ` set (providers d)
         \<or> pv_id r \<in> pv_id ` set (providers d) then None
      else Some (d\<lparr>providers := providers d @ [r]\<rparr>, pv_id r))"

text \<open>\<^verbatim>\<open>pgp_sym_encrypt($5::text, $6)\<close> of the marshalled config.\<close>

definition sealed :: "env \<Rightarrow> sctx \<Rightarrow> gmap \<Rightarrow> string" where
  "sealed E c cf = e_encrypt E (new_id c) (e_marshal E (GObj cf)) (e_key E)"

definition new_provider :: "env \<Rightarrow> string \<Rightarrow> string \<Rightarrow> string \<Rightarrow> int \<Rightarrow> gmap \<Rightarrow> sctx \<Rightarrow> provider_row" where
  "new_provider E t ch pv pr cf c = \<lparr>pv_id = new_id c, pv_tenant = t, pv_channel = ch, pv_provider = pv,
     pv_priority = pr, pv_config = sealed E c cf, pv_active = True, pv_created = db_now c\<rparr>"

definition CreateProvider :: "env \<Rightarrow> handler" where
  "CreateProvider E rq = (case body_members (rm_body rq) of None \<Rightarrow> fails 400 ''invalid json''
     | Some m \<Rightarrow> (case (jstr m ''channel'', jstr m ''provider'', jint m ''priority'', pmap m ''config'') of
         (Some ch, Some pv, Some pr, Some cf) \<Rightarrow>
           if ch = [] \<or> pv = [] \<or> cf = None then fails 422 ''channel, provider, and config are required''
           else on_err (db_stmt (\<lambda>c d. insert_provider c d
                 (new_provider E (tenant_of rq) ch pv (if pr = 0 then 1 else pr) (the cf) c)))
               (\<lambda>_. fails 500 ''create failed'')
               (\<lambda>i. answers (json_answer 201 (GObj [(''id'', GStr i)])))
       | _ \<Rightarrow> fails 400 ''invalid json''))"

definition set_provider :: "string \<Rightarrow> string \<Rightarrow> (provider_row \<Rightarrow> provider_row) \<Rightarrow> db \<Rightarrow> db" where
  "set_provider t i f d = d\<lparr>providers := update_where (\<lambda>r. pv_id r = i \<and> pv_tenant r = t) f (providers d)\<rparr>"

text \<open>
  The three updates: the errors of the last two are ignored. A priority beyond 32 bits is refused by
  the driver before anything is sent.
\<close>

definition UpdateProvider :: "env \<Rightarrow> handler" where
  "UpdateProvider E rq = (let t = tenant_of rq; i = URLParam rq ''id'' in
     case body_members (rm_body rq) of None \<Rightarrow> fails 400 ''invalid json''
     | Some m \<Rightarrow> (case (pint m ''priority'', pbool m ''is_active'', pmap m ''config'') of
         (Some pr, Some a, Some cf) \<Rightarrow>
           on_err (case cf of None \<Rightarrow> ret (Inr ())
               | Some x \<Rightarrow> exec (\<lambda>c d. Some (set_provider t i (\<lambda>r. r\<lparr>pv_config := sealed E c x\<rparr>) d)))
             (\<lambda>_. fails 500 ''update failed'')
             (\<lambda>_. do {
                (case pr of None \<Rightarrow> ret (Inr ())
                 | Some n \<Rightarrow> if int4_ok n then exec (\<lambda>c d. Some (set_provider t i (\<lambda>r. r\<lparr>pv_priority := n\<rparr>) d))
                     else ret (Inl pgerr));
                (case a of None \<Rightarrow> ret (Inr ())
                 | Some b \<Rightarrow> exec (\<lambda>c d. Some (set_provider t i (\<lambda>r. r\<lparr>pv_active := b\<rparr>) d)));
                answers (json_answer 200 (GObj [(''id'', GStr i)])) })
       | _ \<Rightarrow> fails 400 ''invalid json''))"

definition drop_provider :: "string \<Rightarrow> string \<Rightarrow> db \<Rightarrow> db \<times> nat" where
  "drop_provider t i d = (let x = delete_rows (\<lambda>r. pv_id r = i \<and> pv_tenant r = t) (providers d) in
     (d\<lparr>providers := fst x\<rparr>, snd x))"

definition DeleteProvider :: handler where
  "DeleteProvider rq =
     on_err (db_stmt (\<lambda>c d. Some (drop_provider (tenant_of rq) (URLParam rq ''id'') d)))
       (\<lambda>_. fails 404 ''not found'')
       (\<lambda>n. if n = 0 then fails 404 ''not found'' else answers (bare_answer 204))"

section \<open>DLT templates\<close>

definition dlt_channels :: "string list" where "dlt_channels = [''sms'', ''whatsapp'']"
definition dlt_statuses :: "string list" where "dlt_statuses = [''pending'', ''approved'', ''rejected'']"

definition dlt_json :: "dlt_row \<Rightarrow> gval" where
  "dlt_json r = GObj ([(''id'', GStr (dl_id r)), (''carrier'', GStr (dl_carrier r)),
     (''channel'', GStr (dl_channel r)), (''template_id_ext'', GStr (dl_ext r)),
     (''template_name'', GStr (dl_name r))]
     @ omit_opt ''pe_id'' (dl_pe r) @ omit_opt ''sender_id'' (dl_sender r)
     @ [(''category'', GStr (dl_category r)), (''body_regex'', GStr (dl_regex r)),
        (''status'', GStr (dl_status r)), (''metadata'', json_map (dl_metadata r)),
        (''created_at'', json_time (dl_created r))])"

definition ListDLTTemplates :: handler where
  "ListDLTTemplates rq = (let ch = query_get rq ''channel''; ca = query_get rq ''carrier'';
       st = query_get rq ''status'' in
     on_err (query (\<lambda>c d. newest_first dl_created (filter (\<lambda>r. dl_tenant r = tenant_of rq
         \<and> (ch = [] \<or> dl_channel r = ch) \<and> (ca = [] \<or> dl_carrier r = ca) \<and> (st = [] \<or> dl_status r = st)) (dlts d))))
       (\<lambda>_. fails 500 ''query failed'')
       (\<lambda>rs. answers (json_answer 200 (GObj [(''dlt_templates'', GArr (map dlt_json rs))]))))"

definition insert_dlt :: "sctx \<Rightarrow> db \<Rightarrow> dlt_row \<Rightarrow> (db \<times> string) option" where
  "insert_dlt c d r =
     (if dl_tenant r \<notin> tn_id ` set (tenants d) \<or> dl_channel r \<notin> set dlt_channels
         \<or> dl_category r \<notin> set dlt_categories \<or> dl_id r \<in> dl_id ` set (dlts d) then None
      else Some (d\<lparr>dlts := dlts d @ [r]\<rparr>, dl_id r))"

record new_dlt =
  nd_carrier :: string
  nd_channel :: string
  nd_ext :: string
  nd_name :: string
  nd_pe :: "string option"
  nd_sender :: "string option"
  nd_kind :: string
  nd_regex :: string
  nd_metadata :: "gmap option"

definition dlt_request :: "gval option \<Rightarrow> new_dlt option" where
  "dlt_request b = (case body_members b of None \<Rightarrow> None
     | Some m \<Rightarrow> (case (jstr m ''carrier'', jstr m ''channel'', jstr m ''template_id_ext'',
           jstr m ''template_name'', pstr m ''pe_id'') of
         (Some ca, Some ch, Some x, Some n, Some pe) \<Rightarrow>
           (case (pstr m ''sender_id'', jstr m ''category'', jstr m ''body_regex'', pmap m ''metadata'') of
              (Some s, Some k, Some rx, Some md) \<Rightarrow> Some \<lparr>nd_carrier = ca, nd_channel = ch, nd_ext = x,
                nd_name = n, nd_pe = pe, nd_sender = s, nd_kind = k, nd_regex = rx, nd_metadata = md\<rparr>
            | _ \<Rightarrow> None)
       | _ \<Rightarrow> None))"

definition dlt_row_of :: "string \<Rightarrow> new_dlt \<Rightarrow> sctx \<Rightarrow> dlt_row" where
  "dlt_row_of t n c = \<lparr>dl_id = new_id c, dl_tenant = t, dl_carrier = nd_carrier n,
     dl_channel = or_default ''sms'' (nd_channel n), dl_ext = nd_ext n, dl_name = nd_name n,
     dl_pe = nd_pe n, dl_sender = nd_sender n, dl_category = or_default ''transactional'' (nd_kind n),
     dl_regex = nd_regex n, dl_status = ''pending'', dl_metadata = GObj (keep_or [] (nd_metadata n)),
     dl_created = db_now c\<rparr>"

definition RegisterDLTTemplate :: handler where
  "RegisterDLTTemplate rq = (case dlt_request (rm_body rq) of None \<Rightarrow> fails 400 ''invalid json''
     | Some n \<Rightarrow> if nd_carrier n = [] \<or> nd_ext n = [] \<or> nd_name n = [] \<or> nd_regex n = []
         then fails 422 ''carrier, template_id_ext, template_name, and body_regex are required''
         else on_err (db_stmt (\<lambda>c d. insert_dlt c d (dlt_row_of (tenant_of rq) n c)))
           (\<lambda>_. fails 500 ''create failed'')
           (\<lambda>i. answers (json_answer 201 (GObj [(''id'', GStr i), (''status'', GStr ''pending'')]))))"

definition set_dlt :: "string \<Rightarrow> string \<Rightarrow> (dlt_row \<Rightarrow> dlt_row) \<Rightarrow> db \<Rightarrow> db \<times> nat" where
  "set_dlt t i f d = (let p = (\<lambda>r. dl_id r = i \<and> dl_tenant r = t) in
     (d\<lparr>dlts := update_where p f (dlts d)\<rparr>, length (filter p (dlts d))))"

definition UpdateDLTTemplate :: handler where
  "UpdateDLTTemplate rq = (let t = tenant_of rq; i = URLParam rq ''id'' in
     case body_members (rm_body rq) of None \<Rightarrow> fails 400 ''invalid json''
     | Some m \<Rightarrow> (case (pstr m ''status'', pstr m ''pe_id'', pstr m ''sender_id'') of
         (Some st, Some pe, Some sn) \<Rightarrow>
           on_err (case st of None \<Rightarrow> ret (Inr 1)
               | Some s \<Rightarrow> db_stmt (\<lambda>c d. if s \<in> set dlt_statuses \<or> snd (set_dlt t i id d) = 0
                   then Some (set_dlt t i (\<lambda>r. r\<lparr>dl_status := s\<rparr>) d) else None))
             (\<lambda>_. fails 404 ''not found'')
             (\<lambda>n. if n = 0 then fails 404 ''not found'' else do {
                (case pe of None \<Rightarrow> ret (Inr 1)
                 | Some x \<Rightarrow> db_stmt (\<lambda>c d. Some (set_dlt t i (\<lambda>r. r\<lparr>dl_pe := Some x\<rparr>) d)));
                (case sn of None \<Rightarrow> ret (Inr 1)
                 | Some x \<Rightarrow> db_stmt (\<lambda>c d. Some (set_dlt t i (\<lambda>r. r\<lparr>dl_sender := Some x\<rparr>) d)));
                answers (json_answer 200 (GObj [(''id'', GStr i)])) })
       | _ \<Rightarrow> fails 400 ''invalid json''))"

definition drop_dlt :: "string \<Rightarrow> string \<Rightarrow> db \<Rightarrow> db \<times> nat" where
  "drop_dlt t i d = (let x = delete_rows (\<lambda>r. dl_id r = i \<and> dl_tenant r = t) (dlts d) in
     (d\<lparr>dlts := fst x\<rparr>, snd x))"

definition DeleteDLTTemplate :: handler where
  "DeleteDLTTemplate rq =
     on_err (db_stmt (\<lambda>c d. Some (drop_dlt (tenant_of rq) (URLParam rq ''id'') d)))
       (\<lambda>_. fails 404 ''not found'')
       (\<lambda>n. if n = 0 then fails 404 ''not found'' else answers (bare_answer 204))"

section \<open>Confinement\<close>

lemma others_insert_api_key:
  "insert_api_key c d r = Some (d', i) \<Longrightarrow> ak_tenant r = t \<Longrightarrow> others t d' = others t d"
  by (auto simp: insert_api_key_def others_def split: if_splits)

lemma others_revoke_key: "revoke_key c t i d = (d', n) \<Longrightarrow> others t d' = others t d"
  by (auto simp: revoke_key_def others_def Let_def intro!: filter_update_where)

lemma others_insert_provider:
  "insert_provider c d r = Some (d', i) \<Longrightarrow> pv_tenant r = t \<Longrightarrow> others t d' = others t d"
  by (auto simp: insert_provider_def others_def split: if_splits)

lemma others_set_provider:
  "(\<And>r. pv_tenant (f r) = pv_tenant r) \<Longrightarrow> others t (set_provider t i f d) = others t d"
  by (auto simp: set_provider_def others_def intro!: filter_update_where)

lemma filter_filter_out: "(\<And>r. p r \<Longrightarrow> \<not> q r) \<Longrightarrow> filter q (filter (\<lambda>r. \<not> p r) rs) = filter q rs"
  by (induction rs) auto

lemma others_drop_provider: "drop_provider t i d = (d', n) \<Longrightarrow> others t d' = others t d"
  using filter_filter_out [of "\<lambda>r. pv_id r = i \<and> pv_tenant r = t" "\<lambda>r. pv_tenant r \<noteq> t" "providers d"]
  by (auto simp: drop_provider_def delete_rows_def others_def Let_def)

lemma others_insert_dlt:
  "insert_dlt c d r = Some (d', i) \<Longrightarrow> dl_tenant r = t \<Longrightarrow> others t d' = others t d"
  by (auto simp: insert_dlt_def others_def split: if_splits)

lemma others_set_dlt:
  "set_dlt t i f d = (d', n) \<Longrightarrow> (\<And>r. dl_tenant (f r) = dl_tenant r) \<Longrightarrow> others t d' = others t d"
  by (auto simp: set_dlt_def others_def Let_def intro!: filter_update_where)

lemma others_drop_dlt: "drop_dlt t i d = (d', n) \<Longrightarrow> others t d' = others t d"
  using filter_filter_out [of "\<lambda>r. dl_id r = i \<and> dl_tenant r = t" "\<lambda>r. dl_tenant r \<noteq> t" "dlts d"]
  by (auto simp: drop_dlt_def delete_rows_def others_def Let_def)

interpretation list_keys: tenant_handler ListAPIKeys
  by unfold_locales (auto simp: ListAPIKeys_def intro!: keeps_rules)

interpretation create_key: tenant_handler "CreateAPIKey rnd"
  by unfold_locales (auto simp: CreateAPIKey_def Let_def key_row_def dest!: others_insert_api_key
      intro!: keeps_rules keeps_confined_stmt split: option.splits)

interpretation revoke_key: tenant_handler RevokeAPIKey
  by unfold_locales (auto simp: RevokeAPIKey_def dest!: others_revoke_key intro!: keeps_rules keeps_confined_stmt)

interpretation list_providers: tenant_handler ListProviders
  by unfold_locales (auto simp: ListProviders_def intro!: keeps_rules)

interpretation create_provider: tenant_handler "CreateProvider E"
  by unfold_locales (auto simp: CreateProvider_def new_provider_def dest!: others_insert_provider
      intro!: keeps_rules keeps_confined_stmt split: option.splits)

interpretation update_provider: tenant_handler "UpdateProvider E"
  by unfold_locales (auto simp: UpdateProvider_def Let_def others_set_provider
      intro!: keeps_rules keeps_confined_exec split: option.splits)

interpretation delete_provider: tenant_handler DeleteProvider
  by unfold_locales (auto simp: DeleteProvider_def dest!: others_drop_provider
      intro!: keeps_rules keeps_confined_stmt)

interpretation list_dlt: tenant_handler ListDLTTemplates
  by unfold_locales (auto simp: ListDLTTemplates_def Let_def intro!: keeps_rules)

interpretation register_dlt: tenant_handler RegisterDLTTemplate
  by unfold_locales (auto simp: RegisterDLTTemplate_def dlt_row_of_def dest!: others_insert_dlt
      intro!: keeps_rules keeps_confined_stmt split: option.splits)

interpretation update_dlt: tenant_handler UpdateDLTTemplate
  by unfold_locales (auto simp: UpdateDLTTemplate_def Let_def dest!: others_set_dlt
      intro!: keeps_rules keeps_confined_stmt split: option.splits if_splits)

interpretation delete_dlt: tenant_handler DeleteDLTTemplate
  by unfold_locales (auto simp: DeleteDLTTemplate_def dest!: others_drop_dlt
      intro!: keeps_rules keeps_confined_stmt)

end
