(* ===== verification/Blindness.thy ===== *)
theory Blindness
  imports Api_Logic
begin

text \<open>
  Noninterference. \<open>through v w\<close> is the world \<open>w\<close> with its tables, and the tables its transaction would
  roll back to, seen through \<open>v\<close>; a computation is blind to \<open>v\<close> when it behaves the same, up to \<open>v\<close>, in
  both worlds. What \<open>v\<close> hides cannot influence an answer.
\<close>

definition through :: "(db \<Rightarrow> db) \<Rightarrow> world \<Rightarrow> world" where
  "through v w = w\<lparr>db := v (db w), tx := map_option (\<lambda>T. T\<lparr>tx_saved := v (tx_saved T)\<rparr>) (tx w)\<rparr>"

definition blind :: "(db \<Rightarrow> db) \<Rightarrow> 'a app \<Rightarrow> bool" where
  "blind v m \<longleftrightarrow> (\<forall>w. run_state m (through v w) = apsnd (through v) (run_state m w))"

named_theorems blind_rules

lemma through_fields [simp]: "db (through v w) = v (db w)" "db_faults (through v w) = db_faults w"
  "clock (through v w) = clock w" "ticks (through v w) = ticks w" "fresh (through v w) = fresh w"
  "next_id (through v w) = next_id w" "kv (through v w) = kv w" "kv_faults (through v w) = kv_faults w"
  "tx (through v w) = map_option (\<lambda>T. T\<lparr>tx_saved := v (tx_saved T)\<rparr>) (tx w)"
  by (simp_all add: through_def)

lemma blind_return [blind_rules]: "blind v (ret x)"
  by (simp add: blind_def)

lemma blind_bind [blind_rules]: "blind v m \<Longrightarrow> (\<And>x. blind v (k x)) \<Longrightarrow> blind v (m \<bind> k)"
  by (auto simp: blind_def State_Monad.bind_def split: prod.splits)

lemma blind_on_err [blind_rules]:
  "blind v m \<Longrightarrow> (\<And>e. blind v (h e)) \<Longrightarrow> (\<And>x. blind v (k x)) \<Longrightarrow> blind v (on_err m h k)"
  unfolding on_err_def by (intro blind_bind) (auto split: sum.splits)

lemma blind_if [blind_rules]: "blind v m \<Longrightarrow> blind v m' \<Longrightarrow> blind v (if b then m else m')"
  by simp

lemma blind_case_option [blind_rules]:
  "blind v m \<Longrightarrow> (\<And>x. blind v (k x)) \<Longrightarrow> blind v (case z of None \<Rightarrow> m | Some x \<Rightarrow> k x)"
  by (cases z) auto

lemma blind_case_prod [blind_rules]: "(\<And>x y. blind v (k x y)) \<Longrightarrow> blind v (case z of (x, y) \<Rightarrow> k x y)"
  by (cases z) auto

lemma blind_let [blind_rules]: "(\<And>x. blind v (k x)) \<Longrightarrow> blind v (Let z k)"
  by simp

lemmas blind_run = blind_def run_defs through_def

lemma blind_tx [blind_rules]: "blind v begin_tx" "blind v (set_tenant t)" "blind v roll_back" "blind v commit_tx"
  by (auto simp: blind_run split: option.splits)

lemma blind_stmt:
  assumes "\<And>c d. g c (v d) = map_option (apfst (v)) (g c d)"
  shows "blind v (db_stmt g)"
  unfolding blind_def
proof
  fix w
  show "run_state (db_stmt g) (through v w) = apsnd (through v) (run_state (db_stmt g) w)"
    by (cases "tx w") (auto simp: run_defs through_def assms split: option.splits)
qed

lemma blind_query [blind_rules]:
  "(\<And>c d. g c (v d) = g c d) \<Longrightarrow> blind v (query g)"
  "(\<And>c d. h c (v d) = h c d) \<Longrightarrow> blind v (query_row h)"
  unfolding query_def query_row_def and_then_def
  by (intro blind_rules blind_stmt; simp)+

lemma blind_redis [blind_rules]: "blind v (redis_IncrExpire g k ttl)"
  by (auto simp: blind_run redis_IncrExpire_def kv_live_def split: option.splits)

text \<open>A query whose rows only matter through what \<open>F\<close> shows of them.\<close>

lemma blind_shown:
  assumes "\<And>c d. F (g c (v d)) = F (g c d)" "\<And>e. blind v (h e)" "\<And>y. blind v (k y)"
  shows "blind v (on_err (query g) h (\<lambda>x. k (F x)))"
  unfolding blind_def
proof
  fix w
  obtain r w' where q: "run_state (query g) w = (r, w')" by (cases "run_state (query g) w")
  have "\<exists>r'. run_state (query g) (through v w) = (r', through v w') \<and>
      (case (r, r') of (Inl e, Inl e') \<Rightarrow> e = e' | (Inr x, Inr x') \<Rightarrow> F x = F x' | _ \<Rightarrow> False)"
    using q assms(1) by (cases "tx w") (auto simp: run_defs through_def split: if_splits)
  then obtain r' where q': "run_state (query g) (through v w) = (r', through v w')"
    "case (r, r') of (Inl e, Inl e') \<Rightarrow> e = e' | (Inr x, Inr x') \<Rightarrow> F x = F x' | _ \<Rightarrow> False" by blast
  show "run_state (on_err (query g) h (\<lambda>x. k (F x))) (through v w)
      = apsnd (through v) (run_state (on_err (query g) h (\<lambda>x. k (F x))) w)"
    using q q' assms(2,3) by (auto simp: on_err_def State_Monad.bind_def blind_def split: sum.splits)
qed

lemma blind_and_then [blind_rules]: "blind v m \<Longrightarrow> (\<And>x. blind v (k x)) \<Longrightarrow> blind v (and_then m k)"
  unfolding and_then_def by (intro blind_rules)

lemma blind_same:
  assumes "blind v m" "through v w = through v w'"
  shows "fst (run_state m w) = fst (run_state m w')"
proof -
  have "fst (run_state m (through v w)) = fst (run_state m w)" for w
    using assms(1) by (simp add: blind_def)
  with assms(2) show ?thesis by metis
qed

end
