(* ===== verification/Admin_Spec.thy ===== *)
theory Admin_Spec
  imports Admin_Api Blindness
begin

text \<open>
  What the administrative handlers promise: the life of an API key from its creation to the refusal
  of every request that carries it after its revocation, the way of a provider's credentials from
  the request to the workers, and that no listing shows them.
\<close>

section \<open>The life of an API key\<close>

lemma select_inserted_key:
  assumes "insert_api_key c d r = Some (d', i)" "ak_revoked r = None"
  shows "key_owner d' (ak_hash r) = Some (ak_tenant r, ak_scope r)"
proof -
  have r: "d' = d\<lparr>api_keys := api_keys d @ [r]\<rparr>" "ak_hash r \<notin> ak_hash ` set (api_keys d)"
    using assms(1) by (auto simp: insert_api_key_def split: if_splits)
  then have "find (\<lambda>q. ak_hash q = ak_hash r \<and> ak_revoked q = None) (api_keys d) = None"
    by (auto simp: find_None_iff) (metis imageI)
  then show ?thesis using assms(2) r(1) by (simp add: key_owner_def select_api_key_def find_snoc)
qed

definition key_made :: "db \<Rightarrow> string \<Rightarrow> string \<Rightarrow> nat list option \<Rightarrow> answer res \<Rightarrow> db \<Rightarrow> bool" where
  "key_made d0 t sc rnd r d \<longleftrightarrow> d = d0 \<or> (\<exists>i key buf row. rnd = Some buf
    \<and> key = ''qn_live_'' @ EncodeToString buf
    \<and> r = Inr (json_answer 201 (GObj [(''id'', GStr i), (''key'', GStr key), (''prefix'', GStr (take 16 key)),
        (''scope'', GStr sc), (''warning'', GStr key_warning)]))
    \<and> key_owner d (hashAPIKey key) = Some (t, sc) \<and> d = d0\<lparr>api_keys := api_keys d0 @ [row]\<rparr>
    \<and> (ak_hash row, ak_prefix row, ak_scope row) = (hashAPIKey key, take 16 key, sc)
    \<and> ak_scope row \<in> {''full'', ''read'', ''send''})"

lemma key_made_same [simp]: "key_made d0 t sc rnd r d0"
  by (simp add: key_made_def)

lemma key_made_new:
  assumes "key = ''qn_live_'' @ EncodeToString buf"
    and "insert_api_key c d0 (key_row t n (hashAPIKey key) (take 16 key) sc c) = Some (d, i)"
  shows "key_made d0 t sc (Some buf) (Inr (json_answer 201 (GObj [(''id'', GStr i), (''key'', GStr key),
      (''prefix'', GStr (take 16 key)), (''scope'', GStr sc), (''warning'', GStr key_warning)]))) d"
proof -
  let ?row = "key_row t n (hashAPIKey key) (take 16 key) sc c"
  have d: "d = d0\<lparr>api_keys := api_keys d0 @ [?row]\<rparr>" "ak_scope ?row \<in> {''full'', ''read'', ''send''}"
    using assms(2) by (auto simp: insert_api_key_def api_scopes_def split: if_splits)
  have "key_owner d (hashAPIKey key) = Some (t, sc)"
    using select_inserted_key [OF assms(2)] by (simp add: key_row_def)
  with assms(1) d show ?thesis
    unfolding key_made_def
    by (intro disjI2 exI [of _ i] exI [of _ key] exI [of _ buf] exI [of _ ?row]) (simp add: key_row_def)
qed

text \<open>
  A created key works: whatever fails, either no row changes, or the answer is 201 with a key that
  from then on authenticates as the request's tenant with the scope asked for, \<open>full\<close> when none
  was, and with nothing else. Only its hash and its first sixteen characters are stored.
\<close>

theorem created_key_works:
  assumes "ctx_tenant rq = Some t" "t \<noteq> []" "saved w = None" "rm_body rq = Some (GObj m)" "jstr m ''scope'' = Some s"
  shows "wp (TenantTx (CreateAPIKey rnd) rq) (\<lambda>r w'. db w' = db w \<or> (\<exists>i key buf row. rnd = Some buf
    \<and> key = ''qn_live_'' @ EncodeToString buf
    \<and> r = Inr (json_answer 201 (GObj [(''id'', GStr i), (''key'', GStr key), (''prefix'', GStr (take 16 key)),
        (''scope'', GStr (or_default ''full'' s)), (''warning'', GStr key_warning)]))
    \<and> key_owner (db w') (hashAPIKey key) = Some (t, or_default ''full'' s)
    \<and> db w' = (db w)\<lparr>api_keys := api_keys (db w) @ [row]\<rparr>
    \<and> (ak_hash row, ak_prefix row, ak_scope row) = (hashAPIKey key, take 16 key, or_default ''full'' s)
    \<and> ak_scope row \<in> {''full'', ''read'', ''send''})) w"
proof -
  let ?sc = "or_default ''full'' s"
  have "wp (TenantTx (CreateAPIKey rnd) rq) (\<lambda>r w'. key_made (db w) t ?sc rnd r (db w')) w"
  proof (rule wp_TenantTx_any [OF assms(1-3)], goal_cases)
    case 1
    show ?case by simp
  next
    case (2 st)
    show ?case
    proof (cases "\<exists>n buf. jstr m ''name'' = Some n \<and> n \<noteq> [] \<and> rnd = Some buf")
      case False
      then show ?thesis using 2 assms(4,5)
        by (cases "jstr m ''name''"; cases rnd) (simp_all add: CreateAPIKey_def generateAPIKey_def)
    next
      case True
      then obtain n buf where n: "jstr m ''name'' = Some n" "n \<noteq> []" "rnd = Some buf" by blast
      have run: "CreateAPIKey rnd rq = on_err (db_stmt (\<lambda>c d. insert_api_key c d (key_row t n
          (hashAPIKey (''qn_live_'' @ EncodeToString buf)) (take 16 (''qn_live_'' @ EncodeToString buf)) ?sc c)))
          (\<lambda>_. fails 500 ''create failed'')
          (\<lambda>i. answers (json_answer 201 (GObj [(''id'', GStr i), (''key'', GStr (''qn_live_'' @ EncodeToString buf)),
             (''prefix'', GStr (take 16 (''qn_live_'' @ EncodeToString buf))), (''scope'', GStr ?sc),
             (''warning'', GStr key_warning)])))"
        using n assms(1,4,5) by (simp add: CreateAPIKey_def generateAPIKey_def hashAPIKey_def Let_def)
      show ?thesis
        unfolding run wp_on_err
      proof (rule wp_stmt, goal_cases)
        case (1 s')
        then show ?case using 2 by (simp add: quiet_in_tx quietD(1))
      next
        case (2 s' c d i)
        then show ?case
          using key_made_new [OF refl, of c "db w" t n buf ?sc d i] n(3) \<open>in_tx t (db w) st\<close> \<open>db st = db w\<close>
          by (simp add: quiet_in_tx del: append.simps)
      qed
    qed
  qed
  then show ?thesis unfolding key_made_def .
qed

text \<open>A key of its own, and the request that makes it.\<close>

definition key_request :: request where
  "key_request = sample_request\<lparr>ctx_tenant := Some ''t1'', rm_params := [(''id'', ''k1'')],
     rm_body := Some (GObj [(''name'', GStr ''ci''), (''scope'', GStr ''send'')])\<rparr>"

theorem created_key_works_witness:
  "wp (TenantTx (CreateAPIKey (Some (replicate 24 7))) key_request) (\<lambda>r w'. db w' = db (world0 sample_db)
    \<or> (\<exists>i key buf row. Some (replicate 24 7) = Some buf
    \<and> key = ''qn_live_'' @ EncodeToString buf
    \<and> r = Inr (json_answer 201 (GObj [(''id'', GStr i), (''key'', GStr key), (''prefix'', GStr (take 16 key)),
        (''scope'', GStr (or_default ''full'' ''send'')), (''warning'', GStr key_warning)]))
    \<and> key_owner (db w') (hashAPIKey key) = Some (''t1'', or_default ''full'' ''send'')
    \<and> db w' = (db (world0 sample_db))\<lparr>api_keys := api_keys (db (world0 sample_db)) @ [row]\<rparr>
    \<and> (ak_hash row, ak_prefix row, ak_scope row) = (hashAPIKey key, take 16 key, or_default ''full'' ''send'')
    \<and> ak_scope row \<in> {''full'', ''read'', ''send''})) (world0 sample_db)"
  by (rule created_key_works [where m = "[(''name'', GStr ''ci''), (''scope'', GStr ''send'')]"])
    (simp_all add: key_request_def body_defs saved_def sample_defs)

text \<open>A hash that no key row admits any more, and that is no tenant's master key, grants nothing.\<close>

definition one_key :: "db \<Rightarrow> string \<Rightarrow> string \<Rightarrow> string \<Rightarrow> bool" where
  "one_key d t i h \<longleftrightarrow> (\<exists>r \<in> set (api_keys d). ak_id r = i \<and> ak_tenant r = t \<and> ak_hash r = h)
     \<and> distinct (map ak_hash (api_keys d)) \<and> select_master_key d h = None"

lemma revoked_owner:
  assumes "one_key d t i h"
  shows "key_owner (fst (revoke_key c t i d)) h = None"
proof -
  have "ak_revoked r \<noteq> None" if "r \<in> set (api_keys (fst (revoke_key c t i d)))" "ak_hash r = h" for r
  proof -
    from that(1) obtain q where q: "q \<in> set (api_keys d)"
      "r = (if ak_id q = i \<and> ak_tenant q = t \<and> ak_revoked q = None then q\<lparr>ak_revoked := Some (db_now c)\<rparr> else q)"
      by (auto simp: revoke_key_def Let_def in_update_where)
    then have "ak_hash q = h" using that(2) by (auto split: if_splits)
    moreover obtain k where k: "k \<in> set (api_keys d)" "ak_id k = i" "ak_tenant k = t" "ak_hash k = h"
      using assms by (auto simp: one_key_def)
    ultimately have "q = k" using assms q(1) by (auto simp: one_key_def distinct_map inj_on_def)
    with k q(2) show ?thesis by auto
  qed
  then have "select_api_key (fst (revoke_key c t i d)) h = None"
    by (auto simp: select_api_key_def find_None_iff)
  moreover have "tenants (fst (revoke_key c t i d)) = tenants d" by (simp add: revoke_key_def Let_def)
  ultimately show ?thesis using assms by (simp add: key_owner_def one_key_def select_master_key_def)
qed

lemma denied_without_owner:
  assumes "saved w = None" "key_owner (db w) (hashAPIKey (header rq ''X-Qeet-Api-Key'')) = None"
  shows "wp (api_v1 h rq) (\<lambda>r w'. quiet w w' \<and> denied r) w"
proof -
  have "granted (db w) rq = None" using assms(2) by (simp add: granted_def Let_def)
  then show ?thesis
    unfolding api_v1_def by (intro wp_gates [OF _ _ assms(1)]) auto
qed

text \<open>A key that is known and grants nothing.\<close>

definition dead_key :: "string \<Rightarrow> db \<Rightarrow> bool" where
  "dead_key h d \<longleftrightarrow> h \<in> ak_hash ` set (api_keys d) \<and> key_owner d h = None"

lemma revoke_same_hashes: "map ak_hash (api_keys (fst (revoke_key c t i d))) = map ak_hash (api_keys d)"
  by (simp add: revoke_key_def Let_def update_where_def)

lemma revoked_dead: "one_key d t i h \<Longrightarrow> dead_key h (fst (revoke_key c t i d))"
  using arg_cong [OF revoke_same_hashes [of c t i d], of set] revoked_owner [of d t i h c]
  by (auto simp: dead_key_def one_key_def)

lemma revocation_kills:
  assumes "ctx_tenant rq = Some t" "t \<noteq> []" "idle w" "one_key (db w) t (URLParam rq ''id'') (hashAPIKey key)"
  shows "wp (TenantTx RevokeAPIKey rq) (\<lambda>r w'. idle w' \<and> status_of r \<in> {204, 404}
    \<and> dead_key (hashAPIKey key) (db w')) w"
proof (rule wp_TenantTx_running [OF assms(1-3)], goal_cases)
  case (1 s)
  show ?case
    unfolding RevokeAPIKey_def tenant_of_simp [OF assms(1)] wp_on_err
  proof (rule wp_running_stmt [OF 1], goal_cases)
    case (2 s' c d n)
    then have d: "d = fst (revoke_key c t (URLParam rq ''id'') (db w))" "n = snd (revoke_key c t (URLParam rq ''id'') (db w))"
      by simp_all
    have "dead_key (hashAPIKey key) d" unfolding d(1) by (rule revoked_dead [OF assms(4)])
    moreover have "d = db w" if "n = 0"
    proof -
      have "update_where (\<lambda>r. ak_id r = URLParam rq ''id'' \<and> ak_tenant r = t \<and> ak_revoked r = None) f (api_keys (db w))
          = api_keys (db w)" for f
        using that unfolding d(2)
        by (intro update_where_none) (simp add: revoke_key_def Let_def filter_empty_conv)
      then show ?thesis unfolding d(1) by (simp add: revoke_key_def Let_def)
    qed
    ultimately show ?case using 2 by (auto simp: settled_db_def failed_answer_def)
  qed simp
qed

definition two_keys_db :: db where
  "two_keys_db = sample_db\<lparr>api_keys := [\<lparr>ak_id = ''k1'', ak_tenant = ''t1'', ak_name = ''ci'',
     ak_hash = hashAPIKey ''secret'', ak_prefix = ''qn_live_'', ak_scope = ''full'', ak_created = 0,
     ak_revoked = None\<rparr>]\<rparr>"

text \<open>The hash of a key has 64 characters, the master key of the sample tenant one.\<close>

lemma hash_not_short: "hashAPIKey k \<noteq> [c]"
  by (metis hashAPIKey_def length_sha256_hex One_nat_def length_Cons list.size(3) numeral_eq_one_iff semiring_norm(85))

section \<open>Provider credentials\<close>

text \<open>
  The credentials of a provider reach the workers that use them: whatever fails, a creation either
  changes no row or is answered 201, and then the providers that routing loads for the channel
  include this one, with its priority and with exactly the configuration that was sent, in any
  later state with these providers. This rests on pgcrypto and \<^verbatim>\<open>encoding/json\<close>: decrypting what
  was encrypted with the same key, and parsing what was marshalled, give the value back.
\<close>

theorem provider_credentials_arrive:
  assumes "ctx_tenant rq = Some t" "t \<noteq> []" "saved w = None" "rm_body rq = Some (GObj m)"
    and "jstr m ''channel'' = Some ch" "jstr m ''provider'' = Some pv" "jint m ''priority'' = Some pr"
      "pmap m ''config'' = Some (Some cf)" "ch \<noteq> []" "pv \<noteq> []"
    and seal: "\<And>s x. e_decrypt E (e_encrypt E s x (e_key E)) (e_key E) = x" "\<And>s x. e_encrypt E s x (e_key E) \<noteq> []"
    and json: "e_parse E (e_marshal E (GObj cf)) = Some (GObj cf)"
  shows "wp (TenantTx (CreateProvider E) rq) (\<lambda>r w'. db w' = db w \<or>
    (\<exists>i. r = Inr (json_answer 201 (GObj [(''id'', GStr i)])) \<and>
      (\<forall>w2. providers (db w2) = providers (db w') \<longrightarrow> wp (routing_Load E t ch) (\<lambda>x _. case x of Inl e \<Rightarrow> True
        | Inr recs \<Rightarrow> \<exists>rec \<in> set recs. rr_name rec = pv \<and> rr_priority rec = (if pr = 0 then 1 else pr)
            \<and> config_obj E rec = Some cf) w2))) w"
proof -
  let ?pr = "if pr = 0 then 1 else pr"
  define arrives where "arrives d \<longleftrightarrow> (\<forall>w2. providers (db w2) = providers d \<longrightarrow>
      wp (routing_Load E t ch) (\<lambda>x _. case x of Inl e \<Rightarrow> True
        | Inr recs \<Rightarrow> \<exists>rec \<in> set recs. rr_name rec = pv \<and> rr_priority rec = ?pr \<and> config_obj E rec = Some cf) w2)"
    for d :: db
  have stored: "arrives d"
    if "insert_provider c d0 (new_provider E t ch pv ?pr cf c) = Some (d, i)" for c d0 d i
  proof -
    let ?r = "new_provider E t ch pv ?pr cf c"
    have "?r \<in> set (providers d)" using that by (auto simp: insert_provider_def split: if_splits)
    then have sel: "?r \<in> set (select_providers d2 t ch)" if "providers d2 = providers d" for d2
      using that by (simp add: select_providers_def new_provider_def)
    have "config_obj E \<lparr>rr_name = pv, rr_config = notify_decrypt E (pv_config ?r), rr_priority = ?pr\<rparr> = Some cf"
      using seal json by (simp add: config_obj_def new_provider_def sealed_def notify_decrypt_def)
    moreover have "pv_provider ?r = pv" "pv_priority ?r = ?pr" by (simp_all add: new_provider_def)
    ultimately show ?thesis
      unfolding arrives_def routing_Load_def wp_on_err
      using sel by (auto intro!: wp_query bexI [of _ ?r])
  qed
  have "wp (TenantTx (CreateProvider E) rq) (\<lambda>r w'. db w' = db w \<or>
      (\<exists>i. r = Inr (json_answer 201 (GObj [(''id'', GStr i)])) \<and> arrives (db w'))) w"
  proof (rule wp_TenantTx_any [OF assms(1-3)], goal_cases)
    case 1
    then show ?case by simp
  next
    case (2 st)
    have run: "CreateProvider E rq = on_err (db_stmt (\<lambda>c d. insert_provider c d (new_provider E t ch pv ?pr cf c)))
        (\<lambda>_. fails 500 ''create failed'') (\<lambda>i. answers (json_answer 201 (GObj [(''id'', GStr i)])))"
      using assms(1,4-10) by (simp add: CreateProvider_def)
    show ?case
      unfolding run wp_on_err
    proof (rule wp_stmt, goal_cases)
      case (1 s')
      then show ?case using 2 by (simp add: quiet_in_tx quietD(1))
    next
      case (2 s' c d i)
      then show ?case using stored [of c "db w" d i] \<open>in_tx t (db w) st\<close> \<open>db st = db w\<close>
        by (simp add: quiet_in_tx) blast
    qed
  qed
  then show ?thesis unfolding arrives_def .
qed

text \<open>Sealing by a mark in front, the JSON text of every object \<open>{}\<close>.\<close>

definition toy_env :: env where
  "toy_env = sample_env\<lparr>e_encrypt := (\<lambda>s x k. CHR ''c'' # x), e_decrypt := (\<lambda>x k. tl x),
     e_marshal := (\<lambda>_. ''{}''), e_parse := (\<lambda>_. Some (GObj []))\<rparr>"

definition provider_request :: request where
  "provider_request = sample_request\<lparr>ctx_tenant := Some ''t1'', rm_body := Some (GObj [(''channel'', GStr ''email''),
     (''provider'', GStr ''resend''), (''config'', GObj [])])\<rparr>"

theorem provider_credentials_arrive_witness:
  "wp (TenantTx (CreateProvider toy_env) provider_request) (\<lambda>r w'. db w' = db (world0 sample_db) \<or>
    (\<exists>i. r = Inr (json_answer 201 (GObj [(''id'', GStr i)])) \<and>
      (\<forall>w2. providers (db w2) = providers (db w') \<longrightarrow> wp (routing_Load toy_env ''t1'' ''email'')
        (\<lambda>x _. case x of Inl e \<Rightarrow> True
        | Inr recs \<Rightarrow> \<exists>rec \<in> set recs. rr_name rec = ''resend'' \<and> rr_priority rec = (if (0::int) = 0 then 1 else 0)
            \<and> config_obj toy_env rec = Some []) w2))) (world0 sample_db)"
  by (rule provider_credentials_arrive [where m = "[(''channel'', GStr ''email''), (''provider'', GStr ''resend''),
      (''config'', GObj [])]"])
    (simp_all add: provider_request_def toy_env_def body_defs saved_def sample_defs)

section \<open>Listings and credentials\<close>

text \<open>A database with other credentials: every stored configuration replaced.\<close>

definition reseal :: "(provider_row \<Rightarrow> string) \<Rightarrow> db \<Rightarrow> db" where
  "reseal f d = d\<lparr>providers := map (\<lambda>r. r\<lparr>pv_config := f r\<rparr>) (providers d)\<rparr>"

lemma sort_key_reseal: "(\<And>r. k (g r) = k r) \<Longrightarrow> sort_key k (map g rs) = map g (sort_key k rs)"
proof -
  assume k: "\<And>r. k (g r) = k r"
  then have "insort_key k (g r) (map g rs) = map g (insort_key k r rs)" for r rs
    by (induction rs) auto
  then show ?thesis by (induction rs) auto
qed

lemma blind_ListProviders: "blind (reseal f) (ListProviders rq)"
proof -
  let ?rows = "\<lambda>d. sort_key pv_channel (sort_key pv_priority (filter (\<lambda>r. pv_tenant r = tenant_of rq) (providers d)))"
  have rows: "?rows (reseal f d) = map (\<lambda>r. r\<lparr>pv_config := f r\<rparr>) (?rows d)" for d
    by (simp add: reseal_def filter_map o_def sort_key_reseal)
  have shown: "map provider_json (map (\<lambda>r. r\<lparr>pv_config := f r\<rparr>) rs) = map provider_json rs" for rs
    by (simp add: provider_json_def)
  show ?thesis
    unfolding ListProviders_def
    by (rule blind_shown [where F = "map provider_json"
        and k = "\<lambda>js. answers (json_answer 200 (GObj [(''providers'', GArr js)]))"])
      (simp_all only: rows shown blind_return)
qed

text \<open>
  The listing of providers cannot reveal a credential: whatever request is sent to it, whatever its
  key and whatever fails, the whole chain from authentication to the audit trail gives the same
  answer in a world in which every stored provider configuration is another one.
\<close>

theorem listing_hides_credentials:
  "fst (run_state (recoverer (api_v1 ListProviders) rq) (through (reseal f) w))
    = fst (run_state (recoverer (api_v1 ListProviders) rq) w)"
proof -
  have key: "select_api_key (reseal f d) = select_api_key d" "select_master_key (reseal f d) = select_master_key d" for d
    by (auto simp: reseal_def select_api_key_def select_master_key_def)
  have audit: "blind (reseal f) (RunInTenant t (exec (\<lambda>c d. insert_audit c d (row c))))" for t row
    unfolding RunInTenant_def in_tenant_tx_def exec_def
    by (intro blind_rules blind_stmt) (auto simp: insert_audit_def reseal_def)
  have "blind (reseal f) (recoverer (api_v1 ListProviders) rq)"
    unfolding recoverer_def api_v1_def Auth_def LookupTenantByKey_def ScopeGuard_def RateLimit_def Audit_def
      TenantTx_def
    by (intro blind_rules blind_ListProviders audit) (simp_all add: key)
  then show ?thesis by (simp add: blind_def)
qed

end
