(* ===== verification/Reads_Api.thy ===== *)
theory Reads_Api
  imports Email_Events Messaging
begin

text \<open>
  What the console reads: \<^verbatim>\<open>platform/api/handler/notifications.go\<close>, \<^verbatim>\<open>auditlogs.go\<close>, \<^verbatim>\<open>analytics.go\<close>,
  \<^verbatim>\<open>health.go\<close>, the feed of \<^verbatim>\<open>sse.go\<close>, and \<^verbatim>\<open>domains/analytics\<close>, whose aggregator turns the delivery
  events of the bus into the rows that are counted. The Prometheus counters are not in the state.
\<close>

section \<open>Notifications\<close>

definition opt_filter :: "request \<Rightarrow> string \<Rightarrow> string \<Rightarrow> bool" where
  "opt_filter rq k v \<longleftrightarrow> (let x = query_get rq k in x = [] \<or> v = x)"

definition notification_json :: "notification_row \<Rightarrow> gval" where
  "notification_json r = GObj ([(''id'', GStr (nt_id r))] @ omit_opt ''workflow_run_id'' (nt_run r)
     @ [(''subscriber_id'', GStr (nt_subscriber r)), (''channel'', GStr (nt_channel r))]
     @ omit_opt ''template_id'' (nt_template r) @ [(''status'', GStr (nt_status r))]
     @ omit_opt ''provider'' (nt_provider r) @ omit_opt ''provider_message_id'' (nt_provider_msg r)
     @ [(''content'', json_map (nt_content r)), (''is_read'', GBool (nt_read r)),
        (''created_at'', json_time (nt_created r))])"

definition listed_notifications :: "db \<Rightarrow> string \<Rightarrow> request \<Rightarrow> notification_row list" where
  "listed_notifications d t rq = filter (\<lambda>r. nt_tenant r = t \<and> opt_filter rq ''status'' (nt_status r)
     \<and> opt_filter rq ''channel'' (nt_channel r) \<and> opt_filter rq ''subscriber_id'' (nt_subscriber r)) (notifications d)"

definition count_or_0 :: "nat res \<Rightarrow> gval" where
  "count_or_0 n = GInt64 (case n of Inl _ \<Rightarrow> 0 | Inr k \<Rightarrow> int k)"

definition ListNotifications :: handler where
  "ListNotifications rq = do {
     n \<leftarrow> query (\<lambda>c d. length (listed_notifications d (tenant_of rq) rq));
     on_err (query (\<lambda>c d. page rq (newest_first nt_created (listed_notifications d (tenant_of rq) rq))))
       (\<lambda>_. fails 500 ''query failed'')
       (\<lambda>rs. answers (json_answer 200 (GObj [(''notifications'', GArr (map notification_json rs)),
          (''total'', count_or_0 n)]))) }"

definition find_notification :: "db \<Rightarrow> string \<Rightarrow> string \<Rightarrow> notification_row option" where
  "find_notification d t i = find (\<lambda>r. nt_id r = i \<and> nt_tenant r = t) (notifications d)"

text \<open>The history of a notification, oldest first; a row without a provider does not scan.\<close>

definition history_rows :: "db \<Rightarrow> string \<Rightarrow> delivery_row list" where
  "history_rows d i = sort_key de_at (filter (\<lambda>r. de_notification r = i) (deliveries d))"

fun delivery_json :: "delivery_row \<Rightarrow> gval option" where
  "delivery_json r = (case de_provider r of None \<Rightarrow> None
     | Some p \<Rightarrow> Some (GObj [(''id'', GStr (de_id r)), (''event_type'', GStr (de_type r)),
         (''provider'', GStr p), (''occurred_at'', json_time (de_at r))]))"

definition GetNotification :: handler where
  "GetNotification rq = (let i = URLParam rq ''id'' in
     on_err (query_row (\<lambda>c d. find_notification d (tenant_of rq) i)) (\<lambda>_. fails 404 ''not found'') (\<lambda>n. do {
       evs \<leftarrow> query (\<lambda>c d. history_rows d i);
       answers (json_answer 200 (GObj [(''delivery_events'',
           GArr (List.map_filter delivery_json (case evs of Inl _ \<Rightarrow> [] | Inr rs \<Rightarrow> rs))),
         (''notification'', notification_json n)])) }))"

section \<open>The in-app feed\<close>

text \<open>These two are on the port of the event streams, without authentication or transaction.\<close>

definition feed_json :: "notification_row \<Rightarrow> gval" where
  "feed_json r = GObj [(''id'', GStr (nt_id r)), (''content'', nt_content r), (''is_read'', GBool (nt_read r)),
     (''created_at'', json_time (nt_created r))]"

definition NotificationFeed :: handler where
  "NotificationFeed rq =
     on_err (query (\<lambda>c d. take 50 (newest_first nt_created (filter (\<lambda>r. nt_tenant r = URLParam rq ''tenantID''
         \<and> nt_subscriber r = URLParam rq ''subscriberID'' \<and> nt_channel r = ''inapp'') (notifications d)))))
       (\<lambda>_. fails 500 ''query failed'')
       (\<lambda>rs. answers (json_answer 200 (GObj [(''notifications'', GArr (map feed_json rs))])))"

definition mark_read :: "string \<Rightarrow> string \<Rightarrow> db \<Rightarrow> db" where
  "mark_read t i d = d\<lparr>notifications := update_where
     (\<lambda>r. nt_id r = i \<and> nt_tenant r = t \<and> nt_channel r = ''inapp'') (\<lambda>r. r\<lparr>nt_read := True\<rparr>) (notifications d)\<rparr>"

definition MarkNotificationRead :: handler where
  "MarkNotificationRead rq =
     on_err (exec (\<lambda>c d. Some (mark_read (URLParam rq ''tenantID'') (URLParam rq ''notifID'') d)))
       (\<lambda>_. fails 500 ''update failed'')
       (\<lambda>_. answers \<lparr>rp_status = 200, rp_headers = json_header,
          rp_body = Text (''{'' @ quoted ''status'' @ '':'' @ quoted ''ok'' @ ''}'')\<rparr>)"

definition Health :: handler where
  "Health rq = answers (json_answer 200 (GObj [(''status'', GStr ''ok'')]))"

section \<open>\<^verbatim>\<open>time.Parse(time.RFC3339, s)\<close>\<close>

text \<open>Days since 1970-01-01 of a date of the proleptic Gregorian calendar.\<close>

definition days_of :: "int \<Rightarrow> int \<Rightarrow> int \<Rightarrow> int" where
  "days_of y m d = (let y' = (if m \<le> 2 then y - 1 else y); era = y' div 400; yoe = y' mod 400;
     doy = (153 * (m + (if m > 2 then -3 else 9)) + 2) div 5 + d - 1;
     doe = yoe * 365 + yoe div 4 - yoe div 100 + doy
     in era * 146097 + doe - 719468)"

definition leap :: "int \<Rightarrow> bool" where
  "leap y \<longleftrightarrow> y mod 4 = 0 \<and> (y mod 100 \<noteq> 0 \<or> y mod 400 = 0)"

definition days_in :: "int \<Rightarrow> int \<Rightarrow> int" where
  "days_in m y = (if m = 2 then (if leap y then 29 else 28) else if m \<in> {4, 6, 9, 11} then 30 else 31)"

text \<open>A number of exactly \<open>n\<close> digits and what follows, and a fixed character.\<close>

definition take_num :: "nat \<Rightarrow> string \<Rightarrow> (int \<times> string) option" where
  "take_num n s = (if length s < n then None
     else map_option (\<lambda>v. (int v, drop n s)) (read_digits (take n s)))"

fun skip_char :: "char \<Rightarrow> string \<Rightarrow> string option" where
  "skip_char c (x # s) = (if x = c then Some s else None)"
| "skip_char c [] = None"

text \<open>The hour of the layout may have one digit.\<close>

definition take_hour :: "string \<Rightarrow> (int \<times> string) option" where
  "take_hour s = (case take_num 2 s of Some x \<Rightarrow> Some x | None \<Rightarrow> take_num 1 s)"

text \<open>Fractional seconds, which the layout does not have but the parser accepts: nine digits count.\<close>

definition take_frac :: "string \<Rightarrow> int \<times> string" where
  "take_frac s = (case s of c # d # _ \<Rightarrow>
       if c \<in> {CHR ''.'', CHR '',''} \<and> dec_digit d \<noteq> None
       then let ds = takeWhile (\<lambda>x. dec_digit x \<noteq> None) (tl s); n9 = take 9 ds in
         (int (the (read_digits n9)) * 10 ^ (9 - length n9), drop (Suc (length ds)) s)
       else (0, s)
     | _ \<Rightarrow> (0, s))"

text \<open>The zone: seconds east of UTC.\<close>

definition take_zone :: "string \<Rightarrow> (int \<times> string) option" where
  "take_zone s = (case s of [] \<Rightarrow> None
     | c # r \<Rightarrow> if c = CHR ''Z'' then Some (0, r)
         else if c \<in> {CHR ''+'', CHR ''-''} then
           (case take_num 2 r of None \<Rightarrow> None
            | Some (h, r1) \<Rightarrow> (case Option.bind (skip_char CHR '':'' r1) (take_num 2) of None \<Rightarrow> None
                | Some (m, r2) \<Rightarrow> if h > 24 \<or> m > 60 then None
                    else Some ((if c = CHR ''-'' then -1 else 1) * (h * 60 + m) * 60, r2)))
         else None)"

text \<open>The instant in nanoseconds since the epoch.\<close>

definition parse_RFC3339 :: "string \<Rightarrow> int option" where
  "parse_RFC3339 s = do {
     (y, s) \<leftarrow> take_num 4 s;
     s \<leftarrow> skip_char CHR ''-'' s;
     (mo, s) \<leftarrow> take_num 2 s;
     s \<leftarrow> skip_char CHR ''-'' s;
     (d, s) \<leftarrow> take_num 2 s;
     s \<leftarrow> skip_char CHR ''T'' s;
     (h, s) \<leftarrow> take_hour s;
     s \<leftarrow> skip_char CHR '':'' s;
     (mi, s) \<leftarrow> take_num 2 s;
     s \<leftarrow> skip_char CHR '':'' s;
     (sec, s) \<leftarrow> take_num 2 s;
     let (ns, s) = take_frac s;
     (off, s) \<leftarrow> take_zone s;
     if s \<noteq> [] \<or> \<not> (1 \<le> mo \<and> mo \<le> 12 \<and> 1 \<le> d \<and> d \<le> days_in mo y \<and> h < 24 \<and> mi < 60 \<and> sec < 60) then None
     else Some ((days_of y mo d * 86400 + h * 3600 + mi * 60 + sec - off) * 10 ^ 9 + ns) }"

section \<open>The audit trail\<close>

text \<open>A time that does not parse is no filter; the driver sends microseconds.\<close>

definition time_filter :: "request \<Rightarrow> string \<Rightarrow> int option" where
  "time_filter rq k = map_option (\<lambda>t. t div 1000) (parse_RFC3339 (query_get rq k))"

definition audit_json :: "audit_row \<Rightarrow> gval" where
  "audit_json r = GObj ([(''id'', GStr (au_id r)), (''actor_type'', GStr (au_actor_type r)),
     (''actor_id'', GStr (au_actor r)), (''action'', GStr (au_action r)), (''resource_type'', GStr (au_resource r))]
     @ omit_opt ''resource_id'' (au_resource_id r)
     @ (case column_map (au_new r) of None \<Rightarrow> [] | Some m \<Rightarrow> omit_map ''new_value'' m)
     @ omit_opt ''ip_address'' (au_ip r) @ [(''occurred_at'', json_time (au_at r))])"

definition listed_audits :: "sctx \<Rightarrow> db \<Rightarrow> string \<Rightarrow> request \<Rightarrow> audit_row list" where
  "listed_audits c d t rq = filter (\<lambda>r. sees c (au_tenant r) \<and> au_tenant r = t
     \<and> opt_filter rq ''action'' (au_action r) \<and> opt_filter rq ''resource_type'' (au_resource r)
     \<and> opt_filter rq ''actor_id'' (au_actor r)
     \<and> (case time_filter rq ''from'' of None \<Rightarrow> True | Some x \<Rightarrow> x \<le> au_at r)
     \<and> (case time_filter rq ''to'' of None \<Rightarrow> True | Some x \<Rightarrow> au_at r \<le> x)) (audits d)"

definition ListAuditLogs :: handler where
  "ListAuditLogs rq = do {
     n \<leftarrow> query (\<lambda>c d. length (listed_audits c d (tenant_of rq) rq));
     on_err (query (\<lambda>c d. page rq (newest_first au_at (listed_audits c d (tenant_of rq) rq))))
       (\<lambda>_. fails 500 ''query failed'')
       (\<lambda>rs. answers (json_answer 200 (GObj [(''logs'', GArr (map audit_json rs)), (''total'', count_or_0 n)]))) }"

section \<open>Analytics\<close>

record totals =
  to_queued :: int
  to_sent :: int
  to_delivered :: int
  to_failed :: int
  to_opened :: int

definition no_totals :: totals where
  "no_totals = \<lparr>to_queued = 0, to_sent = 0, to_delivered = 0, to_failed = 0, to_opened = 0\<rparr>"

text \<open>\<^verbatim>\<open>SELECT event_type, COUNT(*) ... GROUP BY event_type\<close>: the groups in any order, here of first occurrence.\<close>

definition grouped :: "'k list \<Rightarrow> ('k \<times> nat) list" where
  "grouped ks = map (\<lambda>k. (k, count_list ks k)) (remdups ks)"

definition add_group :: "string \<times> nat \<Rightarrow> totals \<Rightarrow> totals" where
  "add_group g t = (case g of (k, n) \<Rightarrow>
     if k = ''queued'' then t\<lparr>to_queued := int n\<rparr> else if k = ''sent'' then t\<lparr>to_sent := int n\<rparr>
     else if k = ''delivered'' then t\<lparr>to_delivered := int n\<rparr> else if k = ''failed'' then t\<lparr>to_failed := int n\<rparr>
     else if k = ''opened'' then t\<lparr>to_opened := int n\<rparr> else t)"

definition tenant_events :: "db \<Rightarrow> string \<Rightarrow> string list" where
  "tenant_events d t = map de_type (filter (\<lambda>r. de_tenant r = t) (deliveries d))"

definition QueryTotals :: "string \<Rightarrow> totals res app" where
  "QueryTotals t = on_err (query (\<lambda>c d. grouped (tenant_events d t)))
     (\<lambda>e. ret (Inl (Wrap ''query delivery totals'' e)))
     (\<lambda>gs. ret (Inr (fold add_group gs no_totals)))"

definition totals_json :: "totals \<Rightarrow> gval" where
  "totals_json t = GObj [(''queued'', GInt64 (to_queued t)), (''sent'', GInt64 (to_sent t)),
     (''delivered'', GInt64 (to_delivered t)), (''failed'', GInt64 (to_failed t)),
     (''opened'', GInt64 (to_opened t))]"

definition DeliveryAnalytics :: handler where
  "DeliveryAnalytics rq = on_err (QueryTotals (tenant_of rq)) (\<lambda>_. fails 500 ''query failed'')
     (\<lambda>t. answers (json_answer 200 (totals_json t)))"

text \<open>The last thirty days by day, channel and type; it has no caller. Days are numbers here, newest first.\<close>

definition day_us :: int where "day_us = 86400 * 10 ^ 6"

definition recent_events :: "db \<Rightarrow> string \<Rightarrow> int \<Rightarrow> (int \<times> string \<times> string) list" where
  "recent_events d t now = concat (map (\<lambda>r. case find (\<lambda>n. nt_id n = de_notification r) (notifications d) of
       None \<Rightarrow> [] | Some n \<Rightarrow> [(de_at r div day_us, nt_channel n, de_type r)])
     (filter (\<lambda>r. de_tenant r = t \<and> now - 30 * day_us \<le> de_at r) (deliveries d)))"

definition date_text :: "int \<Rightarrow> string" where
  "date_text day = (case civil_date day of (y, m, d) \<Rightarrow> pad_to 4 y @ ''-'' @ pad_to 2 m @ ''-'' @ pad_to 2 d)"

definition stats_json :: "(int \<times> string \<times> string) \<times> nat \<Rightarrow> gval" where
  "stats_json g = (case g of ((day, ch, et), n) \<Rightarrow> GObj [(''channel'', GStr ch), (''event_type'', GStr et),
     (''count'', GInt64 (int n)), (''date'', GStr (date_text day))])"

definition QueryDelivery :: "string \<Rightarrow> gval list res app" where
  "QueryDelivery t = on_err (query (\<lambda>c d. sort_key (\<lambda>g. - fst (fst g)) (grouped (recent_events d t (db_now c)))))
     (\<lambda>e. ret (Inl (Wrap ''query delivery stats'' e))) (\<lambda>gs. ret (Inr (map stats_json gs)))"

section \<open>The aggregator\<close>

record delivery_event =
  dv_notification :: string
  dv_tenant :: string
  dv_type :: string
  dv_provider :: string

fun decode_delivery :: "gval \<Rightarrow> delivery_event option" where
  "decode_delivery GNil = Some \<lparr>dv_notification = [], dv_tenant = [], dv_type = [], dv_provider = []\<rparr>"
| "decode_delivery (GObj m) = (case (jstr m ''notification_id'', jstr m ''tenant_id'', jstr m ''event_type'',
       jstr m ''provider'') of
     (Some n, Some t, Some e, Some p) \<Rightarrow> Some \<lparr>dv_notification = n, dv_tenant = t, dv_type = e, dv_provider = p\<rparr>
   | _ \<Rightarrow> None)"
| "decode_delivery _ = None"

text \<open>The channel of the notification, looked up first, only labels a metric.\<close>

definition aggregator_handle :: "js_msg \<Rightarrow> unit res app" where
  "aggregator_handle msg = (case Option.bind (m_json msg) decode_delivery of
     None \<Rightarrow> ret (Inr ())
   | Some ev \<Rightarrow> do {
       ch \<leftarrow> query_row (\<lambda>c d. map_option nt_channel
         (find (\<lambda>r. nt_id r = dv_notification ev) (notifications d)));
       now \<leftarrow> time_now;
       on_err (exec (\<lambda>c d. insert_delivery c d (dv_tenant ev) (dv_notification ev) (dv_type ev) (dv_provider ev)
           (now div 1000)))
         (\<lambda>e. ret (Inl (Wrap ''insert delivery event'' e))) (\<lambda>_. ret (Inr ())) })"

definition aggregator_consume :: "js_msg \<Rightarrow> disposition app" where
  "aggregator_consume msg = on_err (aggregator_handle msg) (\<lambda>_. ret Nak) (\<lambda>_. ret Ack)"

section \<open>Confinement\<close>

interpretation list_notifications: tenant_handler ListNotifications
  by unfold_locales (auto simp: ListNotifications_def intro!: keeps_rules)

interpretation get_notification: tenant_handler GetNotification
  by unfold_locales (auto simp: GetNotification_def Let_def intro!: keeps_rules)

interpretation list_audits: tenant_handler ListAuditLogs
  by unfold_locales (auto simp: ListAuditLogs_def intro!: keeps_rules)

interpretation analytics: tenant_handler DeliveryAnalytics
  by unfold_locales (auto simp: DeliveryAnalytics_def QueryTotals_def intro!: keeps_rules)

section \<open>Properties\<close>

text \<open>The loop over the groups against counting: groups of one type occur once.\<close>

definition counted :: "string list \<Rightarrow> totals" where
  "counted es = \<lparr>to_queued = int (count_list es ''queued''), to_sent = int (count_list es ''sent''),
     to_delivered = int (count_list es ''delivered''), to_failed = int (count_list es ''failed''),
     to_opened = int (count_list es ''opened'')\<rparr>"

text \<open>What the totals are after the groups of the types in \<open>ks\<close>.\<close>

definition counted_in :: "string list \<Rightarrow> string list \<Rightarrow> totals" where
  "counted_in ks es = (let n = (\<lambda>k. if k \<in> set ks then int (count_list es k) else 0) in
     \<lparr>to_queued = n ''queued'', to_sent = n ''sent'', to_delivered = n ''delivered'', to_failed = n ''failed'',
      to_opened = n ''opened''\<rparr>)"

lemma add_group_counted: "add_group (k, count_list es k) (counted_in ks es) = counted_in (ks @ [k]) es"
  by (auto simp: add_group_def counted_in_def Let_def)

lemma fold_groups: "fold add_group (map (\<lambda>k. (k, count_list es k)) ks) (counted_in ks0 es) = counted_in (ks0 @ ks) es"
  by (induction ks arbitrary: ks0) (simp_all add: add_group_counted)

lemma groups_counted: "fold add_group (grouped es) no_totals = counted es"
proof -
  have "no_totals = counted_in [] es" by (simp add: no_totals_def counted_in_def)
  then have "fold add_group (grouped es) no_totals = counted_in (remdups es) es"
    using fold_groups [of es "remdups es" "[]"] by (simp add: grouped_def)
  also have "\<dots> = counted es"
    by (simp add: counted_in_def counted_def Let_def count_list_0_iff [THEN iffD2])
  finally show ?thesis .
qed

text \<open>The events among some messages that the aggregator can store.\<close>

definition event_of_msg :: "js_msg \<Rightarrow> delivery_event option" where
  "event_of_msg msg = Option.bind (m_json msg) decode_delivery"

definition storable :: "db \<Rightarrow> js_msg \<Rightarrow> bool" where
  "storable d msg \<longleftrightarrow> (case event_of_msg msg of None \<Rightarrow> True
     | Some ev \<Rightarrow> dv_notification ev \<in> nt_id ` set (notifications d))"

lemma storable_cong: "notifications d' = notifications d \<Longrightarrow> storable d' = storable d"
  by (rule ext) (simp add: storable_def split: option.split)

definition types_for :: "string \<Rightarrow> js_msg list \<Rightarrow> string list" where
  "types_for t ms = map dv_type (filter (\<lambda>e. dv_tenant e = t) (List.map_filter event_of_msg ms))"

lemma map_filter_Cons: "List.map_filter f (x # xs) = (case f x of None \<Rightarrow> [] | Some y \<Rightarrow> [y]) @ List.map_filter f xs"
  by (auto simp: List.map_filter_def split: option.splits)

lemma types_for_Cons: "types_for t (m # ms) = (case event_of_msg m of None \<Rightarrow> []
    | Some e \<Rightarrow> if dv_tenant e = t then [dv_type e] else []) @ types_for t ms"
  by (auto simp: types_for_def map_filter_Cons split: option.splits)

lemma wp_store_event:
  assumes "event_of_msg msg = Some ev" "dv_notification ev \<in> nt_id ` set (notifications d0)"
    and "saved s = None" "db_faults s = []" "db s = d0"
  shows "wp (exec (\<lambda>c d. insert_delivery c d (dv_tenant ev) (dv_notification ev) (dv_type ev) (dv_provider ev) at))
    (\<lambda>r s'. r = Inr () \<and> saved s' = None \<and> db_faults s' = [] \<and> notifications (db s') = notifications d0
      \<and> (\<forall>t. tenant_events (db s') t = tenant_events d0 t @ types_for t [msg])) s"
proof (rule wp_exec_strong, goal_cases)
  case (1 s')
  then show ?case using assms by (auto simp: insert_delivery_def broken_def saved_def)
next
  case (2 s' c d)
  then have d: "d = d0\<lparr>deliveries := deliveries d0 @ [\<lparr>de_id = new_id c, de_tenant = dv_tenant ev,
      de_notification = dv_notification ev, de_type = dv_type ev, de_provider = Some (dv_provider ev),
      de_response = GNil, de_at = at\<rparr>]\<rparr>"
    using assms by (auto simp: insert_delivery_def split: if_splits)
  have "saved s' = None" "db_faults s' = []" using 2(1) assms by (auto simp: quiet_def calm_def)
  then show ?case
    by (simp add: d saved_def tenant_events_def types_for_Cons assms(1)) (simp add: types_for_def List.map_filter_def)
qed

lemma wp_aggregator:
  assumes "saved w = None" "db_faults w = []" "storable (db w) msg"
  shows "wp (aggregator_consume msg) (\<lambda>r w'. r = Ack \<and> saved w' = None \<and> db_faults w' = []
    \<and> notifications (db w') = notifications (db w)
    \<and> (\<forall>t. tenant_events (db w') t = tenant_events (db w) t @ types_for t [msg])) w"
proof (cases "event_of_msg msg")
  case None
  then show ?thesis using assms
    by (simp add: aggregator_consume_def aggregator_handle_def event_of_msg_def [symmetric] types_for_Cons types_for_def)
next
  case (Some ev)
  let ?here = "\<lambda>s. saved s = None \<and> db_faults s = [] \<and> db s = db w"
  have here: "?here s'" if "quiet s s'" "?here s" for s s'
    using that by (auto simp: quiet_def calm_def)
  have fk: "dv_notification ev \<in> nt_id ` set (notifications (db w))"
    using assms(3) Some by (simp add: storable_def)
  have store: "wp (exec (\<lambda>c d. insert_delivery c d (dv_tenant ev) (dv_notification ev) (dv_type ev) (dv_provider ev) at))
      (\<lambda>r s'. r = Inr () \<and> saved s' = None \<and> db_faults s' = [] \<and> notifications (db s') = notifications (db w)
        \<and> (\<forall>t. tenant_events (db s') t = tenant_events (db w) t @ types_for t [msg])) s" if "?here s" for s at
    by (rule wp_store_event [OF Some fk]) (use that in simp_all)
  show ?thesis
    unfolding aggregator_consume_def aggregator_handle_def event_of_msg_def [symmetric] Some option.case
      wp_on_err wp_bind
  proof (rule wp_query_row, goal_cases)
    case (1 s e)
    then have s: "?here s" using here assms by blast
    show ?case
    proof (rule wp_time_now, goal_cases)
      case (1 at s')
      show ?case by (rule wp_mono [OF store [OF here [OF 1 s]]]) auto
    qed
  next
    case (2 s c x)
    then have s: "?here s" using here assms by blast
    show ?case
    proof (rule wp_time_now, goal_cases)
      case (1 at s')
      show ?case by (rule wp_mono [OF store [OF here [OF 1 s]]]) auto
    qed
  qed
qed

text \<open>
  C39.
  The funnel the console shows counts the events the workers published: after any sequence of
  delivery messages, malformed ones included, that the aggregator consumes with a working database,
  the totals of a tenant are exactly the numbers of its stored and its new events of each type.
\<close>

theorem funnel_counts_events:
  assumes "saved w = None" "db_faults w = []" "\<forall>msg \<in> set ms. storable (db w) msg" "ctx_tenant rq = Some t"
  shows "wp (for_each ms (\<lambda>m. do { _ \<leftarrow> aggregator_consume m; ret () })) (\<lambda>_ w'.
    wp (DeliveryAnalytics rq) (\<lambda>r _. r = Inr (json_answer 200
      (totals_json (counted (tenant_events (db w) t @ types_for t ms))))) w') w"
proof -
  have "wp (for_each ms (\<lambda>m. do { _ \<leftarrow> aggregator_consume m; ret () })) (\<lambda>_ w'. saved w' = None
      \<and> db_faults w' = [] \<and> tenant_events (db w') t = tenant_events (db w) t @ types_for t ms) w"
    using assms(1-3)
  proof (induction ms arbitrary: w)
    case Nil
    then show ?case by (simp add: types_for_def List.map_filter_def)
  next
    case (Cons m ms)
    have "storable (db w) m" using Cons.prems(3) by simp
    from wp_aggregator [OF Cons.prems(1,2) this] show ?case
      unfolding for_each.simps wp_bind
    proof (rule wp_mono, goal_cases)
      case (1 r w1)
      then have "\<forall>msg \<in> set ms. storable (db w1) msg"
        using Cons.prems(3) storable_cong [of "db w1" "db w"] by simp
      from Cons.IH [OF _ _ this] 1 show ?case
        by (auto elim!: wp_mono simp: types_for_Cons [of t m] types_for_def List.map_filter_def)
    qed
  qed
  then show ?thesis
  proof (rule wp_mono, goal_cases)
    case (1 r w')
    show ?case
      unfolding DeliveryAnalytics_def QueryTotals_def wp_on_err tenant_of_simp [OF assms(4)]
    proof (rule wp_query_strong, goal_cases)
      case (1 s)
      then show ?case using \<open>saved w' = None \<and> _\<close> by (auto simp: broken_def saved_def)
    next
      case (2 s c)
      then show ?case using 1 by (simp add: groups_counted)
    qed
  qed
qed

text \<open>One notification, with a stored event; two messages about it and one that is not JSON.\<close>

definition delivery_message :: "string \<Rightarrow> js_msg" where
  "delivery_message k = \<lparr>m_subject = DeliverySubject ''t1'', m_text = [], m_json = Some (GObj [
     (''event_type'', GStr k), (''notification_id'', GStr ''n1''), (''provider'', GStr ''ses''),
     (''tenant_id'', GStr ''t1'')]), m_delivered = Some 1\<rparr>"

definition funnel_db :: db where
  "funnel_db = channel_db\<lparr>deliveries := [\<lparr>de_id = ''d0'', de_tenant = ''t1'', de_notification = ''n1'',
     de_type = ''sent'', de_provider = Some ''ses'', de_response = GNil, de_at = 0\<rparr>]\<rparr>"

theorem funnel_counts_events_witness:
  "wp (for_each [delivery_message ''sent'', \<lparr>m_subject = [], m_text = [], m_json = None, m_delivered = None\<rparr>,
        delivery_message ''delivered'']
      (\<lambda>m. do { _ \<leftarrow> aggregator_consume m; ret () })) (\<lambda>_ w'.
    wp (DeliveryAnalytics (with_key sample_request ''t1'' ''full'')) (\<lambda>r _. r = Inr (json_answer 200
      (totals_json (counted (tenant_events (db (world0 funnel_db)) ''t1'' @ types_for ''t1''
        [delivery_message ''sent'', \<lparr>m_subject = [], m_text = [], m_json = None, m_delivered = None\<rparr>,
         delivery_message ''delivered'']))))) w') (world0 funnel_db)"
  by (rule funnel_counts_events)
    (simp_all add: storable_def event_of_msg_def delivery_message_def funnel_db_def json_get_defs
      channel_db_def sample_defs saved_def)

end
