(* ===== verification/Federation.thy ===== *)
theory Federation
  imports Email_Worker Sms_Worker Whatsapp_Worker Subscribers_Api
begin

text \<open>
  \<^verbatim>\<open>domains/subscribers/federation\<close>: the users of qeet-id mirrored as subscribers. No command of the
  repository starts the consumer; what follows is what it does with each message.
\<close>

record user_event =
  ue_tenant :: string
  ue_user :: string
  ue_email :: string
  ue_phone :: string
  ue_locale :: string
  ue_timezone :: string

fun decode_user :: "gval \<Rightarrow> user_event option" where
  "decode_user GNil = Some \<lparr>ue_tenant = [], ue_user = [], ue_email = [], ue_phone = [], ue_locale = [],
     ue_timezone = []\<rparr>"
| "decode_user (GObj m) = (case (jstr m ''tenant_id'', jstr m ''user_id'', jstr m ''email'', jstr m ''phone'',
       jstr m ''locale'', jstr m ''timezone'') of
     (Some t, Some u, Some e, Some p, Some l, Some z) \<Rightarrow> Some \<lparr>ue_tenant = t, ue_user = u, ue_email = e,
       ue_phone = p, ue_locale = l, ue_timezone = z\<rparr>
   | _ \<Rightarrow> None)"
| "decode_user _ = None"

definition matchesSuffix :: "string \<Rightarrow> string \<Rightarrow> bool" where
  "matchesSuffix subject sfx \<longleftrightarrow> length subject \<ge> length sfx
     \<and> drop (length subject - length sfx) subject = sfx"

text \<open>An empty value stays NULL; each call of pgcrypto has randomness of its own.\<close>

definition seal :: "env \<Rightarrow> string \<Rightarrow> string \<Rightarrow> string option" where
  "seal E salt v = (if v = [] then None else Some (e_encrypt E salt v (e_key E)))"

definition mirrored :: "env \<Rightarrow> sctx \<Rightarrow> user_event \<Rightarrow> subscriber_row" where
  "mirrored E c ev = \<lparr>sb_id = new_id c, sb_tenant = ue_tenant ev, sb_external = ue_user ev,
     sb_email = seal E (''e'' @ new_id c) (ue_email ev), sb_phone = seal E (''p'' @ new_id c) (ue_phone ev),
     sb_whatsapp = None, sb_push = GArr [], sb_locale = or_default ''en'' (ue_locale ev),
     sb_timezone = or_default ''Asia/Kolkata'' (ue_timezone ev), sb_metadata = GObj [],
     sb_deleted = False, sb_created = db_now c\<rparr>"

definition is_user :: "string \<Rightarrow> string \<Rightarrow> subscriber_row \<Rightarrow> bool" where
  "is_user t u r \<longleftrightarrow> sb_tenant r = t \<and> sb_external r = u"

definition refresh :: "subscriber_row \<Rightarrow> subscriber_row \<Rightarrow> subscriber_row" where
  "refresh n r = r\<lparr>sb_email := sb_email n, sb_phone := sb_phone n, sb_locale := sb_locale n,
     sb_timezone := sb_timezone n\<rparr>"

definition upsert_user :: "sctx \<Rightarrow> db \<Rightarrow> subscriber_row \<Rightarrow> db option" where
  "upsert_user c d n =
     (if \<not> sees c (sb_tenant n) \<or> sb_tenant n \<notin> tn_id ` set (tenants d) then None
      else if list_ex (is_user (sb_tenant n) (sb_external n)) (subscribers d)
        then Some (d\<lparr>subscribers := update_where (is_user (sb_tenant n) (sb_external n)) (refresh n) (subscribers d)\<rparr>)
      else if sb_id n \<in> sb_id ` set (subscribers d) then None
      else Some (d\<lparr>subscribers := subscribers d @ [n]\<rparr>))"

definition upsertSubscriber :: "env \<Rightarrow> user_event \<Rightarrow> unit app" where
  "upsertSubscriber E ev = do { exec (\<lambda>c d. upsert_user c d (mirrored E c ev)); ret () }"

definition softDeleteSubscriber :: "string \<Rightarrow> string \<Rightarrow> unit app" where
  "softDeleteSubscriber t u = do {
     exec (\<lambda>c d. Some (d\<lparr>subscribers := update_where (\<lambda>r. sees c (sb_tenant r) \<and> is_user t u r)
       (\<lambda>r. r\<lparr>sb_deleted := True\<rparr>) (subscribers d)\<rparr>));
     ret () }"

text \<open>One message of the loop: every one is acknowledged.\<close>

definition federate :: "env \<Rightarrow> js_msg \<Rightarrow> disposition app" where
  "federate E msg = (case Option.bind (m_json msg) decode_user of None \<Rightarrow> ret Ack
     | Some ev \<Rightarrow> do {
         (if matchesSuffix (m_subject msg) ''user.created'' \<or> matchesSuffix (m_subject msg) ''user.updated''
          then do { RunInTenant (ue_tenant ev) (do { upsertSubscriber E ev; ret (Inr ()) }); ret () }
          else if matchesSuffix (m_subject msg) ''user.deleted''
          then do { RunInTenant (ue_tenant ev) (do { softDeleteSubscriber (ue_tenant ev) (ue_user ev); ret (Inr ()) });
                    ret () }
          else ret ());
         ret Ack })"

section \<open>One statement in a tenant transaction\<close>

lemma wp_RunInTenant_exec:
  assumes "saved w = None"
    and "\<And>s'. saved s' = None \<Longrightarrow> db s' = db w \<Longrightarrow> db_faults w \<noteq> [] \<or> (\<exists>c. guc c = t \<and> f c (db w) = None) \<Longrightarrow> Q s'"
    and "\<And>s' c. saved s' = None \<Longrightarrow> guc c = t \<Longrightarrow> f c (db w) = Some (db s') \<Longrightarrow> Q s'"
  shows "wp (RunInTenant t (do { exec f; ret (Inr ()) })) (\<lambda>_. Q) w"
proof (rule wp_RunInTenant [OF assms(1)], goal_cases)
  case (1 e s')
  then show ?case by (intro assms(2)) (auto simp: saved_def)
next
  case (2 s1)
  show ?case
    unfolding wp_bind wp_return
  proof (rule wp_exec_strong, goal_cases)
    case (1 s2)
    have why: "db_faults w \<noteq> [] \<or> (\<exists>c. guc c = t \<and> f c (db w) = None)"
      using 1(3) 2 by (auto simp: calm_def in_tx_guc)
    have "broken s2" using 1(2) 2(5) by (simp add: in_tx_iff)
    with why show ?case
      using quiet_in_tx [OF 1(1)] 2(5) by (auto simp: saved_def intro!: assms(2))
  next
    case (2 s2 c d)
    have "guc c = t" "f c (db w) = Some d" using 2(2,5) \<open>db s1 = db w\<close> \<open>in_tx t (db w) s1\<close>
      by (simp_all add: in_tx_guc)
    moreover have "db_faults s2 \<noteq> [] \<Longrightarrow> db_faults w \<noteq> []"
      using quiet_calm [OF 2(1)] \<open>calm w s1\<close> by (auto simp: calm_def)
    moreover have "\<not> broken s2" using broken_tx [OF 2(4)] 2(3) by simp
    ultimately show ?case
      using quiet_in_tx [OF 2(1)] \<open>in_tx t (db w) s1\<close>
      by (auto simp: saved_def quietD(1) intro: assms(2,3))
  qed
qed

section \<open>Properties\<close>

text \<open>The message of a lifecycle event, on a subject of qeet-id.\<close>

definition lifecycle :: "string \<Rightarrow> user_event \<Rightarrow> js_msg \<Rightarrow> bool" where
  "lifecycle kind ev msg \<longleftrightarrow> Option.bind (m_json msg) decode_user = Some ev
     \<and> (\<exists>p. m_subject msg = p @ ''user.'' @ kind)"

lemma matches_append: "length y \<le> length x \<Longrightarrow> matchesSuffix (p @ x) y \<longleftrightarrow> drop (length x - length y) x = y"
  by (simp add: matchesSuffix_def)

lemma federate_updated:
  assumes "lifecycle kind ev msg" "kind \<in> {''created'', ''updated''}"
  shows "federate E msg = do { RunInTenant (ue_tenant ev) (do { exec (\<lambda>c d. upsert_user c d (mirrored E c ev)); ret (Inr ()) });
    ret Ack }"
proof -
  obtain p where p: "m_subject msg = p @ ''user.'' @ kind" using assms(1) by (auto simp: lifecycle_def)
  have "matchesSuffix (m_subject msg) ''user.created'' \<or> matchesSuffix (m_subject msg) ''user.updated''"
    using assms(2) unfolding p by (auto simp: matches_append)
  then show ?thesis using assms(1) by (simp add: federate_def lifecycle_def upsertSubscriber_def)
qed

lemma federate_deleted:
  assumes "lifecycle ''deleted'' ev msg"
  shows "federate E msg = do { RunInTenant (ue_tenant ev) (do { exec (\<lambda>c d. Some (d\<lparr>subscribers :=
      update_where (\<lambda>r. sees c (sb_tenant r) \<and> is_user (ue_tenant ev) (ue_user ev) r)
        (\<lambda>r. r\<lparr>sb_deleted := True\<rparr>) (subscribers d)\<rparr>)); ret (Inr ()) }); ret Ack }"
proof -
  obtain p where p: "m_subject msg = p @ ''user.deleted''" using assms by (auto simp: lifecycle_def)
  have "\<not> matchesSuffix (m_subject msg) ''user.created''" "\<not> matchesSuffix (m_subject msg) ''user.updated''"
    "matchesSuffix (m_subject msg) ''user.deleted''"
    unfolding p by (simp_all add: matches_append)
  then show ?thesis using assms by (simp add: federate_def lifecycle_def softDeleteSubscriber_def)
qed

lemma select_update_where:
  assumes "\<And>r. sb_id (f r) = sb_id r \<and> sb_tenant (f r) = sb_tenant r"
  shows "select_subscriber c (d\<lparr>subscribers := update_where p f (subscribers d)\<rparr>) j
    = map_option (\<lambda>r. if p r then f r else r) (select_subscriber c d j)"
proof -
  have "find q (map g rs) = map_option g (find q rs)" if "\<And>r. q (g r) = q r" for q g and rs :: "subscriber_row list"
    using that by (induction rs) auto
  then show ?thesis using assms by (simp add: select_subscriber_def update_where_def)
qed

lemma addresses_of_deleted:
  fixes p :: "subscriber_row \<Rightarrow> bool" and d :: db
  defines "d' \<equiv> d\<lparr>subscribers := update_where p (\<lambda>r. r\<lparr>sb_deleted := True\<rparr>) (subscribers d)\<rparr>"
  shows "email_address E d' = email_address E d" "sms_address E d' = sms_address E d" "wa_address d' = wa_address d"
proof -
  have fields: "sb_email (if p r then r\<lparr>sb_deleted := True\<rparr> else r) = sb_email r"
    "sb_phone (if p r then r\<lparr>sb_deleted := True\<rparr> else r) = sb_phone r"
    "sb_whatsapp (if p r then r\<lparr>sb_deleted := True\<rparr> else r) = sb_whatsapp r" for r by simp_all
  have "select_subscriber c d' j = map_option (\<lambda>r. if p r then r\<lparr>sb_deleted := True\<rparr> else r) (select_subscriber c d j)" for c j
    unfolding d'_def by (rule select_update_where) simp
  then show "email_address E d' = email_address E d" "sms_address E d' = sms_address E d" "wa_address d' = wa_address d"
    by (simp_all add: fun_eq_iff email_address_def email_select_def sms_address_def sms_select_def
        wa_address_def wa_select_def option.map_comp o_def fields)
qed

text \<open>
  A user deleted in qeet-id stays reachable: whatever user.deleted does, and whatever fails, the
  e-mail address, the phone number and the WhatsApp id that the workers find for every job are the
  same afterwards. The flag it sets is read by no worker.
\<close>

theorem deleted_user_still_addressed:
  assumes "lifecycle ''deleted'' ev msg" "saved w = None"
  shows "wp (federate E msg) (\<lambda>_ w'. email_address E (db w') = email_address E (db w)
    \<and> sms_address E (db w') = sms_address E (db w) \<and> wa_address (db w') = wa_address (db w)) w"
  unfolding federate_deleted [OF assms(1)] wp_bind wp_return
proof (rule wp_RunInTenant_exec [OF assms(2)], goal_cases)
  case (2 s' c)
  then have "db s' = (db w)\<lparr>subscribers := update_where (\<lambda>r. sees c (sb_tenant r)
      \<and> is_user (ue_tenant ev) (ue_user ev) r) (\<lambda>r. r\<lparr>sb_deleted := True\<rparr>) (subscribers (db w))\<rparr>" by simp
  then show ?case by (simp only: addresses_of_deleted simp_thms)
qed simp

definition user_message :: "string \<Rightarrow> js_msg" where
  "user_message kind = \<lparr>m_subject = ''qeet-id.t1.user.'' @ kind, m_text = [],
     m_json = Some (GObj [(''tenant_id'', GStr ''t1''), (''user_id'', GStr ''x1''), (''email'', GStr ''a@b.c'')]),
     m_delivered = Some 1\<rparr>"

definition user_x1 :: user_event where
  "user_x1 = \<lparr>ue_tenant = ''t1'', ue_user = ''x1'', ue_email = ''a@b.c'', ue_phone = [], ue_locale = [],
     ue_timezone = []\<rparr>"

lemma lifecycle_x1: "lifecycle kind user_x1 (user_message kind)"
  unfolding lifecycle_def
proof
  show "\<exists>p. m_subject (user_message kind) = p @ ''user.'' @ kind"
    by (rule exI [of _ "''qeet-id.t1.''"]) (simp add: user_message_def)
qed (simp add: user_message_def user_x1_def json_get_defs)

theorem deleted_user_still_addressed_witness:
  "wp (federate sample_env (user_message ''deleted'')) (\<lambda>_ w'.
      email_address sample_env (db w') = email_address sample_env (db (world0 sample_db))
    \<and> sms_address sample_env (db w') = sms_address sample_env (db (world0 sample_db))
    \<and> wa_address (db w') = wa_address (db (world0 sample_db))) (world0 sample_db)"
  by (rule deleted_user_still_addressed [OF lifecycle_x1]) (simp add: saved_def sample_defs)

text \<open>The plain address and number of a row.\<close>

definition plain :: "env \<Rightarrow> string option \<Rightarrow> string" where
  "plain E x = (case x of None \<Rightarrow> [] | Some y \<Rightarrow> notify_decrypt E y)"

definition mirrors :: "env \<Rightarrow> user_event \<Rightarrow> db \<Rightarrow> db \<Rightarrow> bool" where
  "mirrors E ev d d' \<longleftrightarrow> (let p = is_user (ue_tenant ev) (ue_user ev) in
     filter (\<lambda>r. \<not> p r) (subscribers d') = filter (\<lambda>r. \<not> p r) (subscribers d)
     \<and> (\<exists>r. find p (subscribers d') = Some r
        \<and> plain E (sb_email r) = ue_email ev \<and> plain E (sb_phone r) = ue_phone ev
        \<and> (case find p (subscribers d) of None \<Rightarrow> \<not> sb_deleted r
           | Some q \<Rightarrow> sb_id r = sb_id q \<and> sb_deleted r = sb_deleted q)))"

lemma find_list_ex: "list_ex p xs \<longleftrightarrow> find p xs \<noteq> None"
  by (induction xs) auto

lemma upsert_user_mirrors:
  assumes "upsert_user c d (mirrored E c ev) = Some d'"
    and seal: "\<And>s x. e_decrypt E (e_encrypt E s x (e_key E)) (e_key E) = x" "\<And>s x. e_encrypt E s x (e_key E) \<noteq> []"
  shows "mirrors E ev d d'"
proof -
  let ?p = "is_user (ue_tenant ev) (ue_user ev)" and ?n = "mirrored E c ev"
  have n: "sb_tenant ?n = ue_tenant ev" "sb_external ?n = ue_user ev" "?p ?n" "\<not> sb_deleted ?n"
    "plain E (sb_email ?n) = ue_email ev" "plain E (sb_phone ?n) = ue_phone ev"
    using seal by (simp_all add: mirrored_def is_user_def seal_def plain_def notify_decrypt_def)
  have up: "?p (refresh ?n r) = ?p r" for r by (simp add: is_user_def refresh_def)
  have rest: "filter (\<lambda>r. \<not> ?p r) (update_where ?p (refresh ?n) rs) = filter (\<lambda>r. \<not> ?p r) rs" for rs
    by (rule filter_update_where) (simp_all add: up)
  show ?thesis
  proof (cases "find ?p (subscribers d)")
    case None
    then have "subscribers d' = subscribers d @ [?n]"
      using assms(1) n(1,2) by (auto simp: upsert_user_def find_list_ex split: if_splits)
    with None n(3-) show ?thesis by (simp add: mirrors_def Let_def find_snoc)
  next
    case (Some q)
    then have "subscribers d' = update_where ?p (refresh ?n) (subscribers d)"
      using assms(1) n(1,2) by (auto simp: upsert_user_def find_list_ex split: if_splits)
    with Some n(5-) rest show ?thesis
      by (simp add: mirrors_def Let_def find_update_where [of ?p "refresh ?n", OF up] refresh_def)
  qed
qed



end
