(* ===== verification/Routes.thy ===== *)
theory Routes
  imports Events_Api Subscribers_Api Catalog_Api Admin_Api Reads_Api Blindness
begin

text \<open>
  The routes of \<^verbatim>\<open>cmd/server\<close>: which handler serves which method and pattern behind the chain of
  \<open>api_v1\<close>, the public ones beside it, and what holds of every request and every sequence of
  requests because of it.
\<close>

section \<open>The tables\<close>

definition v1_routes :: "env \<Rightarrow> nat list option \<Rightarrow> (string \<times> string \<times> handler) list" where
  "v1_routes E rnd = [
     (''POST'', ''/v1/events'', NewTriggerEvent),
     (''GET'', ''/v1/templates'', ListTemplates),
     (''POST'', ''/v1/templates'', CreateTemplate),
     (''GET'', ''/v1/templates/{id}'', GetTemplate),
     (''PUT'', ''/v1/templates/{id}'', UpdateTemplate),
     (''DELETE'', ''/v1/templates/{id}'', DeleteTemplate),
     (''POST'', ''/v1/templates/{id}/publish'', PublishTemplate),
     (''GET'', ''/v1/workflows'', ListWorkflows),
     (''POST'', ''/v1/workflows'', CreateWorkflow),
     (''GET'', ''/v1/workflows/{id}'', GetWorkflow),
     (''PUT'', ''/v1/workflows/{id}'', UpdateWorkflow),
     (''DELETE'', ''/v1/workflows/{id}'', ArchiveWorkflow),
     (''POST'', ''/v1/workflows/{id}/activate'', ActivateWorkflow),
     (''POST'', ''/v1/workflows/{id}/pause'', PauseWorkflow),
     (''GET'', ''/v1/workflows/{id}/runs'', ListWorkflowRuns),
     (''GET'', ''/v1/subscribers'', ListSubscribers),
     (''POST'', ''/v1/subscribers'', CreateSubscriber E),
     (''GET'', ''/v1/subscribers/{subscriberID}'', GetSubscriber),
     (''PUT'', ''/v1/subscribers/{subscriberID}'', UpdateSubscriber),
     (''DELETE'', ''/v1/subscribers/{subscriberID}'', DeleteSubscriber),
     (''GET'', ''/v1/subscribers/{subscriberID}/preferences'', GetPreferences),
     (''PUT'', ''/v1/subscribers/{subscriberID}/preferences'', UpdatePreferences),
     (''GET'', ''/v1/subscribers/{subscriberID}/data'', ExportSubscriberData E),
     (''GET'', ''/v1/providers'', ListProviders),
     (''POST'', ''/v1/providers'', CreateProvider E),
     (''PUT'', ''/v1/providers/{id}'', UpdateProvider E),
     (''DELETE'', ''/v1/providers/{id}'', DeleteProvider),
     (''GET'', ''/v1/dlt/templates'', ListDLTTemplates),
     (''POST'', ''/v1/dlt/templates'', RegisterDLTTemplate),
     (''PUT'', ''/v1/dlt/templates/{id}'', UpdateDLTTemplate),
     (''DELETE'', ''/v1/dlt/templates/{id}'', DeleteDLTTemplate),
     (''GET'', ''/v1/api-keys'', ListAPIKeys),
     (''POST'', ''/v1/api-keys'', CreateAPIKey rnd),
     (''DELETE'', ''/v1/api-keys/{id}'', RevokeAPIKey),
     (''GET'', ''/v1/notifications'', ListNotifications),
     (''GET'', ''/v1/notifications/{id}'', GetNotification),
     (''GET'', ''/v1/analytics/delivery'', DeliveryAnalytics),
     (''GET'', ''/v1/audit-logs'', ListAuditLogs)]"

definition route_of :: "env \<Rightarrow> nat list option \<Rightarrow> request \<Rightarrow> handler option" where
  "route_of E rnd rq = map_option (\<lambda>(_, _, h). h)
     (find (\<lambda>(m, p, _). m = rm_method rq \<and> p = rm_pattern rq) (v1_routes E rnd))"

text \<open>One request of the authenticated router; the panics end in its \<^verbatim>\<open>Recoverer\<close>.\<close>

definition serve :: "env \<Rightarrow> nat list option \<Rightarrow> request \<Rightarrow> answer option app" where
  "serve E rnd rq = (case route_of E rnd rq of None \<Rightarrow> ret None
     | Some h \<Rightarrow> do { p \<leftarrow> recoverer (api_v1 h) rq; ret (Some p) })"

text \<open>
  The routes without authentication: the probes, the unsubscribe link and the callbacks of the email
  providers, and the routes of the port of the event streams (the stream itself is
  \<open>stream_frames\<close> of \<^verbatim>\<open>Direct_Workers\<close>).
\<close>

definition health_routes :: "(string \<times> string \<times> handler) list" where
  "health_routes = [(''GET'', ''/healthz'', Health), (''GET'', ''/readyz'', Health)]"

definition public_routes :: "env \<Rightarrow> (string \<times> string \<times> handler) list" where
  "public_routes E = [
     (''GET'', ''/v1/unsubscribe'', UnsubscribeLink),
     (''POST'', ''/v1/webhooks/email/{provider}'', InboundEmailWebhook E)]"

definition stream_routes :: "(string \<times> string \<times> handler) list" where
  "stream_routes = [
     (''GET'', ''/v1/tenants/{tenantID}/subscribers/{subscriberID}/notifications'', NotificationFeed),
     (''PATCH'', ''/v1/tenants/{tenantID}/notifications/{notifID}/read'', MarkNotificationRead)]"

section \<open>Every route is confined\<close>

lemma routes_confined: "route_of E rnd rq = Some h \<Longrightarrow> tenant_handler h"
proof -
  have "\<forall>(m, p, h) \<in> set (v1_routes E rnd). tenant_handler h"
    unfolding v1_routes_def list.set ball_simps prod.case
    using trigger.tenant_handler_axioms list_templates.tenant_handler_axioms create_template.tenant_handler_axioms
      get_template.tenant_handler_axioms update_template.tenant_handler_axioms delete_template.tenant_handler_axioms
      publish_template.tenant_handler_axioms list_workflows.tenant_handler_axioms
      create_workflow.tenant_handler_axioms get_workflow.tenant_handler_axioms update_workflow.tenant_handler_axioms
      archive_workflow.tenant_handler_axioms activate_workflow.tenant_handler_axioms
      pause_workflow.tenant_handler_axioms list_runs.tenant_handler_axioms list_subscribers.tenant_handler_axioms
      create_subscriber.tenant_handler_axioms get_subscriber.tenant_handler_axioms
      update_subscriber.tenant_handler_axioms delete_subscriber.tenant_handler_axioms
      get_preferences.tenant_handler_axioms update_preferences.tenant_handler_axioms
      export_subscriber.tenant_handler_axioms list_providers.tenant_handler_axioms
      create_provider.tenant_handler_axioms update_provider.tenant_handler_axioms
      delete_provider.tenant_handler_axioms list_dlt.tenant_handler_axioms register_dlt.tenant_handler_axioms
      update_dlt.tenant_handler_axioms delete_dlt.tenant_handler_axioms list_keys.tenant_handler_axioms
      create_key.tenant_handler_axioms revoke_key.tenant_handler_axioms list_notifications.tenant_handler_axioms
      get_notification.tenant_handler_axioms analytics.tenant_handler_axioms list_audits.tenant_handler_axioms
    by blast
  moreover assume "route_of E rnd rq = Some h"
  ultimately show ?thesis by (auto simp: route_of_def dest: find_Some_in)
qed

lemma serve_confined:
  assumes "saved s = None" "tenants_named (db s)"
  shows "wp (serve E rnd rq) (\<lambda>r s'. saved s' = None \<and> (case granted (db s) rq of None \<Rightarrow> db s' = db s
    | Some t \<Rightarrow> others t (db s') = others t (db s))) s"
proof (cases "route_of E rnd rq")
  case None
  then show ?thesis using assms by (simp add: serve_def split: option.splits)
next
  case (Some h)
  show ?thesis
    unfolding serve_def Some option.case recoverer_def wp_bind wp_return
    by (rule wp_mono [OF tenant_handler.request_confined [OF routes_confined [OF Some] assms]])
      (auto split: option.splits)
qed

section \<open>Sequences of requests\<close>

text \<open>The rows of tenant \<open>t\<close>, the counterpart of \<open>others\<close>.\<close>

definition own :: "string \<Rightarrow> db \<Rightarrow> db" where
  "own t d = \<lparr>tenants = tenants d,
     subscribers = filter (\<lambda>r. sb_tenant r = t) (subscribers d),
     templates = filter (\<lambda>r. tp_tenant r = t) (templates d),
     workflows = filter (\<lambda>r. wf_tenant r = t) (workflows d),
     runs = filter (\<lambda>r. rn_tenant r = t) (runs d),
     notifications = filter (\<lambda>r. nt_tenant r = t) (notifications d),
     deliveries = filter (\<lambda>r. de_tenant r = t) (deliveries d),
     suppressions = filter (\<lambda>r. su_tenant r = t) (suppressions d),
     preferences = filter (\<lambda>r. pf_tenant r = t) (preferences d),
     dlts = filter (\<lambda>r. dl_tenant r = t) (dlts d),
     providers = filter (\<lambda>r. pv_tenant r = t) (providers d), ndnc = ndnc d,
     api_keys = filter (\<lambda>r. ak_tenant r = t) (api_keys d),
     consents = filter (\<lambda>r. cl_tenant r = t) (consents d),
     audits = filter (\<lambda>r. au_tenant r = t) (audits d)\<rparr>"

lemma filter_own_others:
  assumes "filter (\<lambda>r. k r \<noteq> u) xs = filter (\<lambda>r. k r \<noteq> u) ys" "u \<noteq> t"
  shows "filter (\<lambda>r. k r = t) xs = filter (\<lambda>r. k r = t) ys"
proof -
  have "filter (\<lambda>r. k r = t) zs = filter (\<lambda>r. k r = t) (filter (\<lambda>r. k r \<noteq> u) zs)" for zs
    using assms(2) by (induction zs) auto
  with assms(1) show ?thesis by metis
qed

lemma own_of_others:
  assumes "others u d' = others u d" "u \<noteq> t"
  shows "own t d' = own t d"
proof -
  have "filter (\<lambda>r. sb_tenant r \<noteq> u) (subscribers d') = filter (\<lambda>r. sb_tenant r \<noteq> u) (subscribers d)"
    "filter (\<lambda>r. tp_tenant r \<noteq> u) (templates d') = filter (\<lambda>r. tp_tenant r \<noteq> u) (templates d)"
    "filter (\<lambda>r. wf_tenant r \<noteq> u) (workflows d') = filter (\<lambda>r. wf_tenant r \<noteq> u) (workflows d)"
    "filter (\<lambda>r. rn_tenant r \<noteq> u) (runs d') = filter (\<lambda>r. rn_tenant r \<noteq> u) (runs d)"
    "filter (\<lambda>r. nt_tenant r \<noteq> u) (notifications d') = filter (\<lambda>r. nt_tenant r \<noteq> u) (notifications d)"
    "filter (\<lambda>r. de_tenant r \<noteq> u) (deliveries d') = filter (\<lambda>r. de_tenant r \<noteq> u) (deliveries d)"
    "filter (\<lambda>r. su_tenant r \<noteq> u) (suppressions d') = filter (\<lambda>r. su_tenant r \<noteq> u) (suppressions d)"
    "filter (\<lambda>r. pf_tenant r \<noteq> u) (preferences d') = filter (\<lambda>r. pf_tenant r \<noteq> u) (preferences d)"
    "filter (\<lambda>r. dl_tenant r \<noteq> u) (dlts d') = filter (\<lambda>r. dl_tenant r \<noteq> u) (dlts d)"
    "filter (\<lambda>r. pv_tenant r \<noteq> u) (providers d') = filter (\<lambda>r. pv_tenant r \<noteq> u) (providers d)"
    "filter (\<lambda>r. ak_tenant r \<noteq> u) (api_keys d') = filter (\<lambda>r. ak_tenant r \<noteq> u) (api_keys d)"
    "filter (\<lambda>r. cl_tenant r \<noteq> u) (consents d') = filter (\<lambda>r. cl_tenant r \<noteq> u) (consents d)"
    "filter (\<lambda>r. au_tenant r \<noteq> u) (audits d') = filter (\<lambda>r. au_tenant r \<noteq> u) (audits d)"
    "tenants d' = tenants d" "ndnc d' = ndnc d"
    using assms(1) by (simp_all add: others_def)
  note same = this
  show ?thesis
    unfolding own_def db.ext_inject
    by (intro conjI refl; (rule same | rule filter_own_others [OF _ assms(2)], rule same))
qed

lemma tenants_named_others:
  assumes "others u d' = others u d" "tenants_named d" "u \<noteq> []"
  shows "tenants_named d'"
proof -
  have "filter (\<lambda>r. ak_tenant r \<noteq> u) (api_keys d') = filter (\<lambda>r. ak_tenant r \<noteq> u) (api_keys d)" "tenants d' = tenants d"
    using assms(1) by (simp_all add: others_def)
  moreover from this(1) have "r \<in> set (api_keys d)" if "r \<in> set (api_keys d')" "ak_tenant r = []" for r
    using that assms(3) by (metis (mono_tags, lifting) mem_Collect_eq set_filter)
  ultimately show ?thesis using assms(2) by (auto simp: tenants_named_def)
qed

text \<open>
  A history in which nobody acts with a key of tenant \<open>t\<close>: requests of any kind with other keys or
  none, and in between whatever happens outside the tables, the faults still to come included.
\<close>

inductive bystanders :: "env \<Rightarrow> string \<Rightarrow> world \<Rightarrow> world \<Rightarrow> bool" for E t w where
  start: "bystanders E t w w"
| request: "bystanders E t w w1 \<Longrightarrow> granted (db w1) rq \<noteq> Some t \<Longrightarrow>
    run_state (serve E rnd rq) w1 = (a, w2) \<Longrightarrow> bystanders E t w w2"
| outside: "bystanders E t w w1 \<Longrightarrow> db w2 = db w1 \<Longrightarrow> saved w2 = saved w1 \<Longrightarrow> bystanders E t w w2"

lemma granted_named: "tenants_named d \<Longrightarrow> granted d rq = Some u \<Longrightarrow> u \<noteq> []"
  by (auto simp: granted_def Let_def key_owner_named split: if_splits option.splits prod.splits)

text \<open>
  C8.
  Tenant isolation of the authenticated API: however long a history of requests, on every route of
  \<open>v1_routes\<close>, valid or not, and with whatever failures, as long as none of them carries a key that
  grants tenant \<open>t\<close>, not one row of \<open>t\<close>, in any table, changes, comes or goes.
\<close>

theorem bystanders_touch_nothing:
  assumes "bystanders E t w w'" "saved w = None" "tenants_named (db w)"
  shows "own t (db w') = own t (db w)"
proof -
  have "saved w' = None \<and> tenants_named (db w') \<and> own t (db w') = own t (db w)"
    using assms
  proof (induction rule: bystanders.induct)
    case (request w1 rq rnd a w2)
    then have w1: "saved w1 = None" "tenants_named (db w1)" "own t (db w1) = own t (db w)" by auto
    have after: "saved w2 = None \<and> (case granted (db w1) rq of None \<Rightarrow> db w2 = db w1
        | Some u \<Rightarrow> others u (db w2) = others u (db w1))"
      using serve_confined [OF w1(1,2), of E rnd rq] request(3) by (simp add: wp_def)
    show ?case
    proof (cases "granted (db w1) rq")
      case None
      then show ?thesis using after w1 by simp
    next
      case (Some u)
      then have "u \<noteq> t" "u \<noteq> []" using request(2) granted_named [OF w1(2)] by auto
      then show ?thesis
        using after Some w1 own_of_others [of u "db w2" "db w1" t] tenants_named_others [of u "db w2" "db w1"]
        by simp
    qed
  qed auto
  then show ?thesis by simp
qed

text \<open>A read key of \<open>t1\<close> tries to change a template: nothing of \<open>t2\<close>, and here nothing at all, changes.\<close>

theorem bystanders_touch_nothing_witness:
  "\<exists>w'. bystanders sample_env ''t2'' (world0 read_key_db) w' \<and> own ''t2'' (db w') = own ''t2'' (db (world0 read_key_db))"
proof -
  have g: "granted (db (world0 read_key_db)) sample_request \<noteq> Some ''t2''"
    by (simp add: granted_def Let_def sample_request_def header_def fold_eq_def lower_c_def ccode_def key_owner_def
        select_api_key_def read_key_db_def scope_allows_def sample_defs)
  obtain a w' where r: "run_state (serve sample_env None sample_request) (world0 read_key_db) = (a, w')"
    by (cases "run_state (serve sample_env None sample_request) (world0 read_key_db)")
  have b: "bystanders sample_env ''t2'' (world0 read_key_db) w'" by (rule request [OF start g r])
  moreover have "own ''t2'' (db w') = own ''t2'' (db (world0 read_key_db))"
    by (rule bystanders_touch_nothing [OF b]) (simp_all add: read_key_db_def tenants_named_def saved_def sample_defs)
  ultimately show ?thesis by blast
qed

end
