(* ===== verification/Read_Isolation.thy ===== *)
theory Read_Isolation
  imports Routes
begin

text \<open>
  What the reading routes may depend on: the answer of every \<^verbatim>\<open>GET\<close> route but one is a function of the
  rows of the request's own tenant. The locale \<open>private_reader\<close> is this contract, blindness to everything
  but \<open>own t\<close>, and every reading handler but \<^verbatim>\<open>GetNotification\<close> is an instance of it.
\<close>

section \<open>Queries of a tenant's own rows\<close>

lemma own_filter: "\<forall>x. P x \<longrightarrow> Q x \<Longrightarrow> filter P (filter Q xs) = filter P xs"
  by (induction xs) auto

lemma own_find: "\<forall>x. P x \<longrightarrow> Q x \<Longrightarrow> find P (filter Q xs) = find P xs"
  by (induction xs) auto

lemma own_fields [simp]:
  "subscribers (own t d) = filter (\<lambda>r. sb_tenant r = t) (subscribers d)"
  "templates (own t d) = filter (\<lambda>r. tp_tenant r = t) (templates d)"
  "workflows (own t d) = filter (\<lambda>r. wf_tenant r = t) (workflows d)"
  "runs (own t d) = filter (\<lambda>r. rn_tenant r = t) (runs d)"
  "notifications (own t d) = filter (\<lambda>r. nt_tenant r = t) (notifications d)"
  "deliveries (own t d) = filter (\<lambda>r. de_tenant r = t) (deliveries d)"
  "preferences (own t d) = filter (\<lambda>r. pf_tenant r = t) (preferences d)"
  "dlts (own t d) = filter (\<lambda>r. dl_tenant r = t) (dlts d)"
  "providers (own t d) = filter (\<lambda>r. pv_tenant r = t) (providers d)"
  "api_keys (own t d) = filter (\<lambda>r. ak_tenant r = t) (api_keys d)"
  "consents (own t d) = filter (\<lambda>r. cl_tenant r = t) (consents d)"
  "audits (own t d) = filter (\<lambda>r. au_tenant r = t) (audits d)"
  by (simp_all add: own_def)

lemmas own_reads = own_filter own_find

section \<open>The contract\<close>

locale private_reader =
  fixes h :: handler
  assumes reads_own: "ctx_tenant rq = Some t \<Longrightarrow> blind (own t) (h rq)"
begin

lemma blind_TenantTx: "ctx_tenant rq = Some t \<Longrightarrow> blind (own t) (TenantTx h rq)"
  unfolding TenantTx_def by (intro blind_rules reads_own) simp_all

text \<open>Behind the authentication a reading request is guarded and counted, but not recorded.\<close>

lemma blind_guarded:
  assumes "ctx_tenant rq = Some t" "rm_method rq = ''GET''"
  shows "blind (own t) (ScopeGuard (RateLimit l n (Audit (TenantTx h))) rq)"
proof -
  have "blind (own t) (Audit (TenantTx h) rq)"
    unfolding Audit_def using assms blind_TenantTx [OF assms(1)] by simp
  then show ?thesis
    unfolding ScopeGuard_def RateLimit_def by (intro blind_rules) 
qed

end

section \<open>The readers\<close>

interpretation r_templates: private_reader ListTemplates
  by unfold_locales (auto simp: ListTemplates_def template_page_def own_reads Let_def option.map_comp o_def
      simp del: filter_filter intro!: blind_rules blind_stmt)

interpretation r_template: private_reader GetTemplate
  by unfold_locales (auto simp: GetTemplate_def fetch_template_def find_template_def own_reads option.map_comp o_def
      simp del: filter_filter intro!: blind_rules blind_stmt split: option.splits)

interpretation r_workflows: private_reader ListWorkflows
  by unfold_locales (auto simp: ListWorkflows_def own_reads simp del: filter_filter intro!: blind_rules)

interpretation r_workflow: private_reader GetWorkflow
  by unfold_locales (auto simp: GetWorkflow_def find_workflow_def own_reads simp del: filter_filter intro!: blind_rules)

interpretation r_runs: private_reader ListWorkflowRuns
  by unfold_locales (auto simp: ListWorkflowRuns_def own_reads simp del: filter_filter intro!: blind_rules)

interpretation r_subscribers: private_reader ListSubscribers
  by unfold_locales (auto simp: ListSubscribers_def live_subscribers_def own_reads simp del: filter_filter
      intro!: blind_rules)

interpretation r_subscriber: private_reader GetSubscriber
  by unfold_locales (auto simp: GetSubscriber_def find_subscriber_def own_reads simp del: filter_filter
      intro!: blind_rules)

interpretation r_preferences: private_reader GetPreferences
  by unfold_locales (auto simp: GetPreferences_def preference_rows_def own_reads simp del: filter_filter
      intro!: blind_rules)

interpretation r_export: private_reader "ExportSubscriberData E"
  by unfold_locales (auto simp: ExportSubscriberData_def Let_def find_subscriber_def preference_rows_def History_def
      Preferences.history_rows_def own_reads simp del: filter_filter intro!: blind_rules)

interpretation r_providers: private_reader ListProviders
  by unfold_locales (auto simp: ListProviders_def own_reads simp del: filter_filter intro!: blind_rules)

interpretation r_dlts: private_reader ListDLTTemplates
  by unfold_locales (auto simp: ListDLTTemplates_def own_reads simp del: filter_filter intro!: blind_rules)

interpretation r_keys: private_reader ListAPIKeys
  by unfold_locales (auto simp: ListAPIKeys_def own_reads simp del: filter_filter intro!: blind_rules)

interpretation r_notifications: private_reader ListNotifications
  by unfold_locales (auto simp: ListNotifications_def listed_notifications_def own_reads simp del: filter_filter
      intro!: blind_rules)

interpretation r_analytics: private_reader DeliveryAnalytics
  by unfold_locales (auto simp: DeliveryAnalytics_def QueryTotals_def tenant_events_def own_reads
      simp del: filter_filter intro!: blind_rules)

interpretation r_audits: private_reader ListAuditLogs
  by unfold_locales (auto simp: ListAuditLogs_def listed_audits_def own_reads simp del: filter_filter
      intro!: blind_rules)

section \<open>Every reading route\<close>

definition detail_pattern :: string where
  "detail_pattern = ''/v1/notifications/{id}''"

lemma reading_routes:
  assumes "route_of E rnd rq = Some h" "rm_method rq = ''GET''" "rm_pattern rq \<noteq> detail_pattern"
  shows "private_reader h"
proof -
  have "\<forall>(m, p, h) \<in> set (v1_routes E rnd). m = ''GET'' \<longrightarrow> p \<noteq> detail_pattern \<longrightarrow> private_reader h"
    unfolding v1_routes_def detail_pattern_def list.set ball_simps prod.case
    using r_templates.private_reader_axioms r_template.private_reader_axioms r_workflows.private_reader_axioms
      r_workflow.private_reader_axioms r_runs.private_reader_axioms r_subscribers.private_reader_axioms
      r_subscriber.private_reader_axioms r_preferences.private_reader_axioms r_export.private_reader_axioms
      r_providers.private_reader_axioms r_dlts.private_reader_axioms r_keys.private_reader_axioms
      r_notifications.private_reader_axioms r_analytics.private_reader_axioms r_audits.private_reader_axioms
    by simp
  moreover obtain m p where "(m, p, h) \<in> set (v1_routes E rnd)" "m = rm_method rq" "p = rm_pattern rq"
    using assms(1) by (auto simp: route_of_def dest: find_Some_in)
  ultimately show ?thesis using assms(2,3) by auto
qed

text \<open>
  C9.
  A tenant reads its own data only: take two worlds that differ in nothing but the rows of other
  tenants, whatever these are. Every reading route of the API, the detail view of one notification
  apart, gives the same answer in both behind the authentication, whatever fails: with every key,
  every query parameter and every id, those of other tenants' rows included. (The detail view asks
  for the delivery events of its notification without naming the tenant.)
\<close>

theorem reads_stay_within_tenant:
  assumes "route_of E rnd rq = Some h" "rm_method rq = ''GET''" "rm_pattern rq \<noteq> ''/v1/notifications/{id}''"
    and "ctx_tenant rq = Some t" "through (own t) w = through (own t) w'"
  shows "fst (run_state (ScopeGuard (RateLimit limit window (Audit (TenantTx h))) rq) w)
    = fst (run_state (ScopeGuard (RateLimit limit window (Audit (TenantTx h))) rq) w')"
  by (rule blind_same [OF private_reader.blind_guarded [OF reading_routes [OF assms(1,2)]] assms(5)])
    (simp_all add: assms(2,3,4) detail_pattern_def)

text \<open>The list of providers in a world where another tenant has one, and in a world where it has none.\<close>

definition providers_request :: request where
  "providers_request = sample_request\<lparr>rm_method := ''GET'', rm_pattern := ''/v1/providers'', ctx_tenant := Some ''t1''\<rparr>"

definition neighbour_db :: db where
  "neighbour_db = sample_db\<lparr>providers := [\<lparr>pv_id = ''p9'', pv_tenant = ''t2'', pv_channel = ''email'',
     pv_provider = ''ses'', pv_priority = 1, pv_config = ''secret'', pv_active = True, pv_created = 0\<rparr>]\<rparr>"

theorem reads_stay_within_tenant_witness:
  "fst (run_state (ScopeGuard (RateLimit 5 9 (Audit (TenantTx ListProviders))) providers_request) (world0 sample_db))
    = fst (run_state (ScopeGuard (RateLimit 5 9 (Audit (TenantTx ListProviders))) providers_request) (world0 neighbour_db))
   \<and> sample_db \<noteq> neighbour_db"
proof
  show "fst (run_state (ScopeGuard (RateLimit 5 9 (Audit (TenantTx ListProviders))) providers_request) (world0 sample_db))
    = fst (run_state (ScopeGuard (RateLimit 5 9 (Audit (TenantTx ListProviders))) providers_request) (world0 neighbour_db))"
    by (rule reads_stay_within_tenant [where E = sample_env and rnd = None and t = "''t1''"])
      (simp_all add: route_of_def v1_routes_def providers_request_def sample_request_def through_def own_def
        neighbour_db_def world0_def sample_db_def empty_db_def)
  show "sample_db \<noteq> neighbour_db"
    by (simp add: neighbour_db_def sample_db_def empty_db_def)
qed

end
