(* ===== verification/Encryption.thy ===== *)
theory Encryption
  imports Security
begin

text \<open>
  \<^verbatim>\<open>platform/security/encrypt.go\<close>: AES-256-GCM under a key derived from a passphrase, in base64.
  \<^verbatim>\<open>crypto/aes\<close>, \<^verbatim>\<open>crypto/cipher\<close> and \<^verbatim>\<open>encoding/base64\<close> are modelled by what they implement: FIPS 197,
  NIST SP 800-38D with a nonce of 96 bits and no additional data, and RFC 4648. No code of the
  repository calls \<^verbatim>\<open>Encrypt\<close>: the columns are encrypted in the database.
\<close>

type_synonym byte = "8 word"

definition xor_bytes :: "byte list \<Rightarrow> byte list \<Rightarrow> byte list" where
  "xor_bytes xs ys = map2 (\<lambda>x y. x XOR y) xs ys"

section \<open>AES-256\<close>

text \<open>Multiplication in the field of 256 elements, and the S-box: the inverse, then the affine map.\<close>

definition xtime :: "byte \<Rightarrow> byte" where
  "xtime b = (if bit b 7 then push_bit 1 b XOR 0x1b else push_bit 1 b)"

fun gf_mul :: "nat \<Rightarrow> byte \<Rightarrow> byte \<Rightarrow> byte" where
  "gf_mul 0 a b = 0"
| "gf_mul (Suc n) a b = (if bit b 0 then a else 0) XOR gf_mul n (xtime a) (drop_bit 1 b)"

definition gf_times :: "byte \<Rightarrow> byte \<Rightarrow> byte" where
  "gf_times a b = gf_mul 8 a b"

fun gf_pow :: "byte \<Rightarrow> nat \<Rightarrow> byte" where
  "gf_pow a 0 = 1"
| "gf_pow a (Suc n) = gf_times a (gf_pow a n)"

definition rotl_byte :: "nat \<Rightarrow> byte \<Rightarrow> byte" where
  "rotl_byte n b = push_bit n b OR drop_bit (8 - n) b"

definition sub_byte :: "byte \<Rightarrow> byte" where
  "sub_byte a = (let b = gf_pow a 254 in
     b XOR rotl_byte 1 b XOR rotl_byte 2 b XOR rotl_byte 3 b XOR rotl_byte 4 b XOR 0x63)"

definition sbox :: "byte list" where
  "sbox = map (\<lambda>n. sub_byte (word_of_nat n)) [0..<256]"

definition sub_bytes :: "byte list \<Rightarrow> byte list" where
  "sub_bytes s = map (\<lambda>b. sbox ! unat b) s"

text \<open>A block is its 16 bytes, column by column.\<close>

definition shift_rows :: "byte list \<Rightarrow> byte list" where
  "shift_rows s = map (\<lambda>i. s ! ((i + 4 * (i mod 4)) mod 16)) [0..<16]"

fun mix_columns :: "byte list \<Rightarrow> byte list" where
  "mix_columns (a # b # c # d # r) = (let x = (\<lambda>p q. xtime (p XOR q) XOR q) in
     [x a b XOR c XOR d, x b c XOR d XOR a, x c d XOR a XOR b, x d a XOR b XOR c]) @ mix_columns r"
| "mix_columns _ = []"

text \<open>The key schedule: words of four bytes, the newest first; \<open>i\<close> is the index of the next one.\<close>

fun expand_key :: "nat \<Rightarrow> nat \<Rightarrow> byte list list \<Rightarrow> byte list list" where
  "expand_key 0 i ws = rev ws"
| "expand_key (Suc n) i ws = (let t = ws ! 0;
     t' = (if i mod 8 = 0 then xor_bytes (sub_bytes (tl t @ [hd t])) [gf_pow 2 (i div 8 - 1), 0, 0, 0]
           else if i mod 8 = 4 then sub_bytes t else t) in
     expand_key n (Suc i) (xor_bytes (ws ! 7) t' # ws))"

fun chunks :: "nat \<Rightarrow> nat \<Rightarrow> 'a list \<Rightarrow> 'a list list" where
  "chunks 0 k xs = []"
| "chunks (Suc n) k xs = take k xs # chunks n k (drop k xs)"

definition round_keys :: "byte list \<Rightarrow> byte list list" where
  "round_keys key = chunks 15 16 (concat (expand_key 52 8 (rev (chunks 8 4 key))))"

fun aes_rounds :: "byte list list \<Rightarrow> byte list \<Rightarrow> byte list" where
  "aes_rounds [] s = s"
| "aes_rounds [k] s = xor_bytes (shift_rows (sub_bytes s)) k"
| "aes_rounds (k # ks) s = aes_rounds ks (xor_bytes (mix_columns (shift_rows (sub_bytes s))) k)"

definition aes_block :: "byte list list \<Rightarrow> byte list \<Rightarrow> byte list" where
  "aes_block ks s = aes_rounds (tl ks) (xor_bytes s (hd ks))"

section \<open>GCM\<close>

type_synonym block = "128 word"

text \<open>The bits of a block are numbered from its most significant one.\<close>

fun ghash_mul :: "nat \<Rightarrow> block \<Rightarrow> block \<Rightarrow> block \<Rightarrow> block" where
  "ghash_mul 0 x v z = z"
| "ghash_mul (Suc n) x v z = ghash_mul n x
     (if bit v 0 then drop_bit 1 v XOR push_bit 120 0xe1 else drop_bit 1 v)
     (if bit x n then z XOR v else z)"

definition block_of :: "byte list \<Rightarrow> block" where
  "block_of bs = foldl (\<lambda>a b. push_bit 8 a OR ucast b) 0 bs"

definition bytes_be :: "nat \<Rightarrow> nat \<Rightarrow> byte list" where
  "bytes_be n x = map word_of_nat (be_bytes n x)"

definition zero_pad :: "byte list \<Rightarrow> byte list" where
  "zero_pad bs = bs @ replicate ((16 - length bs mod 16) mod 16) 0"

definition ghash :: "block \<Rightarrow> byte list \<Rightarrow> byte list" where
  "ghash h bs = bytes_be 16 (unat (foldl (\<lambda>y c. ghash_mul 128 (y XOR block_of c) h 0) 0
     (chunks (length bs div 16) 16 bs)))"

definition gcm_counter :: "byte list \<Rightarrow> nat \<Rightarrow> byte list" where
  "gcm_counter nonce n = nonce @ bytes_be 4 n"

definition gcm_stream :: "byte list list \<Rightarrow> byte list \<Rightarrow> nat \<Rightarrow> byte list" where
  "gcm_stream ks nonce len = concat (map (\<lambda>i. aes_block ks (gcm_counter nonce (i + 2))) [0..<(len + 15) div 16])"

definition gcm_crypt :: "byte list list \<Rightarrow> byte list \<Rightarrow> byte list \<Rightarrow> byte list" where
  "gcm_crypt ks nonce bs = xor_bytes bs (gcm_stream ks nonce (length bs))"

definition gcm_tag :: "byte list list \<Rightarrow> byte list \<Rightarrow> byte list \<Rightarrow> byte list" where
  "gcm_tag ks nonce ct = xor_bytes
     (ghash (block_of (aes_block ks (replicate 16 0))) (zero_pad ct @ bytes_be 8 0 @ bytes_be 8 (8 * length ct)))
     (aes_block ks (gcm_counter nonce 1))"

definition gcm_limit :: nat where "gcm_limit = (2 ^ 32 - 2) * 16"

definition gcm_Seal :: "byte list list \<Rightarrow> byte list \<Rightarrow> byte list \<Rightarrow> byte list res" where
  "gcm_Seal ks nonce pt = (if length pt > gcm_limit then Inl (Panic ''crypto/cipher: message too large for GCM'')
     else let ct = gcm_crypt ks nonce pt in Inr (ct @ gcm_tag ks nonce ct))"

definition gcm_Open :: "byte list list \<Rightarrow> byte list \<Rightarrow> byte list \<Rightarrow> byte list res" where
  "gcm_Open ks nonce data = (if length data < 16 \<or> length data > gcm_limit + 16
     then Inl (Err ''cipher: message authentication failed'')
     else let ct = take (length data - 16) data; tag = drop (length data - 16) data in
       if tag \<noteq> gcm_tag ks nonce ct then Inl (Err ''cipher: message authentication failed'')
       else Inr (gcm_crypt ks nonce ct))"

section \<open>Base64\<close>

definition b64_alphabet :: string where
  "b64_alphabet = ''ABCDEFGHIJKLMNOPQRSTUVWXYZabcdefghijklmnopqrstuvwxyz0123456789+/''"

definition b64_char :: "nat \<Rightarrow> char" where
  "b64_char n = b64_alphabet ! n"

fun b64_encode :: "byte list \<Rightarrow> string" where
  "b64_encode (a # b # c # r) = (let n = (unat a * 256 + unat b) * 256 + unat c in
     [b64_char (n div 262144), b64_char (n div 4096 mod 64), b64_char (n div 64 mod 64), b64_char (n mod 64)]
       @ b64_encode r)"
| "b64_encode [a, b] = (let n = (unat a * 256 + unat b) * 4 in
     [b64_char (n div 4096), b64_char (n div 64 mod 64), b64_char (n mod 64), CHR ''=''])"
| "b64_encode [a] = (let n = unat a * 16 in [b64_char (n div 64), b64_char (n mod 64), CHR ''='', CHR ''=''])"
| "b64_encode [] = []"

definition b64_index :: "char \<Rightarrow> nat option" where
  "b64_index ch = map_of (zip b64_alphabet [0..<64]) ch"

text \<open>A last group may be padded; the bits that do not fill a byte are not looked at.\<close>

fun b64_groups :: "string \<Rightarrow> byte list option" where
  "b64_groups [] = Some []"
| "b64_groups (p # q # r # s # rest) = (case (b64_index p, b64_index q) of
     (Some i, Some j) \<Rightarrow>
       (if r = CHR ''='' \<and> s = CHR ''='' \<and> rest = [] then Some [word_of_nat (i * 4 + j div 16)]
        else case b64_index r of None \<Rightarrow> None
        | Some k \<Rightarrow>
          (if s = CHR ''='' \<and> rest = [] then Some [word_of_nat (i * 4 + j div 16), word_of_nat (j * 16 + k div 4)]
           else case b64_index s of None \<Rightarrow> None
           | Some l \<Rightarrow> map_option (\<lambda>bs. word_of_nat (i * 4 + j div 16) # word_of_nat (j * 16 + k div 4)
                 # word_of_nat (k * 64 + l) # bs) (b64_groups rest)))
   | _ \<Rightarrow> None)"
| "b64_groups _ = None"

definition b64_decode :: "string \<Rightarrow> byte list option" where
  "b64_decode s = b64_groups (filter (\<lambda>c. c \<noteq> CHR 0x0A \<and> c \<noteq> CHR 0x0D) s)"

section \<open>The program\<close>

definition deriveKey :: "string \<Rightarrow> byte list" where
  "deriveKey passphrase = map word_of_nat (sha256_bytes (bytes_of passphrase))"

definition text_bytes :: "string \<Rightarrow> byte list" where
  "text_bytes s = map (\<lambda>c. word_of_nat (of_char c)) s"

definition bytes_text :: "byte list \<Rightarrow> string" where
  "bytes_text bs = map (\<lambda>b. char_of (unat b)) bs"

text \<open>\<open>rnd\<close>: the random bytes of the nonce, or \<open>None\<close> when the source of randomness fails.\<close>

definition Encrypt :: "byte list option \<Rightarrow> string \<Rightarrow> string \<Rightarrow> string res" where
  "Encrypt rnd passphrase plaintext = (let ks = round_keys (deriveKey passphrase) in
     case rnd of None \<Rightarrow> Inl (Err ''rand'')
     | Some nonce \<Rightarrow> (case gcm_Seal ks nonce (text_bytes plaintext) of Inl e \<Rightarrow> Inl e
         | Inr ct \<Rightarrow> Inr (b64_encode (nonce @ ct))))"

definition Decrypt :: "string \<Rightarrow> string \<Rightarrow> string res" where
  "Decrypt passphrase ciphertext = (case b64_decode ciphertext of None \<Rightarrow> Inl (Err ''illegal base64 data'')
     | Some data \<Rightarrow> (let ks = round_keys (deriveKey passphrase) in
         if length data < 12 then Inl (Err ''ciphertext too short'')
         else case gcm_Open ks (take 12 data) (drop 12 data) of Inl e \<Rightarrow> Inl e
           | Inr pt \<Rightarrow> Inr (bytes_text pt)))"

section \<open>Lengths\<close>

lemma length_xor_bytes [simp]: "length (xor_bytes xs ys) = min (length xs) (length ys)"
  by (simp add: xor_bytes_def)

lemma length_sub_bytes [simp]: "length (sub_bytes s) = length s"
  by (simp add: sub_bytes_def)

lemma length_shift_rows [simp]: "length (shift_rows s) = 16"
  by (simp add: shift_rows_def)

lemma length_mix_columns: "length s = 4 * n \<Longrightarrow> length (mix_columns s) = 4 * n"
proof (induction s arbitrary: n rule: mix_columns.induct)
  case (1 a b c d r)
  then obtain m where m: "n = Suc m" by (cases n) auto
  with 1 have "length (mix_columns r) = 4 * m" by auto
  with m show ?case by (simp add: Let_def)
qed auto

lemma aes_rounds_length:
  "length s = 16 \<Longrightarrow> \<forall>k \<in> set ks. length k = 16 \<Longrightarrow> length (aes_rounds ks s) = 16"
proof (induction ks s rule: aes_rounds.induct)
  case (3 k k2 ks s)
  have "length (mix_columns (shift_rows (sub_bytes s))) = 16"
    using length_mix_columns [of "shift_rows (sub_bytes s)" 4] by simp
  then show ?case using 3 by simp
qed auto

lemma chunks_length:
  "length xs = n * k \<Longrightarrow> length (chunks n k xs) = n \<and> (\<forall>c \<in> set (chunks n k xs). length c = k)"
proof (induction n arbitrary: xs)
  case (Suc n)
  then have "length (drop k xs) = n * k" and t: "length (take k xs) = k" by simp_all
  from Suc.IH [OF this(1)] show ?case unfolding chunks.simps by (simp only: t list.set ball_simps length_Cons) auto
qed simp

lemma expand_key_length:
  "\<forall>w \<in> set ws. length w = 4 \<Longrightarrow> 8 \<le> length ws \<Longrightarrow>
    length (expand_key n i ws) = length ws + n \<and> (\<forall>w \<in> set (expand_key n i ws). length w = 4)"
proof (induction n arbitrary: i ws)
  case (Suc n)
  have "0 < length ws" "7 < length ws" using Suc.prems(2) by linarith+
  then have "ws ! 0 \<in> set ws" "ws ! 7 \<in> set ws" by (blast intro: nth_mem)+
  then have w: "length (ws ! 0) = 4" "length (ws ! 7) = 4" using Suc.prems(1) by blast+
  then have n: "ws ! 0 \<noteq> []" by auto
  define t where "t = (let t = ws ! 0 in
     if i mod 8 = 0 then xor_bytes (sub_bytes (tl t @ [hd t])) [gf_pow 2 (i div 8 - 1), 0, 0, 0]
     else if i mod 8 = 4 then sub_bytes t else t)"
  have "length t = 4" using w n by (simp add: t_def Let_def)
  then have "\<forall>x \<in> set (xor_bytes (ws ! 7) t # ws). length x = 4" "8 \<le> length (xor_bytes (ws ! 7) t # ws)"
    using w Suc.prems by simp_all
  from Suc.IH [OF this, of "Suc i"] show ?case by (simp add: t_def Let_def)
qed simp

lemma concat_length: "\<forall>w \<in> set ws. length w = k \<Longrightarrow> length (concat ws) = length ws * k"
  by (induction ws) auto

lemma round_keys_length:
  assumes "length key = 32"
  shows "length (round_keys key) = 15 \<and> (\<forall>k \<in> set (round_keys key). length k = 16)"
proof -
  have w: "length (chunks 8 4 key) = 8 \<and> (\<forall>c \<in> set (chunks 8 4 key). length c = 4)"
    by (rule chunks_length) (simp add: assms)
  let ?ws = "expand_key 52 8 (rev (chunks 8 4 key))"
  have "length ?ws = 60 \<and> (\<forall>c \<in> set ?ws. length c = 4)"
    using expand_key_length [of "rev (chunks 8 4 key)" 52 8] w by simp
  then have "length (concat ?ws) = 15 * 16" using concat_length [of ?ws 4] by simp
  then show ?thesis unfolding round_keys_def by (rule chunks_length)
qed

definition full_keys :: "byte list list \<Rightarrow> bool" where
  "full_keys ks \<longleftrightarrow> ks \<noteq> [] \<and> (\<forall>k \<in> set ks. length k = 16)"

lemma aes_block_length: "full_keys ks \<Longrightarrow> length s = 16 \<Longrightarrow> length (aes_block ks s) = 16"
  by (cases ks) (simp_all add: full_keys_def aes_block_def aes_rounds_length)

lemma length_bytes_be [simp]: "length (bytes_be n x) = n"
  by (simp add: bytes_be_def)

lemma gcm_stream_length:
  assumes "full_keys ks" "length nonce = 12"
  shows "len \<le> length (gcm_stream ks nonce len)"
proof -
  have "length (gcm_stream ks nonce len) = (len + 15) div 16 * 16"
    unfolding gcm_stream_def
    by (subst concat_length [of _ 16]) (auto simp: assms aes_block_length gcm_counter_def)
  then show ?thesis by simp
qed

lemma full_round_keys: "full_keys (round_keys (deriveKey p))"
proof -
  have "length (deriveKey p) = 32" by (simp add: deriveKey_def)
  from round_keys_length [OF this] show ?thesis by (auto simp: full_keys_def)
qed

section \<open>Sealing and opening\<close>

lemma xor_bytes_twice: "length xs \<le> length k \<Longrightarrow> xor_bytes (xor_bytes xs k) k = xs"
proof (induction xs arbitrary: k)
  case (Cons x xs)
  then show ?case by (cases k) (auto simp: xor_bytes_def xor.assoc)
qed (simp add: xor_bytes_def)

lemma gcm_crypt_length: "full_keys ks \<Longrightarrow> length nonce = 12 \<Longrightarrow> length (gcm_crypt ks nonce bs) = length bs"
  using gcm_stream_length [of ks nonce "length bs"] by (simp add: gcm_crypt_def)

lemma gcm_crypt_twice:
  assumes "full_keys ks" "length nonce = 12"
  shows "gcm_crypt ks nonce (gcm_crypt ks nonce bs) = bs"
  using gcm_stream_length [OF assms, of "length bs"] gcm_crypt_length [OF assms, of bs]
  by (simp add: gcm_crypt_def xor_bytes_twice)

lemma gcm_tag_length: "full_keys ks \<Longrightarrow> length nonce = 12 \<Longrightarrow> length (gcm_tag ks nonce ct) = 16"
  by (simp add: gcm_tag_def ghash_def gcm_counter_def aes_block_length)

lemma gcm_Open_iff:
  assumes "full_keys ks" "length nonce = 12"
  shows "gcm_Open ks nonce data = Inr pt \<longleftrightarrow> gcm_Seal ks nonce pt = Inr data"
proof
  assume o: "gcm_Open ks nonce data = Inr pt"
  define ct where "ct = take (length data - 16) data"
  from o have d: "16 \<le> length data" "length data \<le> gcm_limit + 16" "pt = gcm_crypt ks nonce ct"
    "data = ct @ gcm_tag ks nonce ct"
    by (auto simp: gcm_Open_def Let_def ct_def split: if_splits) (metis append_take_drop_id)+
  then have "length pt \<le> gcm_limit" using assms by (simp add: gcm_crypt_length gcm_tag_length)
  with d(3,4) show "gcm_Seal ks nonce pt = Inr data"
    by (simp add: gcm_Seal_def gcm_crypt_twice [OF assms] Let_def)
next
  assume "gcm_Seal ks nonce pt = Inr data"
  then have "length pt \<le> gcm_limit" "data = gcm_crypt ks nonce pt @ gcm_tag ks nonce (gcm_crypt ks nonce pt)"
    by (auto simp: gcm_Seal_def Let_def split: if_splits)
  then show "gcm_Open ks nonce data = Inr pt"
    by (simp add: gcm_Open_def gcm_crypt_length [OF assms] gcm_tag_length [OF assms] gcm_crypt_twice [OF assms])
qed

section \<open>Base64 and texts\<close>

lemma b64_alphabet_facts: "distinct b64_alphabet" "length b64_alphabet = 64" "CHR ''='' \<notin> set b64_alphabet"
  "CHR 0x0A \<notin> set b64_alphabet" "CHR 0x0D \<notin> set b64_alphabet"
  by (simp_all add: b64_alphabet_def)

lemma b64_index_char [simp]: "n < 64 \<Longrightarrow> b64_index (b64_char n) = Some n"
  using map_of_zip_nth [of b64_alphabet "[0..<64]" n] b64_alphabet_facts(1,2)
  by (simp add: b64_index_def b64_char_def)

lemma b64_char_in: "n < 64 \<Longrightarrow> b64_char n \<in> set b64_alphabet"
  by (simp add: b64_char_def b64_alphabet_facts(2))

lemma b64_char_plain [simp]:
  assumes "n < 64"
  shows "b64_char n \<noteq> CHR ''=''" "b64_char n \<noteq> CHR 0x0A" "b64_char n \<noteq> CHR 0x0D"
  using b64_char_in [OF assms] b64_alphabet_facts(3-5) by metis+

lemma byte_bound: "unat (a :: byte) < 256"
  using unsigned_less [of a] by simp

lemma byte_carry: "word_of_nat (x * 256 + unat (a :: byte)) = a"
proof -
  have "unat (word_of_nat (x * 256 + unat a) :: byte) = (x * 256 + unat a) mod 256"
    by (simp only: unat_of_nat len_num0 len_num1 len_bit0 len_bit1) simp
  then have "unat (word_of_nat (x * 256 + unat a) :: byte) = unat a" using byte_bound [of a] by (simp only: mod_mult_self3 mod_less)
  then show ?thesis by (simp only: word_unat_eq_iff)
qed

text \<open>The four digits of three bytes, and the bytes again.\<close>

lemma digits:
  fixes a b c :: nat
  assumes "a < 256" "b < 256" "c < 256"
  shows "((a * 256 + b) * 256 + c) div 262144 = a div 4"
    "((a * 256 + b) * 256 + c) div 4096 mod 64 = a mod 4 * 16 + b div 16"
    "((a * 256 + b) * 256 + c) div 64 mod 64 = b mod 16 * 4 + c div 64"
    "((a * 256 + b) * 256 + c) mod 64 = c mod 64"
proof -
  obtain p q where a: "a = p * 4 + q" "q < 4" by (metis div_mult_mod_eq mod_less_divisor zero_less_numeral)
  obtain r s where b: "b = r * 16 + s" "s < 16" by (metis div_mult_mod_eq mod_less_divisor zero_less_numeral)
  obtain t u where c: "c = t * 64 + u" "u < 64" by (metis div_mult_mod_eq mod_less_divisor zero_less_numeral)
  have lim: "r < 16" "t < 4" using assms b c by auto
  have q: "q = a mod 4" using a by simp
  have r: "r = b div 16" "s = b mod 16" "t = c div 64" using b c by simp_all
  have "(a * 256 + b) * 256 + c = p * 262144 + (q * 65536 + r * 4096 + s * 256 + t * 64 + u)"
    "q * 65536 + r * 4096 + s * 256 + t * 64 + u < 262144" using a b c lim by simp_all
  then show "((a * 256 + b) * 256 + c) div 262144 = a div 4" using a(2) by (simp add: a(1))
  have "(a * 256 + b) * 256 + c = (p * 64 + (q * 16 + r)) * 4096 + (s * 256 + t * 64 + u)"
    "s * 256 + t * 64 + u < 4096" using a b c lim by simp_all
  then have "((a * 256 + b) * 256 + c) div 4096 = p * 64 + (q * 16 + r)" by (metis div_less div_mult_self3 add_0_right zero_neq_numeral)
  moreover have "q * 16 + r < 64" using a(2) lim by simp
  ultimately show "((a * 256 + b) * 256 + c) div 4096 mod 64 = a mod 4 * 16 + b div 16"
    using q r by (simp only: mod_mult_self3 mod_less)
  have "(a * 256 + b) * 256 + c = ((p * 64 + q * 16 + r) * 64 + (s * 4 + t)) * 64 + u" using a b c by simp
  then have "((a * 256 + b) * 256 + c) div 64 = (p * 64 + q * 16 + r) * 64 + (s * 4 + t)"
    using c(2) by (metis div_less div_mult_self3 add_0_right zero_neq_numeral)
  moreover have "s * 4 + t < 64" using b(2) lim by simp
  ultimately show "((a * 256 + b) * 256 + c) div 64 mod 64 = b mod 16 * 4 + c div 64"
    using r by (simp only: mod_mult_self3 mod_less)
  have "(a * 256 + b) * 256 + c = ((a * 256 + b) * 4) * 64 + c" by simp
  then show "((a * 256 + b) * 256 + c) mod 64 = c mod 64" by (metis mod_mult_self3)
qed

lemma digits2:
  fixes a b :: nat
  assumes "a < 256" "b < 256"
  shows "(a * 256 + b) * 4 div 4096 = a div 4" "(a * 256 + b) * 4 div 64 mod 64 = a mod 4 * 16 + b div 16"
    "(a * 256 + b) * 4 mod 64 = b mod 16 * 4"
proof -
  have n: "((a * 256 + b) * 256 + 0) = (a * 256 + b) * 4 * 64" by simp
  have "((a * 256 + b) * 256 + 0) div 262144 = (a * 256 + b) * 4 div 4096"
    "((a * 256 + b) * 256 + 0) div 4096 = (a * 256 + b) * 4 div 64"
    "((a * 256 + b) * 256 + 0) div 64 = (a * 256 + b) * 4"
    unfolding n by (simp_all add: div_mult2_eq [of _ 64 4096, simplified] div_mult2_eq [of _ 64 64, simplified])
  moreover have "(a * 256 + b) * 4 mod 64 = b mod 16 * 4"
    using mult_mod_right [of 4 "a * 256 + b" 16] mod_mult_self3 [of "a * 16" 16 b] by (simp add: mult.commute)
  ultimately show "(a * 256 + b) * 4 div 4096 = a div 4"
    "(a * 256 + b) * 4 div 64 mod 64 = a mod 4 * 16 + b div 16" "(a * 256 + b) * 4 mod 64 = b mod 16 * 4"
    using digits [OF assms, of 0] by simp_all
qed

lemma joins:
  fixes a b c :: nat
  assumes "b < 256" "c < 256"
  shows "a div 4 * 4 + (a mod 4 * 16 + b div 16) div 16 = a"
    "(a mod 4 * 16 + b div 16) * 16 + (b mod 16 * 4 + c div 64) div 4 = a mod 4 * 256 + b"
    "(b mod 16 * 4 + c div 64) * 64 + c mod 64 = b mod 16 * 256 + c"
proof -
  have "(a mod 4 * 16 + b div 16) div 16 = a mod 4" "(b mod 16 * 4 + c div 64) div 4 = b mod 16"
    using assms by simp_all
  then show "a div 4 * 4 + (a mod 4 * 16 + b div 16) div 16 = a"
    "(a mod 4 * 16 + b div 16) * 16 + (b mod 16 * 4 + c div 64) div 4 = a mod 4 * 256 + b"
    by simp_all
  show "(b mod 16 * 4 + c div 64) * 64 + c mod 64 = b mod 16 * 256 + c" by simp
qed

text \<open>One group of base64 decodes to its bytes.\<close>

lemma b64_group:
  assumes "i < 64" "j < 64"
  shows "k < 64 \<Longrightarrow> l < 64 \<Longrightarrow> b64_groups (b64_char i # b64_char j # b64_char k # b64_char l # r) =
      map_option (\<lambda>bs. word_of_nat (i * 4 + j div 16) # word_of_nat (j * 16 + k div 4) # word_of_nat (k * 64 + l) # bs)
        (b64_groups r)"
    "k < 64 \<Longrightarrow> b64_groups [b64_char i, b64_char j, b64_char k, CHR ''=''] =
      Some [word_of_nat (i * 4 + j div 16), word_of_nat (j * 16 + k div 4)]"
    "b64_groups [b64_char i, b64_char j, CHR ''='', CHR ''=''] = Some [word_of_nat (i * 4 + j div 16)]"
  using assms by simp_all

lemma b64_groups_three:
  "b64_groups (b64_encode (a # b # c # r)) = map_option (\<lambda>bs. a # b # c # bs) (b64_groups (b64_encode r))"
proof -
  have lt: "unat a < 256" "unat b < 256" "unat c < 256" by (rule byte_bound)+
  note d = digits [OF lt]
  have i: "unat a div 4 < 64" "unat a mod 4 * 16 + unat b div 16 < 64"
    "unat b mod 16 * 4 + unat c div 64 < 64" "unat c mod 64 < 64" using lt by simp_all
  show ?thesis
    unfolding b64_encode.simps Let_def d append.simps b64_group(1) [OF i] joins [OF lt(2,3)] byte_carry
    by simp
qed

lemma b64_groups_encode: "b64_groups (b64_encode bs) = Some bs"
proof (induction bs rule: b64_encode.induct)
  case (1 a b c r)
  then show ?case by (simp only: b64_groups_three option.map)
next
  case (2 a b)
  have lt: "unat a < 256" "unat b < 256" "(0::nat) < 256" by (rule byte_bound)+ simp
  have i: "unat a div 4 < 64" "unat a mod 4 * 16 + unat b div 16 < 64" "unat b mod 16 * 4 < 64" using lt by simp_all
  show ?case
    using b64_group(2) [OF i] joins(1,2) [OF lt(2,3), of "unat a"]
    by (simp only: b64_encode.simps Let_def digits2 [OF lt(1,2)] div_0 add_0_right byte_carry of_nat_unat unsigned_ucast_eq ucast_id)
next
  case (3 a)
  have lt: "unat a < 256" by (rule byte_bound)
  have d: "unat a * 16 div 64 = unat a div 4" "unat a * 16 mod 64 = unat a mod 4 * 16"
    using mult_mod_right [of 16 "unat a" 4] div_mult_mult1 [of 16 "unat a" 4] by (simp_all add: mult.commute)
  have i: "unat a div 4 < 64" "unat a mod 4 * 16 < 64" using lt by simp_all
  show ?case
    using b64_group(3) [OF i] joins(1) [of 0 0 "unat a"]
    by (simp only: b64_encode.simps Let_def d div_0 add_0_right of_nat_unat unsigned_ucast_eq ucast_id)
qed simp

lemma b64_encode_plain: "set (b64_encode bs) \<subseteq> insert (CHR ''='') (set b64_alphabet)"
proof (induction bs rule: b64_encode.induct)
  case (1 a b c r)
  have "unat a < 256" "unat b < 256" "unat c < 256" by (rule byte_bound)+
  then have "((unat a * 256 + unat b) * 256 + unat c) div 262144 < 64" by simp
  then show ?case using 1 by (auto simp: Let_def intro!: b64_char_in)
next
  case (2 a b)
  have "unat a < 256" "unat b < 256" by (rule byte_bound)+
  then have "(unat a * 256 + unat b) * 4 div 4096 < 64" by simp
  then show ?case by (auto simp: Let_def intro!: b64_char_in)
next
  case (3 a)
  have "unat a * 16 div 64 < 64" using byte_bound [of a] by simp
  then show ?case by (auto simp: Let_def intro!: b64_char_in)
qed simp

lemma b64_decode_encode [simp]: "b64_decode (b64_encode bs) = Some bs"
proof -
  have "filter (\<lambda>c. c \<noteq> CHR 0x0A \<and> c \<noteq> CHR 0x0D) (b64_encode bs) = b64_encode bs"
    using b64_encode_plain [of bs] b64_alphabet_facts(4,5) by (auto simp: filter_id_conv)
  then show ?thesis by (simp add: b64_decode_def b64_groups_encode)
qed

lemma bytes_text_inverse [simp]: "bytes_text (text_bytes s) = s"
  by (induction s) (simp_all add: bytes_text_def text_bytes_def unat_of_nat)

lemma text_bytes_inverse [simp]: "text_bytes (bytes_text bs) = bs"
proof (induction bs)
  case (Cons b bs)
  then show ?case using byte_bound [of b] by (simp add: bytes_text_def text_bytes_def)
qed (simp add: bytes_text_def text_bytes_def)

section \<open>Encrypt and Decrypt\<close>

lemma Encrypt_iff: "Encrypt (Some nonce) p pt = Inr ct \<longleftrightarrow>
  (\<exists>data. gcm_Seal (round_keys (deriveKey p)) nonce (text_bytes pt) = Inr data \<and> ct = b64_encode (nonce @ data))"
  by (auto simp: Encrypt_def Let_def split: sum.splits)

text \<open>
  C36.
  Decrypt inverts Encrypt and accepts nothing else: it returns a plaintext for a text exactly when
  the text is, up to its spelling in base64, what Encrypt returns for this plaintext under the same
  passphrase and some nonce. Everything else, a changed byte of nonce, text or tag included, is an
  error.
\<close>

theorem Decrypt_iff_Encrypt:
  "Decrypt p x = Inr pt \<longleftrightarrow>
    (\<exists>nonce ct. length nonce = 12 \<and> Encrypt (Some nonce) p pt = Inr ct \<and> b64_decode x = b64_decode ct)"
proof
  assume "Decrypt p x = Inr pt"
  then obtain data bs where d: "b64_decode x = Some data" "12 \<le> length data" "pt = bytes_text bs"
    "gcm_Open (round_keys (deriveKey p)) (take 12 data) (drop 12 data) = Inr bs"
    by (auto simp: Decrypt_def Let_def split: option.splits if_splits sum.splits)
  then have "gcm_Seal (round_keys (deriveKey p)) (take 12 data) (text_bytes pt) = Inr (drop 12 data)"
    by (simp add: gcm_Open_iff [OF full_round_keys])
  then have "Encrypt (Some (take 12 data)) p pt = Inr (b64_encode data)"
    by (auto simp: Encrypt_iff)
  with d(1,2) show "\<exists>nonce ct. length nonce = 12 \<and> Encrypt (Some nonce) p pt = Inr ct \<and> b64_decode x = b64_decode ct"
    by (intro exI [of _ "take 12 data"] exI [of _ "b64_encode data"]) simp
next
  assume "\<exists>nonce ct. length nonce = 12 \<and> Encrypt (Some nonce) p pt = Inr ct \<and> b64_decode x = b64_decode ct"
  then obtain nonce data where "length nonce = 12" "b64_decode x = Some (nonce @ data)"
    "gcm_Open (round_keys (deriveKey p)) nonce data = Inr (text_bytes pt)"
    by (auto simp: Encrypt_iff gcm_Open_iff [OF full_round_keys])
  then show "Decrypt p x = Inr pt" by (simp add: Decrypt_def)
qed

end
