(* ===== verification/Stability.thy ===== *)
theory Stability
  imports Routes Federation Scheduler Direct_Workers Whatsapp_Worker Sms_Worker Email_Worker
begin

text \<open>
  What the whole program keeps of four tables: subscribers, suppressions, providers and API keys. The
  locale \<open>guarded_tables\<close> asks of a property of the tables that every way the code has to change one of
  them preserves it, and derives that every route, worker, consumer and job of the program does, whatever fails.
\<close>

section \<open>Properties of the tables, between and inside transactions\<close>

definition steady :: "(db \<Rightarrow> bool) \<Rightarrow> world \<Rightarrow> bool" where
  "steady I w \<longleftrightarrow> I (db w) \<and> (\<forall>T. tx w = Some T \<longrightarrow> I (tx_saved T))"

lemma keeps_steady_aside:
  "(\<And>s. db (snd (run_state m s)) = db s \<and> tx (snd (run_state m s)) = tx s) \<Longrightarrow> keeps (steady I) m"
  by (simp add: keeps_def steady_def)

lemma keeps_steady_outside [keeps_rules]:
  "keeps (steady I) time_now" "keeps (steady I) kv_fault" "keeps (steady I) (js_publish subj x)"
  "keeps (steady I) (redis_publish ch x)" "keeps (steady I) (http_do rq)"
  "keeps (steady I) (redis_SetNX k v ttl)" "keeps (steady I) (redis_Get k)" "keeps (steady I) (redis_Set k v ttl)"
  "keeps (steady I) (redis_Del k)" "keeps (steady I) (redis_IncrExpire num k ttl)"
  by (rule keeps_steady_aside; simp add: run_defs redis_SetNX_def redis_Get_def redis_Set_def redis_Del_def
      redis_IncrExpire_def Let_def split: option.splits)+

lemma keeps_steady_tx [keeps_rules]:
  "keeps (steady I) begin_tx" "keeps (steady I) (set_tenant t)" "keeps (steady I) roll_back" "keeps (steady I) commit_tx"
  by (auto simp: keeps_def steady_def run_defs split: option.splits)

lemma keeps_steady_stmt:
  assumes "\<And>c d d' x. I d \<Longrightarrow> f c d = Some (d', x) \<Longrightarrow> I d'"
  shows "keeps (steady I) (db_stmt f)"
  unfolding keeps_def
proof (intro allI impI)
  fix s
  assume "steady I s"
  then show "steady I (snd (run_state (db_stmt f) s))"
    by (cases "tx s") (auto simp: steady_def run_defs split: option.splits dest: assms)
qed

lemma keeps_steady_exec:
  "(\<And>c d d'. I d \<Longrightarrow> f c d = Some d' \<Longrightarrow> I d') \<Longrightarrow> keeps (steady I) (exec f)"
  unfolding exec_def by (rule keeps_steady_stmt) auto

lemma keeps_steady_query [keeps_rules]: "keeps (steady I) (query g)" "keeps (steady I) (query_row h)"
  unfolding query_row_def query_def by (intro keeps_rules keeps_steady_stmt; simp)+

lemma keeps_steady_run [keeps_rules]: "keeps (steady I) fn \<Longrightarrow> keeps (steady I) (RunInTenant t fn)"
  unfolding RunInTenant_def in_tenant_tx_def by (intro keeps_rules)

section \<open>The guarded tables\<close>

definition sealed_text :: "env \<Rightarrow> string \<Rightarrow> bool" where
  "sealed_text E x \<longleftrightarrow> (\<exists>salt v. x = e_encrypt E salt v (e_key E))"

definition digest :: "string \<Rightarrow> bool" where
  "digest h \<longleftrightarrow> (\<exists>v. h = sha256_hex v)"

definition pii_sealed :: "env \<Rightarrow> subscriber_row \<Rightarrow> bool" where
  "pii_sealed E r \<longleftrightarrow> (\<forall>x. sb_email r = Some x \<or> sb_phone r = Some x \<longrightarrow> sealed_text E x)"

definition unguarded :: "db \<Rightarrow> db \<Rightarrow> bool" where
  "unguarded d d' \<longleftrightarrow> tenants d' = tenants d \<and> subscribers d' = subscribers d
     \<and> suppressions d' = suppressions d \<and> providers d' = providers d \<and> api_keys d' = api_keys d"

locale guarded_tables =
  fixes E :: env and I :: "db \<Rightarrow> bool"
  assumes aside: "I d \<Longrightarrow> unguarded d d' \<Longrightarrow> I d'"
    and add_subscriber: "I d \<Longrightarrow> pii_sealed E r \<Longrightarrow> I (d\<lparr>subscribers := subscribers d @ [r]\<rparr>)"
    and map_subscriber: "I d \<Longrightarrow> (\<And>r. pii_sealed E r \<Longrightarrow> pii_sealed E (f r)) \<Longrightarrow>
      I (d\<lparr>subscribers := update_where p f (subscribers d)\<rparr>)"
    and add_suppression: "I d \<Longrightarrow> digest (su_hash s) \<Longrightarrow> I (d\<lparr>suppressions := suppressions d @ [s]\<rparr>)"
    and add_provider: "I d \<Longrightarrow> sealed_text E (pv_config v) \<Longrightarrow> I (d\<lparr>providers := providers d @ [v]\<rparr>)"
    and map_provider: "I d \<Longrightarrow> (\<And>v. sealed_text E (pv_config v) \<Longrightarrow> sealed_text E (pv_config (g v))) \<Longrightarrow>
      I (d\<lparr>providers := update_where q g (providers d)\<rparr>)"
    and drop_provider: "I d \<Longrightarrow> I (d\<lparr>providers := filter q (providers d)\<rparr>)"
    and add_key: "I d \<Longrightarrow> digest (ak_hash k) \<Longrightarrow> ak_hash k \<notin> ak_hash ` set (api_keys d) \<Longrightarrow>
      I (d\<lparr>api_keys := api_keys d @ [k]\<rparr>)"
    and revoke: "I d \<Longrightarrow> I (d\<lparr>api_keys := update_where (\<lambda>k. h k \<and> ak_revoked k = None)
      (\<lambda>k. k\<lparr>ak_revoked := Some now\<rparr>) (api_keys d)\<rparr>)"
begin

lemma aside_stmt: "(\<And>c d d' x. f c d = Some (d', x) \<Longrightarrow> unguarded d d') \<Longrightarrow> keeps (steady I) (db_stmt f)"
  by (rule keeps_steady_stmt) (blast intro: aside)

lemma aside_exec: "(\<And>c d d'. f c d = Some d' \<Longrightarrow> unguarded d d') \<Longrightarrow> keeps (steady I) (exec f)"
  by (rule keeps_steady_exec) (blast intro: aside)

end

section \<open>Statements on other tables\<close>

lemma unguarded_refl [simp]: "unguarded d d"
  by (simp add: unguarded_def)

lemma unguarded_inserts:
  "insert_template c d tr = Some (d', i) \<Longrightarrow> unguarded d d'"
  "set_template t i tf d = Some (d', n) \<Longrightarrow> unguarded d d'"
  "insert_workflow c d wr = Some (d', i) \<Longrightarrow> unguarded d d'"
  "set_workflow t i wfn d = (d', n) \<Longrightarrow> unguarded d d'"
  "insert_dlt c d dr = Some (d', i) \<Longrightarrow> unguarded d d'"
  "set_dlt t i df d = (d', n) \<Longrightarrow> unguarded d d'"
  "drop_dlt t i d = (d', n) \<Longrightarrow> unguarded d d'"
  "upsert_preference c d pr = Some d' \<Longrightarrow> unguarded d d'"
  "insert_consent c d ce = Some d' \<Longrightarrow> unguarded d d'"
  "insert_audit c d ar = Some d' \<Longrightarrow> unguarded d d'"
  "insert_delivery c d t nid et prov at = Some d' \<Longrightarrow> unguarded d d'"
  "insert_run c d ev wid = Some (d', i) \<Longrightarrow> unguarded d d'"
  "insert_notification c d ev st run = Some (d', i) \<Longrightarrow> unguarded d d'"
  "set_notification nid nf d = Some d' \<Longrightarrow> unguarded d d'"
  by (auto simp: unguarded_def insert_template_def set_template_def insert_workflow_def set_workflow_def
      insert_dlt_def set_dlt_def drop_dlt_def upsert_preference_def insert_consent_def insert_audit_def
      insert_delivery_def insert_run_def insert_notification_def set_notification_def Let_def split: if_splits)

lemma unguarded_updates [simp]:
  "unguarded d (update_run run f d)" "unguarded d (mark_read t i d)"
  by (simp_all add: unguarded_def update_run_def mark_read_def)

section \<open>The statements on the guarded tables\<close>

lemma sealed_encrypted [simp]: "sealed_text E (e_encrypt E salt v (e_key E))"
  by (auto simp: sealed_text_def)

lemma sealed_config [simp]: "sealed_text E (sealed E c cf)"
  by (simp add: sealed_def)

lemma digest_sha [simp]: "digest (sha256_hex v)"
  by (auto simp: digest_def)

lemma pii_erased: "pii_sealed E r \<Longrightarrow> pii_sealed E (erase_row r)"
  by (simp add: pii_sealed_def erase_row_def)

lemma pii_mirrored: "pii_sealed E (mirrored E c ev)"
  by (auto simp: pii_sealed_def mirrored_def seal_def split: if_splits)

lemma pii_refreshed: "pii_sealed E n \<Longrightarrow> pii_sealed E (refresh n r)"
  by (auto simp: pii_sealed_def refresh_def)

context guarded_tables begin

lemma law_insert_subscriber: "pii_sealed E r \<Longrightarrow> I d \<Longrightarrow> insert_subscriber c d r = Some (d', i) \<Longrightarrow> I d'"
  by (auto simp: insert_subscriber_def add_subscriber split: if_splits)

lemma law_set_subscriber: "I d \<Longrightarrow> I (set_subscriber c d t s l z m)"
  unfolding set_subscriber_def by (rule map_subscriber) (simp_all add: pii_sealed_def)

lemma law_erase: "I d \<Longrightarrow> I (d\<lparr>subscribers := update_where p erase_row (subscribers d)\<rparr>)"
  by (rule map_subscriber) (simp_all add: pii_erased)

lemma law_upsert_user: "pii_sealed E n \<Longrightarrow> I d \<Longrightarrow> upsert_user c d n = Some d' \<Longrightarrow> I d'"
  by (auto simp: upsert_user_def split: if_splits intro!: add_subscriber map_subscriber pii_refreshed)

lemma law_soft_delete: "I d \<Longrightarrow> I (d\<lparr>subscribers := update_where p (\<lambda>r. r\<lparr>sb_deleted := True\<rparr>) (subscribers d)\<rparr>)"
  by (rule map_subscriber) (simp_all add: pii_sealed_def)

lemma law_insert_suppression: "digest h \<Longrightarrow> I d \<Longrightarrow> insert_suppression c d t ch h rs = Some d' \<Longrightarrow> I d'"
  by (auto simp: insert_suppression_def split: if_splits intro!: add_suppression)

lemma law_insert_provider: "sealed_text E (pv_config v) \<Longrightarrow> I d \<Longrightarrow> insert_provider c d v = Some (d', i) \<Longrightarrow> I d'"
  by (auto simp: insert_provider_def split: if_splits intro!: add_provider)

lemma law_set_provider:
  "(\<And>v. sealed_text E (pv_config v) \<Longrightarrow> sealed_text E (pv_config (g v))) \<Longrightarrow> I d \<Longrightarrow> I (set_provider t i g d)"
  unfolding set_provider_def by (rule map_provider)

lemma law_drop_provider: "I d \<Longrightarrow> drop_provider t i d = (d', n) \<Longrightarrow> I d'"
  by (auto simp: drop_provider_def delete_rows_def Let_def intro!: drop_provider)

lemma law_insert_key: "digest (ak_hash k) \<Longrightarrow> I d \<Longrightarrow> insert_api_key c d k = Some (d', i) \<Longrightarrow> I d'"
  by (auto simp: insert_api_key_def split: if_splits intro!: add_key)

lemma law_revoke: "I d \<Longrightarrow> revoke_key c t i d = (d', n) \<Longrightarrow> I d'"
  using revoke [of d "\<lambda>k. ak_id k = i \<and> ak_tenant k = t" "db_now c"]
  by (auto simp: revoke_key_def Let_def conj_assoc)

text \<open>The pieces the components share.\<close>

lemma steady_consent [keeps_rules]: "keeps (steady I) (consent_Record e)"
  unfolding consent_Record_def by (intro keeps_rules aside_exec) (erule unguarded_inserts)

lemma steady_unsubscribe [keeps_rules]: "keeps (steady I) (Unsubscribe t s ch)"
  unfolding Unsubscribe_def by (intro aside_exec) (erule unguarded_inserts)

lemma steady_suppress [keeps_rules]: "keeps (steady I) (AddSuppression t ch v rs)"
  unfolding AddSuppression_def Let_def hashValue_def
  by (rule keeps_steady_exec) (blast intro: law_insert_suppression digest_sha)

lemma steady_mark [keeps_rules]: "keeps (steady I) (exec (\<lambda>c d. set_notification nid f d))"
  by (rule aside_exec) (erule unguarded_inserts)

lemma steady_marks [keeps_rules]: "keeps (steady I) (mark_suppressed nid)" "keeps (steady I) (mark_sent nid p m)"
  unfolding mark_suppressed_def mark_sent_def by (intro keeps_rules)+

lemma steady_send [keeps_rules]: "keeps (steady I) (p_send p m)"
  unfolding p_send_def by (intro keeps_rules)

lemma steady_try [keeps_rules]: "keeps (steady I) (try_providers ps m name le)"
  by (induction ps arbitrary: le) (auto intro!: keeps_rules)

lemma steady_failure [keeps_rules]: "keeps (steady I) (HandleFailure msg n e)"
  unfolding HandleFailure_def Let_def by (intro keeps_rules)

lemma steady_worker: "(\<And>m. keeps (steady I) (h m)) \<Longrightarrow> keeps (steady I) (worker_consume n h msg)"
  unfolding worker_consume_def by (intro keeps_rules)

end

section \<open>The workers\<close>

lemmas pipeline_defs = IsSuppressed_def Let_def RenderEmail_def Fetch_def pick_providers_def routing_Load_def
  settle_send_def

context guarded_tables begin

lemma steady_email: "keeps (steady I) (email_consume E' P F msg)"
  unfolding email_consume_def
  by (rule steady_worker)
    (unfold email_handle_def email_handleJob_def email_markSuppressed_def email_recordDelivery_def
      email_sendWithFallback_def pipeline_defs;
     (intro keeps_rules | simp split: prod.splits sum.splits option.splits)+)

lemma steady_sms: "keeps (steady I) (sms_consume E' P F msg)"
  unfolding sms_consume_def sms_handle_def sms_handleJob_def sms_promotional_def sms_send_def sms_recordDelivery_def
    sms_sendWithFallback_def LoadApprovedTemplates_def IsRegistered_def IsPromotionalWindowOpen_def
    ResumeAtNextWindow_def pipeline_defs
  by (intro keeps_rules | simp split: prod.splits sum.splits option.splits)+

lemma steady_whatsapp: "keeps (steady I) (wa_consume E' S msg)"
  unfolding wa_consume_def
  by (rule steady_worker)
    (unfold wa_handle_def wa_process_def wa_recordDelivery_def session_open_def wa_sendWithFallback_def pipeline_defs;
     (intro keeps_rules | simp split: prod.splits sum.splits option.splits)+)

lemma steady_webhook: "keeps (steady I) (webhook_consume E' msg)"
  unfolding webhook_consume_def
  by (rule steady_worker)
    (unfold webhook_handle_def webhook_process_def webhook_recordDelivery_def;
     (intro keeps_rules | simp split: prod.splits sum.splits option.splits)+)

lemma steady_inapp: "keeps (steady I) (inapp_consume msg)"
  unfolding inapp_consume_def
  by (rule steady_worker) (unfold inapp_handle_def; (intro keeps_rules | simp split: option.splits)+)

lemma steady_aggregator: "keeps (steady I) (aggregator_consume msg)"
  unfolding aggregator_consume_def aggregator_handle_def
  by (intro keeps_rules aside_exec) (erule unguarded_inserts)

lemma steady_federate: "keeps (steady I) (federate E msg)"
  unfolding federate_def upsertSubscriber_def softDeleteSubscriber_def
  by (intro keeps_rules keeps_steady_exec) (auto intro: law_upsert_user pii_mirrored law_soft_delete)

end

section \<open>The engine and the scheduler\<close>

context guarded_tables begin

lemma steady_update_run [keeps_rules]: "keeps (steady I) (exec (\<lambda>c d. Some (update_run run (f c) d)))"
  by (rule aside_exec) auto

lemma steady_dispatch [keeps_rules]: "keeps (steady I) (dispatchChannel ev s run)"
  unfolding dispatchChannel_def Let_def IsOptedIn_def
  by (intro keeps_rules aside_stmt | (erule unguarded_inserts) | simp split: sum.splits)+

lemma steady_loop [keeps_rules]: "keeps (steady I) (exec_loop n ev steps run i)"
proof (induction n arbitrary: i)
  case 0
  then show ?case by (subst exec_loop.simps) (simp add: failRun_def keeps_rules)
next
  case (Suc n)
  then show ?case
    by (subst exec_loop.simps) (auto simp: Let_def split: step_type.splits intro!: keeps_rules)
qed

lemma steady_engine: "keeps (steady I) (engine_consume msg)"
  unfolding engine_consume_def engine_handle_def ProcessEvent_def Resume_def lookupWorkflow_def createRun_def
    executeFrom_def
  by (intro keeps_rules aside_stmt | (erule unguarded_inserts) | simp split: option.splits)+

lemma steady_tick: "keeps (steady I) (Tick sch)"
  unfolding Tick_def tick_tenant_def requeue_def
  by (intro keeps_rules aside_exec | simp)+

end

section \<open>The API\<close>

lemma keeps_bind_result:
  assumes "keeps P m" "\<And>s a s'. run_state m s = (a, s') \<Longrightarrow> R a" "\<And>a. R a \<Longrightarrow> keeps P (k a)"
  shows "keeps P (m \<bind> k)"
  using assms by (fastforce simp: keeps_def split: prod.splits)

lemma query_result: "run_state (query g) s = (Inr x, s') \<Longrightarrow> \<exists>c d. x = g c d"
  by (cases "tx s") (auto simp: run_defs split: if_splits)

context guarded_tables begin

lemma steady_fetch_template [keeps_rules]: "keeps (steady I) (fetch_template t i)"
  unfolding fetch_template_def by (intro keeps_rules aside_stmt) (auto split: option.splits)

lemma steady_prefs [keeps_rules]: "keeps (steady I) (update_prefs t s a ip ps)"
proof (induction ps)
  case (Cons p ps)
  then show ?case
    unfolding update_prefs.simps by (intro keeps_rules aside_exec) (auto dest: unguarded_inserts)
qed (simp add: keeps_rules)

lemma steady_release [keeps_rules]: "keeps (steady I) (releaseIdem k)"
  unfolding releaseIdem_def by (intro keeps_rules)

lemma steady_encrypt:
  assumes "\<And>x. (\<And>y. x = Some y \<Longrightarrow> sealed_text E y) \<Longrightarrow> keeps (steady I) (k x)"
  shows "keeps (steady I) (encrypt_field E v \<bind> k)"
proof (rule keeps_bind_result [where R = "\<lambda>x. \<forall>y. x = Some y \<longrightarrow> sealed_text E y"])
  show "keeps (steady I) (encrypt_field E v)" unfolding encrypt_field_def by (intro keeps_rules)
  show "\<forall>z. y = Some z \<longrightarrow> sealed_text E z" if "run_state (encrypt_field E v) s = (y, s')" for y s s'
    using that by (auto simp: encrypt_field_def on_err_def State_Monad.bind_def dest: query_result
        split: if_splits prod.splits sum.splits)
qed (rule assms, blast)

text \<open>Handlers that touch none of the guarded tables.\<close>

lemma steady_handlers [keeps_rules]:
  "keeps (steady I) (NewTriggerEvent rq)" "keeps (steady I) (ListTemplates rq)" "keeps (steady I) (CreateTemplate rq)"
  "keeps (steady I) (GetTemplate rq)" "keeps (steady I) (UpdateTemplate rq)" "keeps (steady I) (DeleteTemplate rq)"
  "keeps (steady I) (PublishTemplate rq)"
  unfolding NewTriggerEvent_def intake_def ListTemplates_def CreateTemplate_def GetTemplate_def UpdateTemplate_def
    DeleteTemplate_def PublishTemplate_def Let_def
  by (intro keeps_rules aside_stmt | (erule unguarded_inserts) | simp split: option.splits)+

lemma steady_workflow_handlers [keeps_rules]:
  "keeps (steady I) (ListWorkflows rq)" "keeps (steady I) (CreateWorkflow rq)" "keeps (steady I) (GetWorkflow rq)"
  "keeps (steady I) (UpdateWorkflow rq)" "keeps (steady I) (ArchiveWorkflow rq)" "keeps (steady I) (ActivateWorkflow rq)"
  "keeps (steady I) (PauseWorkflow rq)" "keeps (steady I) (ListWorkflowRuns rq)"
  unfolding ListWorkflows_def CreateWorkflow_def GetWorkflow_def UpdateWorkflow_def ArchiveWorkflow_def
    ActivateWorkflow_def PauseWorkflow_def switch_workflow_def ListWorkflowRuns_def Let_def
  by (intro keeps_rules aside_stmt | (erule unguarded_inserts) | simp split: option.splits)+

lemma steady_dlt_handlers [keeps_rules]:
  "keeps (steady I) (ListDLTTemplates rq)" "keeps (steady I) (RegisterDLTTemplate rq)"
  "keeps (steady I) (UpdateDLTTemplate rq)" "keeps (steady I) (DeleteDLTTemplate rq)"
  unfolding ListDLTTemplates_def RegisterDLTTemplate_def UpdateDLTTemplate_def DeleteDLTTemplate_def Let_def
  by (intro keeps_rules aside_stmt | (erule unguarded_inserts) | simp split: option.splits if_splits)+

lemma steady_reads [keeps_rules]:
  "keeps (steady I) (ListNotifications rq)" "keeps (steady I) (GetNotification rq)" "keeps (steady I) (ListAuditLogs rq)"
  "keeps (steady I) (DeliveryAnalytics rq)" "keeps (steady I) (ListAPIKeys rq)" "keeps (steady I) (ListProviders rq)"
  "keeps (steady I) (ListSubscribers rq)" "keeps (steady I) (GetSubscriber rq)" "keeps (steady I) (GetPreferences rq)"
  "keeps (steady I) (ExportSubscriberData E' rq)" "keeps (steady I) (Health rq)" "keeps (steady I) (NotificationFeed rq)"
  unfolding ListNotifications_def GetNotification_def ListAuditLogs_def DeliveryAnalytics_def QueryTotals_def
    ListAPIKeys_def ListProviders_def ListSubscribers_def GetSubscriber_def GetPreferences_def
    ExportSubscriberData_def History_def Health_def NotificationFeed_def Let_def
  by (intro keeps_rules)+

lemma steady_other_handlers [keeps_rules]:
  "keeps (steady I) (UpdatePreferences rq)" "keeps (steady I) (UnsubscribeLink rq)"
  "keeps (steady I) (MarkNotificationRead rq)"
  unfolding UpdatePreferences_def UnsubscribeLink_def MarkNotificationRead_def Let_def
  by (intro keeps_rules aside_exec | simp)+

text \<open>Handlers that change a guarded table.\<close>

lemma steady_create_subscriber [keeps_rules]: "keeps (steady I) (CreateSubscriber E rq)"
  unfolding CreateSubscriber_def
  by (intro keeps_rules steady_encrypt keeps_steady_stmt)
    (auto simp: pii_sealed_def subscriber_of_def elim!: law_insert_subscriber [rotated])

lemma steady_update_subscriber [keeps_rules]: "keeps (steady I) (UpdateSubscriber rq)"
  unfolding UpdateSubscriber_def Let_def
  by (intro keeps_rules keeps_steady_exec) (auto simp: law_set_subscriber)

lemma steady_delete_subscriber [keeps_rules]: "keeps (steady I) (DeleteSubscriber rq)"
  unfolding DeleteSubscriber_def EraseSubscriber_def
  by (intro keeps_rules keeps_steady_exec) (auto simp: law_erase)

lemma steady_create_key [keeps_rules]: "keeps (steady I) (CreateAPIKey rnd rq)"
  unfolding CreateAPIKey_def Let_def generateAPIKey_def
  by (auto intro!: keeps_rules keeps_steady_stmt split: option.splits
      elim!: law_insert_key [rotated] simp: key_row_def)

lemma steady_revoke_key [keeps_rules]: "keeps (steady I) (RevokeAPIKey rq)"
  unfolding RevokeAPIKey_def by (intro keeps_rules keeps_steady_stmt) (auto dest: law_revoke)

lemma steady_create_provider [keeps_rules]: "keeps (steady I) (CreateProvider E rq)"
  unfolding CreateProvider_def
  by (intro keeps_rules keeps_steady_stmt) (auto simp: new_provider_def elim!: law_insert_provider [rotated])

lemma steady_update_provider [keeps_rules]: "keeps (steady I) (UpdateProvider E rq)"
  unfolding UpdateProvider_def Let_def
  by (intro keeps_rules keeps_steady_exec) (auto intro!: law_set_provider)

lemma steady_delete_provider [keeps_rules]: "keeps (steady I) (DeleteProvider rq)"
  unfolding DeleteProvider_def by (intro keeps_rules keeps_steady_stmt) (auto dest: law_drop_provider)

lemma steady_inbound [keeps_rules]: "keeps (steady I) (InboundEmailWebhook E' rq)"
  unfolding InboundEmailWebhook_def processEmailEvent_def email_event_tx_def Let_def
  by (intro keeps_rules keeps_steady_exec)
    (auto dest: unguarded_inserts intro: aside elim: law_insert_suppression [OF digest_sha, rotated])

end

end
