(* ===== verification/System.thy ===== *)
theory System
  imports Stability Admin_Spec Email_Events
begin

text \<open>
  The whole program as one system: every route, worker, consumer and job, taking turns in any order,
  with any failures. Three promises hold however long it runs: what it stores of personal data and
  credentials is encrypted or hashed, a suppression is for ever, and so is a revocation.
\<close>

section \<open>The system\<close>

text \<open>One turn. \<open>P\<close>, \<open>F\<close>, \<open>P'\<close>, \<open>F'\<close> and \<open>S\<close> are the static providers of the workers.\<close>

inductive turn :: "env \<Rightarrow> email_message provider option \<Rightarrow> email_message provider option \<Rightarrow>
    sms_message provider option \<Rightarrow> sms_message provider option \<Rightarrow> wa_message provider option \<Rightarrow>
    world \<Rightarrow> world \<Rightarrow> bool" for E P F P' F' S where
  api: "run_state (serve E rnd rq) w = (a, w') \<Longrightarrow> turn E P F P' F' S w w'"
| public: "(m, p, h) \<in> set (public_routes E @ health_routes @ stream_routes) \<Longrightarrow>
    run_state (recoverer h rq) w = (b, w') \<Longrightarrow> turn E P F P' F' S w w'"
| engine: "run_state (engine_consume msg) w = (x, w') \<Longrightarrow> turn E P F P' F' S w w'"
| scheduler: "run_state (Tick sch) w = (u, w') \<Longrightarrow> turn E P F P' F' S w w'"
| email: "run_state (email_consume E P F msg) w = (y, w') \<Longrightarrow> turn E P F P' F' S w w'"
| sms: "run_state (sms_consume E P' F' msg) w = (y, w') \<Longrightarrow> turn E P F P' F' S w w'"
| whatsapp: "run_state (wa_consume E S msg) w = (y, w') \<Longrightarrow> turn E P F P' F' S w w'"
| webhook: "run_state (webhook_consume E msg) w = (y, w') \<Longrightarrow> turn E P F P' F' S w w'"
| inapp: "run_state (inapp_consume msg) w = (y, w') \<Longrightarrow> turn E P F P' F' S w w'"
| aggregator: "run_state (aggregator_consume msg) w = (x, w') \<Longrightarrow> turn E P F P' F' S w w'"
| federation: "run_state (federate E msg) w = (x, w') \<Longrightarrow> turn E P F P' F' S w w'"
| outside: "db w' = db w \<Longrightarrow> tx w' = tx w \<Longrightarrow> turn E P F P' F' S w w'"

text \<open>Any number of turns.\<close>

inductive history :: "env \<Rightarrow> email_message provider option \<Rightarrow> email_message provider option \<Rightarrow>
    sms_message provider option \<Rightarrow> sms_message provider option \<Rightarrow> wa_message provider option \<Rightarrow>
    world \<Rightarrow> world \<Rightarrow> bool" for E P F P' F' S w where
  start: "history E P F P' F' S w w"
| turn: "history E P F P' F' S w w1 \<Longrightarrow> turn E P F P' F' S w1 w2 \<Longrightarrow> history E P F P' F' S w w2"

context guarded_tables begin

lemma steady_route: "route_of E rnd rq = Some h \<Longrightarrow> keeps (steady I) (h rq2)"
proof -
  have "\<forall>(m, p, h) \<in> set (v1_routes E rnd). keeps (steady I) (h rq2)"
    unfolding v1_routes_def by (simp add: keeps_rules)
  moreover assume "route_of E rnd rq = Some h"
  ultimately show ?thesis by (auto simp: route_of_def dest: find_Some_in)
qed

lemma steady_serve: "keeps (steady I) (serve E rnd rq)"
proof (cases "route_of E rnd rq")
  case (Some h)
  have "keeps (steady I) (api_v1 h rq)"
    unfolding api_v1_def Auth_def LookupTenantByKey_def ScopeGuard_def RateLimit_def Audit_def TenantTx_def Let_def
    by (intro keeps_rules steady_route [OF Some] aside_exec | (erule unguarded_inserts) | simp)+
  then show ?thesis unfolding serve_def Some recoverer_def by (simp add: keeps_rules)
qed (simp add: serve_def keeps_rules)

lemma steady_turn: "turn E P F P' F' S w w' \<Longrightarrow> steady I w \<Longrightarrow> steady I w'"
proof (induction rule: turn.induct)
  case (public m p h rq w b w')
  then have "keeps (steady I) (h rq)"
    by (auto simp: public_routes_def health_routes_def stream_routes_def intro!: keeps_rules)
  then have "keeps (steady I) (recoverer h rq)" unfolding recoverer_def by (intro keeps_rules)
  with public show ?case by (blast dest: keepsD)
next
  case (outside w' w)
  then show ?case by (simp add: steady_def)
qed (blast dest: keepsD [OF steady_serve] keepsD [OF steady_engine] keepsD [OF steady_tick] keepsD [OF steady_email]
    keepsD [OF steady_sms] keepsD [OF steady_whatsapp] keepsD [OF steady_webhook] keepsD [OF steady_inapp]
    keepsD [OF steady_aggregator] keepsD [OF steady_federate])+

lemma steady_history: "history E P F P' F' S w w' \<Longrightarrow> steady I w \<Longrightarrow> steady I w'"
  by (induction rule: history.induct) (auto dest: steady_turn)

lemma kept_for_ever: "history E P F P' F' S w w' \<Longrightarrow> tx w = None \<Longrightarrow> I (db w) \<Longrightarrow> I (db w')"
  using steady_history [of P F P' F' S w w'] by (simp add: steady_def)

end

section \<open>Data at rest\<close>

definition data_sealed :: "env \<Rightarrow> db \<Rightarrow> bool" where
  "data_sealed E d \<longleftrightarrow> (\<forall>r \<in> set (subscribers d). pii_sealed E r)
     \<and> (\<forall>v \<in> set (providers d). sealed_text E (pv_config v))
     \<and> (\<forall>s \<in> set (suppressions d). digest (su_hash s)) \<and> (\<forall>k \<in> set (api_keys d). digest (ak_hash k))"

lemma all_update_where: "\<forall>r \<in> set rs. Q r \<Longrightarrow> (\<And>r. Q r \<Longrightarrow> Q (f r)) \<Longrightarrow> \<forall>r \<in> set (update_where p f rs). Q r"
  by (auto simp: update_where_def)

interpretation at_rest: guarded_tables E "data_sealed E"
proof (unfold_locales, goal_cases)
  case (3 d f p)
  then show ?case using all_update_where [of "subscribers d" "pii_sealed E" f p] by (simp add: data_sealed_def)
next
  case (6 d g q)
  then show ?case
    using all_update_where [of "providers d" "\<lambda>v. sealed_text E (pv_config v)" g q] by (simp add: data_sealed_def)
next
  case (9 d h now)
  then show ?case
    using all_update_where [of "api_keys d" "\<lambda>k. digest (ak_hash k)" "\<lambda>k. k\<lparr>ak_revoked := Some now\<rparr>"]
    by (simp add: data_sealed_def)
qed (simp_all add: data_sealed_def unguarded_def)



section \<open>Suppressions\<close>

definition listed :: "string \<Rightarrow> string \<Rightarrow> string \<Rightarrow> db \<Rightarrow> bool" where
  "listed t ch h d \<longleftrightarrow> (\<exists>s \<in> set (suppressions d). su_tenant s = t \<and> su_channel s = ch \<and> su_hash s = h)"

interpretation suppression: guarded_tables E "listed t ch h"
  by unfold_locales (simp_all add: listed_def unguarded_def bex_Un)

lemma listed_suppressed: "listed t ch h d \<Longrightarrow> t \<noteq> [] \<Longrightarrow> suppressed_in (tctx t) d t ch h"
  by (auto simp: listed_def suppressed_in_def list_ex_iff sees_def tctx_def)

lemma listed_blocks:
  "listed (jb_tenant j) ch (hashValue a) d \<Longrightarrow> jb_tenant j \<noteq> [] \<Longrightarrow> address d j = Some a \<Longrightarrow> blocked_at address ch d j"
  by (simp add: blocked_at_def listed_suppressed)

lemma wp_each_one: "wp (for_each [m] (\<lambda>m. do { _ \<leftarrow> c m; ret () })) (\<lambda>_. Q) w \<Longrightarrow> wp (c m) (\<lambda>_. Q) w"
  by (simp add: wp_def split: prod.splits)

text \<open>
  C6.
  A suppression is for ever: once an address is on a tenant's suppression list for a channel, no
  history of the whole program, requests, callbacks, federation and erasures included, makes the
  worker of the channel send anything for a job of the tenant whose subscriber has this address at
  the time of the job.
\<close>

theorem suppression_is_for_ever:
  assumes "history E P F P' F' S w w'" "tx w = None" "tx w' = None"
    and "job_of_msg msg = Some j" "jb_tenant j \<noteq> []" "listed (jb_tenant j) ch (hashValue a) (db w)"
  shows "(ch = ''email'' \<and> email_address E (db w') j = Some a \<longrightarrow>
      wp (email_consume E P F msg) (\<lambda>_ w2. http_log w2 = http_log w') w')
    \<and> (ch = ''sms'' \<and> sms_address E (db w') j = Some a \<longrightarrow>
      wp (sms_consume E P' F' msg) (\<lambda>_ w2. http_log w2 = http_log w') w')
    \<and> (ch = ''whatsapp'' \<and> wa_address (db w') j = Some a \<longrightarrow>
      wp (wa_consume E S msg) (\<lambda>_ w2. http_log w2 = http_log w') w')"
proof -
  have w': "saved w' = None" using assms(3) by (simp add: saved_def)
  have l: "listed (jb_tenant j) ch (hashValue a) (db w')"
    by (rule suppression.kept_for_ever [OF assms(1,2,6)])
  have b: "address (db w') j = Some a \<Longrightarrow> \<forall>m \<in> set [msg]. case job_of_msg m of None \<Rightarrow> True
      | Some j \<Rightarrow> blocked_at address ch (db w') j" for address
    using listed_blocks [OF l assms(5), of address] assms(4) by simp
  have "wp m (\<lambda>_ w2. http_log w2 = http_log w') w'" if "wp m (\<lambda>_. held w') w'" for m :: "'x app"
    using that by (rule wp_mono) (simp add: held_def)
  then show ?thesis
    using b [of "email_address E"] b [of "sms_address E"] b [of wa_address]
    by (auto intro: wp_mono [OF wp_each_one [OF email_suppressed_never_sent [OF w']]]
        wp_mono [OF wp_each_one [OF sms_suppressed_never_sent [OF w']]]
        wp_mono [OF wp_each_one [OF wa_suppressed_never_sent [OF w']]] simp: held_def)
qed

theorem suppression_is_for_ever_witness:
  "wp (email_consume sample_env None None sample_msg) (\<lambda>_ w2. http_log w2 = [])
     ((world0 (suppressing ''email'' ''enc-mail'' channel_db))\<lparr>ticks := 5\<rparr>)"
proof -
  let ?w = "world0 (suppressing ''email'' ''enc-mail'' channel_db)"
  have h: "history sample_env None None None None None ?w (?w\<lparr>ticks := 5\<rparr>)"
    by (rule history.turn [OF history.start turn.outside]) simp_all
  have "wp (email_consume sample_env None None sample_msg) (\<lambda>_ w2. http_log w2 = http_log (?w\<lparr>ticks := 5\<rparr>))
      (?w\<lparr>ticks := 5\<rparr>)"
    by (rule suppression_is_for_ever [where a = "''enc-mail''", OF h _ _ job_of_sample_msg, THEN conjunct1, THEN mp])
      (simp_all add: channel_defs listed_def email_address_def email_select_def)
  then show ?thesis by (simp add: world0_def)
qed

section \<open>Revocations\<close>

lemma dead_key_iff: "dead_key h d \<longleftrightarrow> h \<in> ak_hash ` set (api_keys d)
    \<and> (\<forall>k \<in> set (api_keys d). ak_hash k = h \<longrightarrow> ak_revoked k \<noteq> None) \<and> (\<forall>t \<in> set (tenants d). tn_key_hash t \<noteq> h)"
proof -
  have "key_owner d h = None \<longleftrightarrow> select_api_key d h = None \<and> select_master_key d h = None"
    by (simp add: key_owner_def split: option.split)
  then show ?thesis
    unfolding dead_key_def select_api_key_def select_master_key_def map_option_is_None find_None_iff by metis
qed

interpretation dead: guarded_tables E "dead_key h"
proof (unfold_locales, goal_cases)
  case (9 d q now)
  let ?ks = "update_where (\<lambda>k. q k \<and> ak_revoked k = None) (\<lambda>k. k\<lparr>ak_revoked := Some now\<rparr>) (api_keys d)"
  have "map ak_hash ?ks = map ak_hash (api_keys d)" by (simp add: update_where_def)
  then have "ak_hash ` set ?ks = ak_hash ` set (api_keys d)" by (metis set_map)
  moreover have "\<forall>k \<in> set ?ks. ak_hash k = h \<longrightarrow> ak_revoked k \<noteq> None"
    using 9 by (intro all_update_where) (simp_all add: dead_key_iff)
  ultimately show ?case using 9 by (simp add: dead_key_iff)
qed (auto simp: dead_key_iff unguarded_def)

text \<open>
  C35.
  A revocation is for ever: once the revocation of a key has been answered, 204 or 404, every request
  that carries the key, to any route and after any history of the whole program, the creation of
  other keys included, is answered 401 or 403 and changes nothing.
\<close>

theorem revocation_is_for_ever:
  assumes "ctx_tenant rq = Some t" "t \<noteq> []" "idle w" "one_key (db w) t (URLParam rq ''id'') (hashAPIKey key)"
  shows "wp (TenantTx RevokeAPIKey rq) (\<lambda>r w1. status_of r \<in> {204, 404}
    \<and> (\<forall>w2 rq2 h. history E P F P' F' S w1 w2 \<and> tx w2 = None \<and> header rq2 ''X-Qeet-Api-Key'' = key \<longrightarrow>
        wp (api_v1 h rq2) (\<lambda>a w3. quiet w2 w3 \<and> denied a) w2)) w"
proof (rule wp_mono [OF revocation_kills [OF assms]], goal_cases)
  case (1 r w1)
  have "wp (api_v1 h rq2) (\<lambda>a w3. quiet w2 w3 \<and> denied a) w2"
    if "history E P F P' F' S w1 w2" "tx w2 = None" "header rq2 ''X-Qeet-Api-Key'' = key" for w2 rq2 h
  proof -
    have "tx w1 = None" using 1 by (simp add: idle_def saved_def)
    then have "dead_key (hashAPIKey key) (db w2)" using 1 by (auto intro: dead.kept_for_ever [OF that(1)])
    then show ?thesis using that(2,3) by (auto intro!: denied_without_owner simp: dead_key_def saved_def)
  qed
  with 1 show ?case by blast
qed

theorem revocation_is_for_ever_witness:
  "wp (TenantTx RevokeAPIKey key_request) (\<lambda>r w1. status_of r \<in> {204, 404}
    \<and> (\<forall>w2 rq2 h. history sample_env None None None None None w1 w2 \<and> tx w2 = None
        \<and> header rq2 ''X-Qeet-Api-Key'' = ''secret'' \<longrightarrow>
        wp (api_v1 h rq2) (\<lambda>a w3. quiet w2 w3 \<and> denied a) w2)) (world0 two_keys_db)"
  by (rule revocation_is_for_ever [where t = "''t1''"])
    (simp_all add: key_request_def one_key_def two_keys_db_def select_master_key_def URLParam_def
      hash_not_short [symmetric] sample_defs idle_def saved_def)

end
