(* ===== verification/Deployment.thy ===== *)
theory Deployment
  imports Email_Worker Sms_Worker Whatsapp_Worker Direct_Workers
begin

text \<open>
  \<^verbatim>\<open>cmd/worker\<close>: which static providers a worker process is given by its configuration, and which
  consumer it runs for its channel. Composed with the workers this settles whether a deployed worker
  can crash on a message.
\<close>

section \<open>Configuration\<close>

text \<open>\<^verbatim>\<open>config.Config\<close>; its loading is a library's.\<close>

record config =
  cf_http_port :: string
  cf_env :: string
  cf_database_url :: string
  cf_migrations_dir :: string
  cf_nats_url :: string
  cf_redis_url :: string
  cf_s3_bucket :: string
  cf_s3_endpoint :: string
  cf_s3_region :: string
  cf_issuer :: string
  cf_encryption_key :: string
  cf_ses_region :: string
  cf_ses_access_key :: string
  cf_ses_secret_key :: string
  cf_resend_key :: string
  cf_msg91_key :: string
  cf_twofactor_key :: string
  cf_wa_token :: string
  cf_wa_phone :: string
  cf_wa_verify :: string
  cf_otlp :: string

definition email_primary :: "env \<Rightarrow> config \<Rightarrow> email_message provider res" where
  "email_primary E cfg = (if cf_ses_access_key cfg \<noteq> []
     then (case NewSES E (cf_ses_region cfg) (cf_ses_access_key cfg) (cf_ses_secret_key cfg) of
         Inl e \<Rightarrow> Inl (Wrap ''init SES'' e) | Inr p \<Rightarrow> Inr p)
     else Inr (NewResend E (cf_resend_key cfg)))"

definition email_fallback :: "env \<Rightarrow> config \<Rightarrow> email_message provider \<Rightarrow> email_message provider option" where
  "email_fallback E cfg primary = (if cf_resend_key cfg \<noteq> [] \<and> p_name primary \<noteq> ''resend''
     then Some (NewResend E (cf_resend_key cfg)) else None)"

definition sms_primary :: "env \<Rightarrow> config \<Rightarrow> sms_message provider" where
  "sms_primary E cfg = (if cf_msg91_key cfg \<noteq> [] then NewMSG91 E (cf_msg91_key cfg)
     else NewTwoFactor E (cf_twofactor_key cfg))"

definition sms_fallback :: "env \<Rightarrow> config \<Rightarrow> sms_message provider \<Rightarrow> sms_message provider option" where
  "sms_fallback E cfg primary = (if cf_twofactor_key cfg \<noteq> [] \<and> p_name primary \<noteq> ''2factor''
     then Some (NewTwoFactor E (cf_twofactor_key cfg)) else None)"

text \<open>
  What the process does with each message of its channel, or why it stops at the start. \<open>redis\<close>: whether
  the client library accepts the Redis URL.
\<close>

definition worker_main :: "env \<Rightarrow> (string \<Rightarrow> bool) \<Rightarrow> config \<Rightarrow> string \<Rightarrow> (js_msg \<Rightarrow> disposition option app) res" where
  "worker_main E redis cfg channel = (let E' = E\<lparr>e_key := cf_encryption_key cfg\<rparr>;
       with_redis = (\<lambda>w. if redis (cf_redis_url cfg) then Inr w else Inl (Wrap ''connect to redis'' (Err ''redis url''))) in
     if channel = [] then Inl (Err ''-channel required: email|sms|whatsapp|push|webhook'')
     else if channel = ''email'' then (case email_primary E' cfg of Inl e \<Rightarrow> Inl e
       | Inr p \<Rightarrow> Inr (email_consume E' (Some p) (email_fallback E' cfg p)))
     else if channel = ''sms'' then
       Inr (sms_consume E' (Some (sms_primary E' cfg)) (sms_fallback E' cfg (sms_primary E' cfg)))
     else if channel = ''whatsapp'' then
       with_redis (wa_consume E' (Some (NewMeta E' (cf_wa_token cfg) (cf_wa_phone cfg))))
     else if channel = ''inapp'' then with_redis inapp_consume
     else if channel = ''webhook'' then Inr (webhook_consume E')
     else Inl (Err ''channel worker not yet implemented''))"

section \<open>Values a computation can have\<close>

definition gives :: "('a \<Rightarrow> bool) \<Rightarrow> 'a app \<Rightarrow> bool" where
  "gives R m \<longleftrightarrow> (\<forall>s. R (fst (run_state m s)))"

definition no_panic :: "'a res \<Rightarrow> bool" where
  "no_panic r \<longleftrightarrow> (case r of Inl e \<Rightarrow> \<not> is_panic e | Inr _ \<Rightarrow> True)"

lemma no_panic_simps [simp]: "no_panic (Inl e) = (\<not> is_panic e)" "no_panic (Inr x)"
  by (simp_all add: no_panic_def)

named_theorems gives_rules

lemma givesI: "(\<And>s x s'. run_state m s = (x, s') \<Longrightarrow> R x) \<Longrightarrow> gives R m"
  unfolding gives_def by (metis prod.collapse)

lemma givesD: "gives R m \<Longrightarrow> run_state m s = (x, s') \<Longrightarrow> R x"
  unfolding gives_def by (metis fst_conv)

lemma gives_return [gives_rules]: "R x \<Longrightarrow> gives R (ret x)"
  by (simp add: gives_def)

lemma gives_after: "gives Q m \<Longrightarrow> (\<And>x. Q x \<Longrightarrow> gives R (k x)) \<Longrightarrow> gives R (m \<bind> k)"
  unfolding gives_def State_Monad.bind_def by (simp add: case_prod_beta)

lemma gives_bind [gives_rules]: "(\<And>x. gives R (k x)) \<Longrightarrow> gives R (m \<bind> k)"
  by (rule gives_after [where Q = "\<lambda>_. True"]) (simp_all add: gives_def)

lemma gives_on_err [gives_rules]: "(\<And>e. gives R (h e)) \<Longrightarrow> (\<And>x. gives R (k x)) \<Longrightarrow> gives R (on_err m h k)"
  unfolding on_err_def by (rule gives_bind) (simp split: sum.splits)

lemma gives_on_err_ok:
  "gives no_panic m \<Longrightarrow> (\<And>e. \<not> is_panic e \<Longrightarrow> gives R (h e)) \<Longrightarrow> (\<And>x. gives R (k x)) \<Longrightarrow> gives R (on_err m h k)"
  unfolding on_err_def by (erule gives_after) (auto split: sum.splits)

lemma gives_and_then [gives_rules]:
  "gives no_panic m \<Longrightarrow> (\<And>x. gives no_panic (k x)) \<Longrightarrow> gives no_panic (and_then m k)"
  unfolding and_then_def by (erule gives_on_err_ok) (auto intro: gives_return)

lemma gives_if [gives_rules]: "(b \<Longrightarrow> gives R m) \<Longrightarrow> (\<not> b \<Longrightarrow> gives R m') \<Longrightarrow> gives R (if b then m else m')"
  by simp

lemma gives_case_option [gives_rules]:
  "(z = None \<Longrightarrow> gives R m) \<Longrightarrow> (\<And>x. z = Some x \<Longrightarrow> gives R (k x)) \<Longrightarrow> gives R (case z of None \<Rightarrow> m | Some x \<Rightarrow> k x)"
  by (cases z) auto

lemma gives_case_sum [gives_rules]:
  "(\<And>e. z = Inl e \<Longrightarrow> gives R (h e)) \<Longrightarrow> (\<And>x. z = Inr x \<Longrightarrow> gives R (k x)) \<Longrightarrow>
    gives R (case z of Inl e \<Rightarrow> h e | Inr x \<Rightarrow> k x)"
  by (cases z) auto

lemma gives_case_prod [gives_rules]:
  "(\<And>x y. z = (x, y) \<Longrightarrow> gives R (k x y)) \<Longrightarrow> gives R (case z of (x, y) \<Rightarrow> k x y)"
  by (cases z) auto

lemma gives_stmt [gives_rules]: "gives no_panic (db_stmt f)"
  unfolding gives_def
proof
  fix s
  show "no_panic (fst (run_state (db_stmt f) s))"
    by (cases "tx s") (auto simp: run_defs pgerr_def split: option.splits)
qed

lemma gives_db [gives_rules]: "gives no_panic (query f)" "gives no_panic (query_row g)" "gives no_panic (exec h)"
  "gives no_panic begin_tx" "gives no_panic (set_tenant t)" "gives no_panic commit_tx"
  unfolding query_def query_row_def exec_def begin_tx_def set_tenant_def commit_tx_def
  by (intro gives_rules; simp add: ErrNoRows_def pgerr_def)+

lemma gives_run [gives_rules]: "gives no_panic fn \<Longrightarrow> gives no_panic (RunInTenant t fn)"
  unfolding RunInTenant_def in_tenant_tx_def by (intro gives_rules gives_on_err_ok; simp)

section \<open>Providers that return errors instead of panicking\<close>

definition sane :: "'m provider \<Rightarrow> bool" where
  "sane p \<longleftrightarrow> (\<forall>m. no_panic (p_request p m)) \<and> (\<forall>r. no_panic (p_reply p r))"

lemma no_panic_transport: "(\<And>rs. no_panic (rd rs)) \<Longrightarrow> no_panic (transport what rd r)"
  by (simp add: transport_def split: sum.splits)

lemma no_panic_readers [simp]: "no_panic (read_resend rs)" "no_panic (read_ses E rs)" "no_panic (read_msg91 rs)"
  "no_panic (read_twofactor rs)" "no_panic (read_meta rs)"
  by (simp_all add: read_resend_def read_ses_def read_msg91_def read_twofactor_def read_meta_def status_error_def
      split: option.splits sum.splits)

lemma sane_providers [simp]: "sane (NewResend E k)" "sane (NewMSG91 E k)" "sane (NewTwoFactor E k)" "sane (NewMeta E t p)"
  by (simp_all add: sane_def NewResend_def NewMSG91_def NewTwoFactor_def NewMeta_def no_panic_transport
      resend_request_def msg91_request_def twofactor_request_def meta_request_def Let_def)

lemma sane_SES: "NewSES E r a k = Inr p \<Longrightarrow> sane p"
  by (auto simp: NewSES_def sane_def ses_request_def no_panic_transport split: if_splits)

lemma sane_built:
  assumes "\<And>r p. f r = Inr p \<Longrightarrow> sane p"
  shows "build_all what f rs = Inr ps \<Longrightarrow> \<forall>p \<in> set ps. sane p"
  by (induction rs arbitrary: ps) (auto split: sum.splits dest: assms)

lemma sane_routed:
  "email_BuildProviders E rs = Inr ps \<Longrightarrow> \<forall>p \<in> set ps. sane p"
  "sms_BuildProviders E rs = Inr qs \<Longrightarrow> \<forall>p \<in> set qs. sane p"
  "wa_BuildProviders E rs = Inr ws \<Longrightarrow> \<forall>p \<in> set ws. sane p"
  unfolding email_BuildProviders_def sms_BuildProviders_def wa_BuildProviders_def
  by (erule sane_built [rotated]; auto simp: email_buildProvider_def sms_buildProvider_def wa_buildProvider_def
      dest: sane_SES split: if_splits option.splits)+

lemma gives_send: "sane p \<Longrightarrow> gives no_panic (p_send p m)"
  unfolding p_send_def sane_def by (intro gives_rules) (auto split: sum.splits simp: gives_def no_panic_def
      State_Monad.bind_def case_prod_beta)

definition settled_outcome :: "send_outcome \<Rightarrow> bool" where
  "settled_outcome out \<longleftrightarrow> (case out of (res, name, e) \<Rightarrow> (e = None \<longrightarrow> res \<noteq> None) \<and> (\<forall>x. e = Some x \<longrightarrow> \<not> is_panic x))"

lemma gives_try:
  "\<forall>p \<in> set ps. sane p \<Longrightarrow> ps \<noteq> [] \<or> le \<noteq> None \<Longrightarrow> (\<forall>x. le = Some x \<longrightarrow> \<not> is_panic x) \<Longrightarrow>
    gives settled_outcome (try_providers ps m name le)"
proof (induction ps arbitrary: le)
  case (Cons p ps)
  then show ?case
    unfolding try_providers.simps
    by (intro gives_on_err_ok gives_send gives_return Cons.IH) (auto simp: settled_outcome_def)
qed (auto simp: settled_outcome_def intro: gives_return)

lemma gives_pick:
  assumes "static \<noteq> []" "\<forall>p \<in> set static. sane p" "\<And>rs ps. build rs = Inr ps \<Longrightarrow> \<forall>p \<in> set ps. sane p"
  shows "gives (\<lambda>ps. ps \<noteq> [] \<and> (\<forall>p \<in> set ps. sane p)) (pick_providers E build t ch static)"
  unfolding pick_providers_def using assms by (intro gives_rules) (auto split: sum.splits)

lemma gives_settle: "settled_outcome out \<Longrightarrow> gives no_panic (settle_send rec_d j out)"
  unfolding settle_send_def mark_sent_def
  by (intro gives_rules) (auto simp: settled_outcome_def intro!: gives_rules split: option.splits)

lemma gives_delivered:
  assumes "static \<noteq> []" "\<forall>p \<in> set static. sane p" "\<And>rs ps. build rs = Inr ps \<Longrightarrow> \<forall>p \<in> set ps. sane p"
  shows "gives settled_outcome (do { ps \<leftarrow> pick_providers E build t ch static; try_providers ps m (last_name ps) None })"
  by (rule gives_after [OF gives_pick [OF assms]], assumption) (auto intro!: gives_try)

text \<open>A consumer crashes on no message when its handler never panics.\<close>

lemma gives_worker: "(\<And>m. gives no_panic (h m)) \<Longrightarrow> gives (\<lambda>r. r \<noteq> None) (worker_consume n h msg)"
  unfolding worker_consume_def by (intro gives_on_err_ok gives_rules) auto

section \<open>The pipelines\<close>

lemma gives_parts [gives_rules]: "gives no_panic (IsSuppressed t ch v)" "gives no_panic (Fetch t i)"
  "gives no_panic (RenderEmail E t i data)" "gives no_panic (LoadApprovedTemplates E t ca)"
  "gives no_panic (IsRegistered phone)" "gives no_panic (http_do rq)" "gives no_panic (redis_publish ch x)"
  unfolding IsSuppressed_def Fetch_def RenderEmail_def LoadApprovedTemplates_def IsRegistered_def Render_def Let_def
  by (intro gives_rules | simp add: http_do_def redis_publish_def rediserr_def split: sum.splits option.splits)+

lemma crashless_email:
  assumes "sane p" "\<forall>f. F = Some f \<longrightarrow> sane f"
  shows "gives (\<lambda>r. r \<noteq> None) (email_consume E (Some p) F msg)"
proof -
  have "gives settled_outcome (email_sendWithFallback E (Some p) F m t)" for m t
    unfolding email_sendWithFallback_def email_staticProviders_def static_list_def
    by (rule gives_delivered) (use assms sane_routed(1) in \<open>auto split: option.splits\<close>)
  then have "gives no_panic (email_handleJob E (Some p) F j)" for j
    unfolding email_handleJob_def
    by (intro gives_rules gives_after [OF _ gives_settle]; (assumption | simp))
  then show ?thesis
    unfolding email_consume_def by (intro gives_worker) (auto simp: email_handle_def intro!: gives_rules split: option.splits)
qed

lemma crashless_sms:
  assumes "sane p" "\<forall>f. F = Some f \<longrightarrow> sane f"
  shows "gives (\<lambda>r. r \<noteq> None) (sms_consume E (Some p) F msg)"
proof -
  have out: "gives settled_outcome (sms_sendWithFallback E (Some p) F m t)" for m t
    unfolding sms_sendWithFallback_def sms_staticProviders_def static_list_def
    by (rule gives_delivered) (use assms sane_routed(2) in \<open>auto split: option.splits\<close>)
  have send: "gives no_panic (sms_send E (Some p) F j ph b d)" for j ph b d
    unfolding sms_send_def by (rule gives_bind, rule gives_after [OF out]) (intro gives_rules gives_settle; simp)
  have "gives no_panic (sms_handleJob E (Some p) F j)" for j
    unfolding sms_handleJob_def sms_promotional_def Let_def
    by (intro gives_rules send; auto simp: Render_def split: sum.splits)
  then show ?thesis
    unfolding sms_consume_def sms_handle_def
    by (intro gives_on_err_ok gives_rules) (auto simp: gives_return split: option.splits)
qed

lemma crashless_whatsapp:
  assumes "sane p"
  shows "gives (\<lambda>r. r \<noteq> None) (wa_consume E (Some p) msg)"
proof -
  have "gives settled_outcome (wa_sendWithFallback E (Some p) m t)" for m t
    unfolding wa_sendWithFallback_def by (rule gives_delivered) (use assms sane_routed(3) in auto)
  then have "gives no_panic (wa_process E (Some p) j)" for j
    unfolding wa_process_def by (intro gives_rules gives_after [OF _ gives_settle]; (assumption | simp))
  then show ?thesis
    unfolding wa_consume_def by (intro gives_worker) (auto simp: wa_handle_def intro!: gives_rules split: option.splits)
qed

lemma crashless_direct: "gives (\<lambda>r. r \<noteq> None) (webhook_consume E msg)" "gives (\<lambda>r. r \<noteq> None) (inapp_consume msg)"
  unfolding webhook_consume_def inapp_consume_def
  by (intro gives_worker; auto simp: webhook_handle_def webhook_process_def inapp_handle_def
      intro!: gives_rules split: option.splits)+

lemma deployed_crashless:
  assumes "worker_main E redis cfg channel = Inr consume"
  shows "gives (\<lambda>r. r \<noteq> None) (consume msg)"
  using assms sane_SES
  by (auto simp: worker_main_def Let_def email_primary_def email_fallback_def sms_primary_def sms_fallback_def
      simp del: not_None_eq intro!: crashless_email crashless_sms crashless_whatsapp crashless_direct split: if_splits sum.splits)

section \<open>Property\<close>

text \<open>
  A deployed worker never crashes on a message: whatever the configuration it was started with and
  its channel, whatever the message, the stored data and the failures of database, bus, Redis and
  providers, the consumer ends with an acknowledgement, a nak or a termination, and never with a
  panic. In particular the nil result of a pipeline without providers cannot occur: the process
  always has a static one.
\<close>

theorem deployed_workers_never_crash:
  assumes "worker_main E redis cfg channel = Inr consume"
  shows "wp (consume msg) (\<lambda>r _. r \<noteq> None) w"
  using deployed_crashless [OF assms] by (auto simp: wp_def dest: givesD)

text \<open>An email worker without any provider key still has Resend, and a job naming nobody is nak'd.\<close>

definition bare_config :: config where
  "bare_config = \<lparr>cf_http_port = ''8080'', cf_env = ''development'', cf_database_url = ''postgres://db'',
     cf_migrations_dir = ''migrations'', cf_nats_url = ''nats://localhost:4222'',
     cf_redis_url = ''redis://localhost:6379'', cf_s3_bucket = [], cf_s3_endpoint = [], cf_s3_region = ''ap-south-1'',
     cf_issuer = ''https://api.id.qeet.in'', cf_encryption_key = ''dev-key-change-in-prod'',
     cf_ses_region = ''ap-south-1'', cf_ses_access_key = [], cf_ses_secret_key = [], cf_resend_key = [],
     cf_msg91_key = [], cf_twofactor_key = [], cf_wa_token = [], cf_wa_phone = [], cf_wa_verify = [], cf_otlp = []\<rparr>"

theorem deployed_workers_never_crash_witness:
  "wp (email_consume (sample_env\<lparr>e_key := ''dev-key-change-in-prod''\<rparr>)
      (Some (NewResend (sample_env\<lparr>e_key := ''dev-key-change-in-prod''\<rparr>) [])) None sample_msg)
     (\<lambda>r _. r \<noteq> None) (world0 channel_db)"
  by (rule deployed_workers_never_crash [where E = sample_env and redis = "\<lambda>_. True" and cfg = bare_config
      and channel = "''email''"])
    (simp add: worker_main_def bare_config_def Let_def email_primary_def email_fallback_def NewResend_def)

end
