(* ===== verification/Sdk.thy ===== *)
theory Sdk
  imports Routes Workers Api_Logic
begin

text \<open>
  \<^verbatim>\<open>sdk/go/client.go\<close>: the client of the API, over any way of exchanging a request for a
  response, and its composition with the server: a call of \<open>Trigger\<close> travels to \<open>serve\<close> of
  \<^verbatim>\<open>Routes\<close> and the answer travels back.
\<close>

section \<open>The client\<close>

definition defaultBaseURL :: string where
  "defaultBaseURL = ''https://notify.api.qeet.in''"

record client =
  cl_apiKey :: string
  cl_baseURL :: string

definition WithBaseURL :: "string \<Rightarrow> client \<Rightarrow> client" where
  "WithBaseURL url c = c\<lparr>cl_baseURL := url\<rparr>"

definition New_client :: "string \<Rightarrow> (client \<Rightarrow> client) list \<Rightarrow> client" where
  "New_client apiKey opts = fold (\<lambda>opt c. opt c) opts \<lparr>cl_apiKey = apiKey, cl_baseURL = defaultBaseURL\<rparr>"

text \<open>
  \<^verbatim>\<open>do\<close>: \<open>send\<close> is the HTTP client of the standard library; a body is given by the JSON value it
  marshals to and \<open>out\<close> by the decoder of its target, \<open>None\<close> for a nil one.
\<close>

definition sdk_request :: "env \<Rightarrow> client \<Rightarrow> string \<Rightarrow> string \<Rightarrow> gval option \<Rightarrow> http_request" where
  "sdk_request E c verb path body = \<lparr>rq_method = verb, rq_url = cl_baseURL c @ path,
     rq_headers = [(''X-Qeet-Api-Key'', cl_apiKey c), (''Content-Type'', ''application/json'')],
     rq_json = (case body of None \<Rightarrow> GNil | Some v \<Rightarrow> v),
     rq_body = (case body of None \<Rightarrow> [] | Some v \<Rightarrow> e_marshal E v)\<rparr>"

definition client_do :: "env \<Rightarrow> (http_request \<Rightarrow> http_response res app) \<Rightarrow> client \<Rightarrow> string \<Rightarrow> string \<Rightarrow>
    gval option \<Rightarrow> (gval \<Rightarrow> 'o option) option \<Rightarrow> 'o option res app" where
  "client_do E send c verb path body out = (let rq = sdk_request E c verb path body in
     if \<not> e_url_ok E (rq_url rq) then ret (Inl (Wrap ''build request'' (Err ''url'')))
     else on_err (send rq) (\<lambda>e. ret (Inl (Wrap ''http'' e)))
       (\<lambda>rs. if rs_status rs \<ge> 400 then ret (Inl (status_error ''api'' rs))
          else (case out of None \<Rightarrow> ret (Inr None)
            | Some decode \<Rightarrow> (case Option.bind (rs_json rs) decode of
                None \<Rightarrow> ret (Inl (Err ''json'')) | Some x \<Rightarrow> ret (Inr (Some x))))))"

text \<open>\<^verbatim>\<open>TriggerParams\<close>; the keys of the body are sorted, a nil payload is \<^verbatim>\<open>null\<close>.\<close>

record trigger_params =
  tg_subscriber :: string
  tg_payload :: "gmap option"

definition trigger_body :: "string \<Rightarrow> trigger_params \<Rightarrow> gval" where
  "trigger_body event params = GObj [(''event'', GStr event),
     (''payload'', case tg_payload params of None \<Rightarrow> GNil | Some m \<Rightarrow> GObj m),
     (''subscriber_id'', GStr (tg_subscriber params))]"

definition Trigger :: "env \<Rightarrow> (http_request \<Rightarrow> http_response res app) \<Rightarrow> client \<Rightarrow> string \<Rightarrow> trigger_params \<Rightarrow>
    unit option res app" where
  "Trigger E send c event params =
     client_do E send c ''POST'' ''/v1/events'' (Some (trigger_body event params)) None"

section \<open>The way to the server and back\<close>

text \<open>
  The request as the server sees it when \<open>base\<close> is its address: the route of the SDK's one path has
  no parameters.
\<close>

definition arriving :: "string \<Rightarrow> string \<Rightarrow> http_request \<Rightarrow> request" where
  "arriving base peer rq = (let path = drop (length base) (rq_url rq) in
     \<lparr>rm_method = rq_method rq, rm_path = path, rm_pattern = path, rm_params = [],
      rm_headers = rq_headers rq, rm_query = [], rm_body = Some (rq_json rq), rm_remote = peer,
      ctx_tenant = None, ctx_scope = None, ctx_key_hash = None\<rparr>)"

definition returning :: "env \<Rightarrow> answer option \<Rightarrow> http_response" where
  "returning E a = (case a of
     None \<Rightarrow> \<lparr>rs_status = 404, rs_headers = [], rs_json = None, rs_text = ''404 page not found''\<rparr>
   | Some p \<Rightarrow> \<lparr>rs_status = int (rp_status p), rs_headers = rp_headers p,
       rs_json = (case rp_body p of NoBody \<Rightarrow> None | Text s \<Rightarrow> e_parse E s | Json v \<Rightarrow> Some v),
       rs_text = (case rp_body p of NoBody \<Rightarrow> [] | Text s \<Rightarrow> s | Json v \<Rightarrow> e_marshal E v)\<rparr>)"

datatype link = Up | Unreachable | AnswerLost

definition remote :: "env \<Rightarrow> nat list option \<Rightarrow> string \<Rightarrow> string \<Rightarrow> link \<Rightarrow> http_request \<Rightarrow>
    http_response res app" where
  "remote E rnd base peer l rq = (if l = Unreachable then ret (Inl (Err ''dial''))
     else do { a \<leftarrow> serve E rnd (arriving base peer rq);
       ret (if l = AnswerLost then Inl (Err ''EOF'') else Inr (returning E a)) })"

section \<open>The intake behind its middleware\<close>

text \<open>What a transaction leaves on the bus is what its handler does.\<close>

lemma wp_TenantTx_bus:
  assumes "ctx_tenant rq = Some t" "t \<noteq> []" "saved w = None"
    and "db_faults w \<noteq> [] \<Longrightarrow> Q (Inr (http_error 500 ''internal error'')) (bus w)"
    and "\<And>s. in_tx t (db w) s \<Longrightarrow> db s = db w \<Longrightarrow> bus s = bus w \<Longrightarrow> calm w s \<Longrightarrow>
      wp (h rq) (\<lambda>r s'. in_tx t (db w) s' \<and> Q r (bus s')) s"
  shows "wp (TenantTx h rq) (\<lambda>r s'. Q r (bus s')) w"
  unfolding TenantTx_def using assms(1,2)
  apply (simp only: option.distinct option.inject simp_thms if_False option.sel wp_on_err)
  apply (rule wp_begin_tx [OF assms(3)])
  subgoal using assms(4) by (simp add: quietD)
  apply (simp only: sum.case wp_on_err)
  apply (rule wp_set_tenant, assumption)
  subgoal premises p for s1 s2
  proof -
    have "in_tx [] (db w) s2" "bus s2 = bus w" using p by (simp_all add: quiet_in_tx quietD effects_def)
    moreover have "db_faults w \<noteq> []" using p by (auto simp: calm_def)
    ultimately show ?thesis using assms(4) by (simp add: wp_roll_back)
  qed
  subgoal premises p for s1 s2
  proof -
    have "in_tx t (db w) s2" "db s2 = db w" "bus s2 = bus w" "calm w s2"
      using p by (auto simp: effects_def intro: calm_trans)
    from assms(5) [OF this] show ?thesis
      unfolding sum.case wp_on_err
    proof (rule wp_mono, goal_cases)
      case (1 r s')
      then have i: "in_tx t (db w) s'" "Q r (bus s')" by auto
      have "wp commit_tx (\<lambda>_ s''. Q r (bus s'')) s'"
        by (rule wp_commit_tx [OF i(1)]) (use i(2) in \<open>auto simp: quietD\<close>)
      with i show ?case by (cases r) (auto simp: wp_roll_back)
    qed
  qed
  done

text \<open>
  The answer to an event and what is then on the bus: \<open>sent\<close> is what the request asks for, and
  nothing else is ever published.
\<close>

definition event_answer :: "string \<Rightarrow> (string \<times> string \<times> gmap) option \<Rightarrow> world \<Rightarrow> answer res \<Rightarrow> (string \<times> gval) list \<Rightarrow> bool" where
  "event_answer t v w r b \<longleftrightarrow> (if status_of r = 202
     then \<exists>m x. v = Some x \<and> b = bus w @ [(EventSubject t, m)] \<and> decode_event m = Some (event_of t x)
     else 400 \<le> status_of r \<and> b = bus w \<and> (v = None \<or> db_faults w \<noteq> [] \<or> bus_faults w \<noteq> []))"

lemma wp_intake_tx:
  assumes "ctx_tenant rq = Some t" "t \<noteq> []" "saved w = None" "header rq ''Idempotency-Key'' = []"
  shows "wp (TenantTx NewTriggerEvent rq) (\<lambda>r s'. event_answer t (valid_trigger rq) w r (bus s')) w"
proof (rule wp_TenantTx_bus [OF assms(1-3)], goal_cases)
  case 1
  then show ?case by (simp add: event_answer_def)
next
  case (2 s)
  have "wp (NewTriggerEvent rq) (\<lambda>_. confined t (db w)) s"
    by (rule keeps_wp [OF trigger.confines [OF assms(1,2)]]) (use 2 in \<open>simp add: confined_def\<close>)
  then show ?case
    by (rule wp_conj_imp [OF _ intake_outcome [OF assms(1,4), of s]])
      (use 2 in \<open>auto simp: intake_spec_def event_answer_def confined_def calm_def split: option.splits if_splits\<close>)
qed

lemma route_events: "rm_method rq = ''POST'' \<Longrightarrow> rm_pattern rq = ''/v1/events'' \<Longrightarrow>
    route_of E rnd rq = Some NewTriggerEvent"
  by (simp add: route_of_def v1_routes_def)

lemma arriving_events:
  "rm_method (arriving (cl_baseURL c) peer (sdk_request E c ''POST'' ''/v1/events'' body)) = ''POST''"
  "rm_pattern (arriving (cl_baseURL c) peer (sdk_request E c ''POST'' ''/v1/events'' body)) = ''/v1/events''"
  "header (arriving (cl_baseURL c) peer (sdk_request E c ''POST'' ''/v1/events'' body)) ''Idempotency-Key'' = []"
  "rm_body (arriving (cl_baseURL c) peer (sdk_request E c ''POST'' ''/v1/events'' (Some v))) = Some v"
  by (simp_all add: arriving_def sdk_request_def Let_def header_def fold_eq_def lower_c_def ccode_def)

text \<open>What the server makes of the body the client sends.\<close>

definition event_sent :: "string \<Rightarrow> trigger_params \<Rightarrow> string \<times> string \<times> gmap" where
  "event_sent event params = (event, tg_subscriber params,
     case tg_payload params of None \<Rightarrow> [] | Some m \<Rightarrow> m)"

lemma valid_trigger_sent:
  assumes "rm_body rq = Some (trigger_body event params)"
  shows "valid_trigger rq = (if event = [] \<or> tg_subscriber params = [] then None else Some (event_sent event params))"
  unfolding valid_trigger_def trigger_request_def assms
  by (cases "tg_payload params")
    (simp_all add: trigger_body_def event_sent_def json_get_defs lower_c_def ccode_def)

lemma some_response: "rs_status rs = n \<Longrightarrow> \<exists>rs'. rs_status rs' = n \<and> status_error what rs = status_error what rs'"
  by blast

lemma refused_status: "refused r \<Longrightarrow> 400 \<le> status_of r \<and> status_of r \<noteq> 202"
  by (auto simp: refused_def)

text \<open>The whole chain around the intake, for a request without an idempotency key.\<close>

definition served_event :: "world \<Rightarrow> request \<Rightarrow> (string \<times> string \<times> gmap) option \<Rightarrow> nat \<Rightarrow> (string \<times> gval) list \<Rightarrow> bool" where
  "served_event w rq v st b \<longleftrightarrow> (if st < 400
     then \<exists>t x m. granted (db w) rq = Some t \<and> v = Some x \<and> b = bus w @ [(EventSubject t, m)]
       \<and> decode_event m = Some (event_of t x)
     else b = bus w \<and> (granted (db w) rq = None \<or> v = None \<or> db_faults w \<noteq> [] \<or> bus_faults w \<noteq> [] \<or> st = 429))"

lemma wp_serve_event:
  assumes "saved w = None" "tenants_named (db w)" "rm_method rq = ''POST''" "rm_pattern rq = ''/v1/events''"
    "header rq ''Idempotency-Key'' = []"
  shows "wp (serve E rnd rq) (\<lambda>a w'. \<exists>p. a = Some p \<and> served_event w rq (valid_trigger rq) (rp_status p) (bus w')) w"
proof -
  have "wp (api_v1 NewTriggerEvent rq) (\<lambda>r w'. served_event w rq (valid_trigger rq) (status_of r) (bus w')) w"
    unfolding api_v1_def
  proof (rule wp_gates [OF _ _ assms(1)], goal_cases)
    case (1 r s')
    then show ?case using refused_status [of r]
      by (auto simp: served_event_def kv_onlyD limited_def)
  next
    case (2 s' t sc)
    let ?rq = "with_key rq t sc"
    have k: "ctx_tenant ?rq = Some t" "t \<noteq> []" "saved s' = None" "header ?rq ''Idempotency-Key'' = []"
      using assms(1,5) key_owner_named [OF assms(2) 2(3)] 2(1)
      by (simp_all add: kv_onlyD) (simp add: with_key_def header_def)
    have v: "valid_trigger ?rq = valid_trigger rq" by (simp add: valid_trigger_def with_key_def)
    have "wp (TenantTx NewTriggerEvent ?rq) (\<lambda>r w'. served_event w rq (valid_trigger rq) (status_of r) (bus w')) s'"
      by (rule wp_mono [OF wp_intake_tx [OF k]])
        (use 2 kv_onlyD(8) [OF 2(1)] in \<open>auto simp: event_answer_def served_event_def kv_onlyD v calm_def split: if_splits\<close>)
    then show ?case
      unfolding Audit_def using assms(3,4)
      by (simp add: HasSuffix_def suffix_def) (erule wp_mono, auto simp: with_key_def split: sum.splits)
  qed
  then show ?thesis
    unfolding serve_def route_events [OF assms(3,4)] option.case recoverer_def wp_bind wp_return
    by (rule wp_mono) (auto split: sum.splits)
qed

section \<open>Property\<close>

text \<open>
  C19.
  The Go client reports the truth, across the whole way from \<open>Trigger\<close> through the network, the
  middleware and the intake to the bus and back: when it returns no error, exactly one message was
  published, on the subject of the tenant its key grants, and the engine decodes it to the event,
  subscriber and payload of the call; when it returns an error other than a lost answer, nothing was
  published. With a granting key, an event and a subscriber named, and no failure of database, bus
  or network, the only error left is the rate limit's.
\<close>

theorem trigger_reports_truthfully:
  assumes "saved w = None" "tenants_named (db w)"
    and "rq = arriving (cl_baseURL c) peer (sdk_request E c ''POST'' ''/v1/events'' (Some (trigger_body event params)))"
  shows "wp (Trigger E (remote E rnd (cl_baseURL c) peer l) c event params) (\<lambda>r w'.
    (case r of
       Inr _ \<Rightarrow> \<exists>t m. granted (db w) rq = Some t \<and> bus w' = bus w @ [(EventSubject t, m)]
         \<and> decode_event m = Some (event_of t (event_sent event params))
     | Inl e \<Rightarrow> (l \<noteq> AnswerLost \<longrightarrow> bus w' = bus w)
         \<and> (l = Up \<and> e_url_ok E (cl_baseURL c @ ''/v1/events'') \<and> granted (db w) rq \<noteq> None
             \<and> event \<noteq> [] \<and> tg_subscriber params \<noteq> [] \<and> db_faults w = [] \<and> bus_faults w = []
           \<longrightarrow> (\<exists>rs. rs_status rs = 429 \<and> e = status_error ''api'' rs)))) w"
proof -
  note here = arriving_events [of c peer E, folded assms(3)]
  have v: "valid_trigger rq = (if event = [] \<or> tg_subscriber params = [] then None else Some (event_sent event params))"
    by (rule valid_trigger_sent) (simp add: assms(3) arriving_events(4))
  have "wp (serve E rnd rq) (\<lambda>a w'. \<exists>p. a = Some p \<and> served_event w rq (valid_trigger rq) (rp_status p) (bus w')) w"
    by (rule wp_serve_event [OF assms(1,2)]) (simp_all add: assms(3) arriving_events(1-3))
  then show ?thesis
    unfolding Trigger_def client_do_def Let_def remote_def assms(3) [symmetric]
    by (auto simp: returning_def served_event_def v wp_on_err sdk_request_def elim!: wp_mono intro!: some_response split: if_splits)
qed

text \<open>With a full key and a payload, in a fresh installation.\<close>

definition sdk_client :: client where
  "sdk_client = New_client ''k'' [WithBaseURL ''http://notify.local'']"

definition full_key_db :: db where
  "full_key_db = sample_db\<lparr>api_keys := [\<lparr>ak_id = ''k1'', ak_tenant = ''t1'', ak_name = ''app'',
     ak_hash = hashAPIKey ''k'', ak_prefix = ''qn_live_'', ak_scope = ''full'', ak_created = 0,
     ak_revoked = None\<rparr>]\<rparr>"

definition greeting :: trigger_params where
  "greeting = \<lparr>tg_subscriber = ''usr_123'', tg_payload = Some [(''name'', GStr ''Sai'')]\<rparr>"

theorem trigger_reports_truthfully_witness:
  "wp (Trigger sample_env (remote sample_env None ''http://notify.local'' ''10.0.0.1:4242'' Up) sdk_client
      ''user.welcome'' greeting) (\<lambda>r w'.
    (\<exists>m. bus w' = [(EventSubject ''t1'', m)] \<and> decode_event m = Some \<lparr>ev_tenant = ''t1'', ev_subscriber = ''usr_123'',
       ev_event = ''user.welcome'', ev_payload = [(''name'', GStr ''Sai'')], ev_workflow = [], ev_run = []\<rparr>)
    \<or> bus w' = [] \<and> (\<exists>rs. rs_status rs = 429 \<and> r = Inl (status_error ''api'' rs))) (world0 full_key_db)"
proof -
  let ?rq = "arriving (cl_baseURL sdk_client) ''10.0.0.1:4242''
    (sdk_request sample_env sdk_client ''POST'' ''/v1/events'' (Some (trigger_body ''user.welcome'' greeting)))"
  have "granted (db (world0 full_key_db)) ?rq = Some ''t1''"
    by (simp add: granted_def Let_def arriving_def sdk_request_def sdk_client_def New_client_def WithBaseURL_def
        header_def fold_eq_def lower_c_def ccode_def key_owner_def select_api_key_def full_key_db_def
        scope_allows_def world0_def)
  moreover have "cl_baseURL sdk_client = ''http://notify.local''"
    by (simp add: sdk_client_def New_client_def WithBaseURL_def)
  moreover have "saved (world0 full_key_db) = None" "tenants_named (db (world0 full_key_db))"
    by (simp_all add: saved_def tenants_named_def full_key_db_def sample_defs)
  ultimately show ?thesis
    using trigger_reports_truthfully [of "world0 full_key_db" ?rq sdk_client "''10.0.0.1:4242''" sample_env
        "''user.welcome''" greeting None Up]
    apply simp
    apply (erule wp_mono)
    subgoal for r w'
      by (cases r) (auto simp: greeting_def event_sent_def event_of_def sample_env_def world0_def)
    done
qed

end
