(* ===== verification/Provider_Copies.thy ===== *)
theory Provider_Copies
  imports Workers
begin

text \<open>
  \<^verbatim>\<open>domains/providers\<close>: the second set of adapters, to which the channels are meant to move, each
  translated from its own source, and how far it agrees with the first.
\<close>

section \<open>Email\<close>

type_synonym copy_email_message = email_message

definition copy_resend_body :: "email_message \<Rightarrow> gval" where
  "copy_resend_body m = GObj ([(''from'', GStr (from_field m)), (''html'', GStr (em_html m)),
     (''subject'', GStr (em_subject m))] @ omit_str ''text'' (em_text m)
     @ [(''to'', GArr [GStr (em_to m)])])"

definition copy_resend_request :: "env \<Rightarrow> string \<Rightarrow> email_message \<Rightarrow> http_request res" where
  "copy_resend_request E apiKey m = Inr (post_json E ''https://api.resend.com/emails''
     [(''Authorization'', ''Bearer '' @ apiKey), (''Content-Type'', ''application/json'')]
     (copy_resend_body m))"

definition copy_read_resend :: "http_response \<Rightarrow> string res" where
  "copy_read_resend rs = (if rs_status rs \<ge> 400 then Inl (status_error ''resend'' rs)
     else case Option.bind (reply_obj rs) (\<lambda>m. jstr m ''id'') of
       None \<Rightarrow> Inl (Wrap ''parse resend response'' (Err ''json'')) | Some i \<Rightarrow> Inr i)"

definition copy_NewResend :: "env \<Rightarrow> string \<Rightarrow> copy_email_message provider" where
  "copy_NewResend E apiKey = \<lparr>p_name = ''resend'', p_request = copy_resend_request E apiKey,
     p_reply = transport ''resend request'' copy_read_resend\<rparr>"

definition copy_ses_input :: "copy_email_message \<Rightarrow> gval" where
  "copy_ses_input m = GObj [(''FromEmailAddress'', GStr (from_field m)),
     (''ToAddresses'', GArr [GStr (em_to m)]), (''Subject'', GStr (em_subject m)),
     (''Html'', GStr (em_html m)),
     (''Text'', if em_text m \<noteq> [] then GStr (em_text m) else GNil),
     (''ReplyToAddresses'', if em_reply_to m \<noteq> [] then GArr [GStr (em_reply_to m)] else GNil)]"

definition copy_NewSES :: "env \<Rightarrow> string \<Rightarrow> string \<Rightarrow> string \<Rightarrow> copy_email_message provider res" where
  "copy_NewSES E region ak sk = (if e_ses_config E region ak sk
     then Inr \<lparr>p_name = ''ses'',
       p_request = (\<lambda>m. Inr (e_ses_request E (region, ak, sk) (copy_ses_input m))),
       p_reply = transport ''ses send'' (\<lambda>rs. case e_ses_reply E rs of
         Inl e \<Rightarrow> Inl (Wrap ''ses send'' e) | Inr i \<Rightarrow> Inr i)\<rparr>
     else Inl (Wrap ''ses config'' (Err ''aws config'')))"

definition copy_email_buildProvider :: "env \<Rightarrow> routing_record \<Rightarrow> copy_email_message provider res" where
  "copy_email_buildProvider E r =
     (if rr_name r = ''ses'' then
        (case config_obj E r of None \<Rightarrow> Inl (Wrap ''decode ses config'' (Err ''json''))
         | Some m \<Rightarrow> (case (jstr m ''region'', jstr m ''access_key'', jstr m ''secret_key'') of
             (Some rg, Some ak, Some sk) \<Rightarrow> copy_NewSES E rg ak sk
           | _ \<Rightarrow> Inl (Wrap ''decode ses config'' (Err ''json''))))
      else if rr_name r = ''resend'' then
        (case Option.bind (config_obj E r) (\<lambda>m. jstr m ''api_key'') of
           None \<Rightarrow> Inl (Wrap ''decode resend config'' (Err ''json''))
         | Some k \<Rightarrow> Inr (copy_NewResend E k))
      else Inl (Err (''unknown email provider: '' @ quoted (rr_name r))))"

definition copy_email_BuildProviders :: "env \<Rightarrow> routing_record list \<Rightarrow> copy_email_message provider list res" where
  "copy_email_BuildProviders E = build_all ''email'' (copy_email_buildProvider E)"

section \<open>SMS\<close>

type_synonym copy_sms_message = sms_message

definition copy_msg91_request :: "env \<Rightarrow> string \<Rightarrow> copy_sms_message \<Rightarrow> http_request res" where
  "copy_msg91_request E apiKey m = Inr (post_json E ''https://api.msg91.com/api/v5/flow/''
     [(''Content-Type'', ''application/json''), (''Authkey'', apiKey)]
     (GObj [(''recipients'', GArr [GObj [(''mobiles'', GStr (sm_to m))]]),
            (''sender'', GStr (sm_sender m)), (''short_url'', GStr ''0''),
            (''template_id'', GStr (sm_dlt m))]))"

definition copy_read_msg91 :: "http_response \<Rightarrow> string res" where
  "copy_read_msg91 rs = (if rs_status rs \<ge> 400 then Inl (status_error ''msg91'' rs)
     else case Option.bind (reply_obj rs) (\<lambda>m. case (jstr m ''type'', jstr m ''message'') of
         (Some t, Some i) \<Rightarrow> Some (t, i) | _ \<Rightarrow> None) of
       None \<Rightarrow> Inl (Wrap ''parse msg91 response'' (Err ''json''))
     | Some (t, i) \<Rightarrow> if t = ''error'' then Inl (Err (''msg91 error: '' @ i)) else Inr i)"

definition copy_NewMSG91 :: "env \<Rightarrow> string \<Rightarrow> copy_sms_message provider" where
  "copy_NewMSG91 E apiKey = \<lparr>p_name = ''msg91'', p_request = copy_msg91_request E apiKey,
     p_reply = transport ''msg91 send'' copy_read_msg91\<rparr>"

definition copy_twofactor_request :: "env \<Rightarrow> string \<Rightarrow> copy_sms_message \<Rightarrow> http_request res" where
  "copy_twofactor_request E apiKey m = (let
       url = ''https://2factor.in/API/V1/'' @ apiKey @ ''/SMS/'' @ PathEscape (sm_to m)
         @ ''/'' @ PathEscape (sm_body m) @ ''/'' @ PathEscape (sm_sender m) in
     if \<not> e_url_ok E url then Inl (Wrap ''build 2factor request'' (Err ''url''))
     else Inr \<lparr>rq_method = ''GET'', rq_url = url, rq_headers = [], rq_json = GNil, rq_body = []\<rparr>)"

definition copy_read_twofactor :: "http_response \<Rightarrow> string res" where
  "copy_read_twofactor rs = (if rs_status rs \<ge> 400 then Inl (status_error ''2factor'' rs)
     else case Option.bind (reply_obj rs) (\<lambda>m. case (jstr m ''Status'', jstr m ''Details'') of
         (Some t, Some i) \<Rightarrow> Some (t, i) | _ \<Rightarrow> None) of
       None \<Rightarrow> Inl (Wrap ''parse 2factor response'' (Err ''json''))
     | Some (t, i) \<Rightarrow> if t \<noteq> ''Success'' then Inl (Err (''2factor error: '' @ i)) else Inr i)"

definition copy_NewTwoFactor :: "env \<Rightarrow> string \<Rightarrow> copy_sms_message provider" where
  "copy_NewTwoFactor E apiKey = \<lparr>p_name = ''2factor'', p_request = copy_twofactor_request E apiKey,
     p_reply = transport ''2factor send'' copy_read_twofactor\<rparr>"

definition copy_sms_buildProvider :: "env \<Rightarrow> routing_record \<Rightarrow> copy_sms_message provider res" where
  "copy_sms_buildProvider E r =
     (if rr_name r = ''msg91'' then
        (case Option.bind (config_obj E r) (\<lambda>m. jstr m ''api_key'') of
           None \<Rightarrow> Inl (Wrap ''decode msg91 config'' (Err ''json''))
         | Some k \<Rightarrow> Inr (copy_NewMSG91 E k))
      else if rr_name r = ''2factor'' then
        (case Option.bind (config_obj E r) (\<lambda>m. jstr m ''api_key'') of
           None \<Rightarrow> Inl (Wrap ''decode 2factor config'' (Err ''json''))
         | Some k \<Rightarrow> Inr (copy_NewTwoFactor E k))
      else Inl (Err (''unknown sms provider: '' @ quoted (rr_name r))))"

definition copy_sms_BuildProviders :: "env \<Rightarrow> routing_record list \<Rightarrow> copy_sms_message provider list res" where
  "copy_sms_BuildProviders E = build_all ''sms'' (copy_sms_buildProvider E)"

section \<open>WhatsApp\<close>

text \<open>Registered under another name, and with a plain text in place of a missing template.\<close>

record copy_wa_message =
  cw_to :: string
  cw_template :: string
  cw_language :: string
  cw_components :: "gval list"
  cw_body :: string

definition copy_meta_body :: "copy_wa_message \<Rightarrow> gval" where
  "copy_meta_body m = GObj ([(''messaging_product'', GStr ''whatsapp'')]
     @ (if cw_template m \<noteq> []
        then [(''template'', GObj [(''components'', if cw_components m = [] then GNil else GArr (cw_components m)),
          (''language'', GObj [(''code'', GStr (cw_language m))]), (''name'', GStr (cw_template m))])]
        else [(''text'', GObj [(''body'', GStr (cw_body m))])])
     @ [(''to'', GStr (cw_to m)),
        (''type'', GStr (if cw_template m \<noteq> [] then ''template'' else ''text''))])"

definition copy_meta_request :: "env \<Rightarrow> string \<Rightarrow> string \<Rightarrow> copy_wa_message \<Rightarrow> http_request res" where
  "copy_meta_request E tk phoneID m = (let
       url = ''https://graph.facebook.com/v18.0/'' @ phoneID @ ''/messages'' in
     if \<not> e_url_ok E url then Inl (Wrap ''build meta wa request'' (Err ''url''))
     else Inr (post_json E url [(''Authorization'', ''Bearer '' @ tk),
         (''Content-Type'', ''application/json'')] (copy_meta_body m)))"

definition copy_read_meta :: "http_response \<Rightarrow> string res" where
  "copy_read_meta rs = (if rs_status rs \<ge> 400 then Inl (status_error ''meta wa'' rs)
     else case Option.bind (reply_obj rs) (\<lambda>m. first_id (obj_get m ''messages'')) of
       None \<Rightarrow> Inl (Wrap ''parse meta wa response'' (Err ''json''))
     | Some None \<Rightarrow> Inl (WrapNil ''parse meta wa response'')
     | Some (Some i) \<Rightarrow> Inr i)"

definition copy_NewMeta :: "env \<Rightarrow> string \<Rightarrow> string \<Rightarrow> copy_wa_message provider" where
  "copy_NewMeta E tk phoneID = \<lparr>p_name = ''meta_whatsapp'', p_request = copy_meta_request E tk phoneID,
     p_reply = transport ''meta wa send'' copy_read_meta\<rparr>"

definition copy_wa_buildProvider :: "env \<Rightarrow> routing_record \<Rightarrow> copy_wa_message provider res" where
  "copy_wa_buildProvider E r =
     (if rr_name r = ''meta_whatsapp'' then
        (case Option.bind (config_obj E r) (\<lambda>m. case (jstr m ''token'', jstr m ''phone_id'') of
            (Some t, Some p) \<Rightarrow> Some (t, p) | _ \<Rightarrow> None) of
           None \<Rightarrow> Inl (Wrap ''decode meta wa config'' (Err ''json''))
         | Some (t, p) \<Rightarrow> Inr (copy_NewMeta E t p))
      else Inl (Err (''unknown whatsapp provider: '' @ quoted (rr_name r))))"

definition copy_wa_BuildProviders :: "env \<Rightarrow> routing_record list \<Rightarrow> copy_wa_message provider list res" where
  "copy_wa_BuildProviders E = build_all ''whatsapp'' (copy_wa_buildProvider E)"

section \<open>Push\<close>

text \<open>No push adapter exists: any record is an error.\<close>

definition push_BuildProviders :: "routing_record list \<Rightarrow> string provider list res" where
  "push_BuildProviders rs = (case rs of [] \<Rightarrow> Inr []
     | r # _ \<Rightarrow> Inl (Err (''push routing: unknown provider '' @ quoted (rr_name r)
         @ '' (fcm/apns not yet implemented)'')))"

section \<open>Agreement\<close>

text \<open>
  \<open>copy_of p p'\<close>: under the same name, \<open>p'\<close> reads answers as \<open>p\<close> does and asks for the same, except
  that Resend is not told where replies go.
\<close>

definition copy_of :: "email_message provider \<Rightarrow> email_message provider \<Rightarrow> bool" where
  "copy_of p p' \<longleftrightarrow> p_name p' = p_name p \<and> p_reply p' = p_reply p
     \<and> (\<forall>m. p_request p' m = p_request p (if p_name p = ''resend'' then m\<lparr>em_reply_to := []\<rparr> else m))"

lemma copy_of_resend: "copy_of (NewResend E k) (copy_NewResend E k)"
  by (simp add: copy_of_def NewResend_def copy_NewResend_def copy_resend_request_def resend_request_def
      copy_resend_body_def resend_body_def from_field_def omit_str_def transport_def copy_read_resend_def
      read_resend_def fun_eq_iff split: sum.split)

lemma copy_of_ses: "rel_sum (=) copy_of (NewSES E r a k) (copy_NewSES E r a k)"
  by (simp add: copy_of_def NewSES_def copy_NewSES_def ses_request_def ses_input_def copy_ses_input_def
      transport_def read_ses_def fun_eq_iff split: sum.split)

lemma copy_of_built: "rel_sum (=) copy_of (email_buildProvider E r) (copy_email_buildProvider E r)"
  by (auto simp: email_buildProvider_def copy_email_buildProvider_def copy_of_resend copy_of_ses
      split: option.split)

lemma build_all_related:
  assumes "\<And>r. rel_sum (=) R (f r) (g r)"
  shows "rel_sum (=) (list_all2 R) (build_all what f rs) (build_all what g rs)"
proof (induction rs)
  case (Cons r rs)
  then show ?case using assms [of r] by (auto elim!: rel_sum.cases)
qed simp

lemma try_copies:
  "list_all2 copy_of ps ps' \<Longrightarrow> em_reply_to m = [] \<Longrightarrow> try_providers ps' m name le = try_providers ps m name le"
proof (induction ps ps' arbitrary: le rule: list_all2_induct)
  case (Cons p ps p' ps')
  have "m\<lparr>em_reply_to := []\<rparr> = m" using Cons.prems by simp
  then have "p_request p' m = p_request p m" "p_reply p' = p_reply p"
    using Cons.hyps(1) by (simp_all add: copy_of_def)
  then have "p_send p' m = p_send p m" by (simp only: p_send_def)
  with Cons show ?case by (simp add: copy_of_def)
qed simp

lemma same_msg91: "copy_NewMSG91 E k = NewMSG91 E k"
proof -
  have "copy_msg91_request E k = msg91_request E k" "copy_read_msg91 = read_msg91"
    by (simp_all add: fun_eq_iff copy_msg91_request_def msg91_request_def copy_read_msg91_def read_msg91_def)
  then show ?thesis by (simp add: copy_NewMSG91_def NewMSG91_def)
qed

lemma same_twofactor: "copy_NewTwoFactor E k = NewTwoFactor E k"
proof -
  have "copy_twofactor_request E k = twofactor_request E k" "copy_read_twofactor = read_twofactor"
    by (simp_all add: fun_eq_iff copy_twofactor_request_def twofactor_request_def twofactor_url_def
        copy_read_twofactor_def read_twofactor_def)
  then show ?thesis by (simp add: copy_NewTwoFactor_def NewTwoFactor_def)
qed

lemma same_sms: "copy_sms_buildProvider E = sms_buildProvider E"
  by (auto simp: fun_eq_iff sms_buildProvider_def copy_sms_buildProvider_def same_msg91 same_twofactor split: option.split)

text \<open>
  C37.
  Moving the channels to the copied adapters: for every list of routing records the two sets of SMS
  adapters are the same, and the two sets of email adapters fail with the same error or correspond
  one to one, with the same names, answers and requests except for the reply-to address, which the
  copy of Resend drops; a message without one is sent through the same requests, with the same
  provider and outcome. The WhatsApp registry cannot be exchanged: it refuses every record the
  channel accepts.
\<close>

theorem copies_agree:
  "rel_sum (=) (\<lambda>ps ps'. list_all2 copy_of ps ps' \<and>
      (\<forall>m. em_reply_to m = [] \<longrightarrow> (\<forall>name le. try_providers ps' m name le = try_providers ps m name le)))
    (email_BuildProviders E rs) (copy_email_BuildProviders E rs)
  \<and> copy_sms_BuildProviders E rs = sms_BuildProviders E rs
  \<and> (\<forall>p. wa_buildProvider E r = Inr p \<longrightarrow> (\<exists>e. copy_wa_buildProvider E r = Inl e))"
proof (intro conjI)
  have "rel_sum (=) (list_all2 copy_of) (email_BuildProviders E rs) (copy_email_BuildProviders E rs)"
    unfolding email_BuildProviders_def copy_email_BuildProviders_def
    by (rule build_all_related) (rule copy_of_built)
  then show "rel_sum (=) (\<lambda>ps ps'. list_all2 copy_of ps ps' \<and>
      (\<forall>m. em_reply_to m = [] \<longrightarrow> (\<forall>name le. try_providers ps' m name le = try_providers ps m name le)))
    (email_BuildProviders E rs) (copy_email_BuildProviders E rs)"
    by (rule sum.rel_mono_strong) (auto simp: try_copies)
  show "copy_sms_BuildProviders E rs = sms_BuildProviders E rs"
    by (simp add: copy_sms_BuildProviders_def sms_BuildProviders_def same_sms)
  show "\<forall>p. wa_buildProvider E r = Inr p \<longrightarrow> (\<exists>e. copy_wa_buildProvider E r = Inl e)"
    by (simp add: wa_buildProvider_def copy_wa_buildProvider_def)
qed

text \<open>SES with Resend behind it, as a tenant may configure them.\<close>

definition two_records :: "routing_record list" where
  "two_records = [\<lparr>rr_name = ''ses'', rr_config = ''{}'', rr_priority = 1\<rparr>,
     \<lparr>rr_name = ''resend'', rr_config = ''{}'', rr_priority = 2\<rparr>]"

theorem copies_agree_witness:
  "\<exists>ps ps'. email_BuildProviders (sample_env\<lparr>e_parse := \<lambda>_. Some (GObj [])\<rparr>) two_records = Inr ps
     \<and> copy_email_BuildProviders (sample_env\<lparr>e_parse := \<lambda>_. Some (GObj [])\<rparr>) two_records = Inr ps'
     \<and> length ps = 2
     \<and> try_providers ps' \<lparr>em_from = ''a@x'', em_from_name = [], em_to = ''b@y'', em_subject = ''Hi'', em_html = ''Hello'',
           em_text = [], em_reply_to = [], em_tags = []\<rparr> [] None
       = try_providers ps \<lparr>em_from = ''a@x'', em_from_name = [], em_to = ''b@y'', em_subject = ''Hi'', em_html = ''Hello'',
           em_text = [], em_reply_to = [], em_tags = []\<rparr> [] None"
proof -
  let ?E = "sample_env\<lparr>e_parse := \<lambda>_. Some (GObj [])\<rparr>"
  obtain ps where "email_BuildProviders ?E two_records = Inr ps" "length ps = 2"
    by (simp add: email_BuildProviders_def two_records_def email_buildProvider_def config_obj_def json_get_defs
        NewSES_def sample_env_def)
  then show ?thesis
    using copies_agree [THEN conjunct1, of ?E two_records]
    by (cases "copy_email_BuildProviders ?E two_records") auto
qed

text \<open>With a template both put the same message on the wire.\<close>

lemma copy_meta_same:
  assumes "cw_to m' = wm_to m" "cw_template m' = wm_template m" "cw_language m' = wm_language m"
    "cw_components m' = wm_components m" "wm_template m \<noteq> []"
  shows "copy_meta_request E tk phone m' = meta_request E tk phone m"
  using assms by (simp add: copy_meta_request_def meta_request_def copy_meta_body_def meta_body_def Let_def)

end
