(* ===== verification/Dashboard.thy ===== *)
theory Dashboard
  imports Http
begin

text \<open>
  \<^verbatim>\<open>platform/api/middleware/oidc.go\<close>: the sign-in check of the dashboard. Parsing and verifying a
  token and reading a key set are the JOSE library's; the cache of the keys, the walk through
  them, the claims and the decision are the code's. The cache is a variable of the process, handed
  from request to request; its locks order the accesses. No route of the server uses the middleware
  yet.
\<close>

section \<open>Tokens and claims\<close>

text \<open>
  Of the library: the keys of a JWKS document, a parsed token, and the payload of a token whose
  signature a key verifies.
\<close>

record ('k, 't) jose =
  jo_keys :: "gval \<Rightarrow> 'k list option"
  jo_parse :: "string \<Rightarrow> 't option"
  jo_verify :: "'t \<Rightarrow> 'k \<Rightarrow> gval option"

record dashboard_claims =
  dc_sub :: string
  dc_email :: string
  dc_iss :: string
  dc_exp :: int

definition no_claims :: dashboard_claims where
  "no_claims = \<lparr>dc_sub = [], dc_email = [], dc_iss = [], dc_exp = 0\<rparr>"

text \<open>
  Decoding into claims that may hold values already: a member of the wrong type makes the call an
  error, but the others are stored all the same.
\<close>

definition set_claim :: "string \<Rightarrow> gval \<Rightarrow> dashboard_claims \<Rightarrow> dashboard_claims option" where
  "set_claim k v c =
     (if v = GNil then Some c
      else if fold_eq k ''sub'' then map_option (\<lambda>s. c\<lparr>dc_sub := s\<rparr>) (to_str [] v)
      else if fold_eq k ''email'' then map_option (\<lambda>s. c\<lparr>dc_email := s\<rparr>) (to_str [] v)
      else if fold_eq k ''iss'' then map_option (\<lambda>s. c\<lparr>dc_iss := s\<rparr>) (to_str [] v)
      else if fold_eq k ''exp'' then map_option (\<lambda>n. c\<lparr>dc_exp := n\<rparr>) (to_int 0 v)
      else Some c)"

fun set_claims :: "gmap \<Rightarrow> dashboard_claims \<Rightarrow> dashboard_claims \<times> bool" where
  "set_claims [] c = (c, True)"
| "set_claims ((k, v) # r) c = (case set_claim k v c of
     None \<Rightarrow> (fst (set_claims r c), False) | Some c' \<Rightarrow> set_claims r c')"

fun decode_claims :: "gval \<Rightarrow> dashboard_claims \<Rightarrow> dashboard_claims \<times> bool" where
  "decode_claims (GObj m) c = set_claims m c"
| "decode_claims GNil c = (c, True)"
| "decode_claims _ c = (c, False)"

text \<open>The keys are tried until one of them verifies the token and its payload decodes.\<close>

fun claims_under :: "('k, 't) jose \<Rightarrow> 't \<Rightarrow> 'k list \<Rightarrow> dashboard_claims \<Rightarrow> dashboard_claims" where
  "claims_under J tok [] c = c"
| "claims_under J tok (k # ks) c = (case jo_verify J tok k of None \<Rightarrow> claims_under J tok ks c
     | Some v \<Rightarrow> (case decode_claims v c of (c', ok) \<Rightarrow> if ok then c' else claims_under J tok ks c'))"

section \<open>The key set\<close>

record 'k jwks_cache =
  jc_keys :: "'k list option"
  jc_fetched :: int

definition jwks_ttl :: int where
  "jwks_ttl = 5 * 60 * 10 ^ 9"

definition jwks_url :: "string \<Rightarrow> string" where
  "jwks_url issuer = rev (dropWhile (\<lambda>c. c = CHR ''/'') (rev issuer)) @ ''/.well-known/jwks.json''"

definition jwks_request :: "string \<Rightarrow> http_request" where
  "jwks_request issuer = \<lparr>rq_method = ''GET'', rq_url = jwks_url issuer, rq_headers = [], rq_json = GNil, rq_body = []\<rparr>"

definition jwks_fresh :: "'k jwks_cache \<Rightarrow> bool app" where
  "jwks_fresh c = (if jc_keys c = None then ret False
     else do { now \<leftarrow> time_now; ret (now - jc_fetched c < jwks_ttl) })"

definition jwks_get :: "('k, 't) jose \<Rightarrow> (string \<Rightarrow> bool) \<Rightarrow> string \<Rightarrow> 'k jwks_cache \<Rightarrow>
    ('k list res \<times> 'k jwks_cache) app" where
  "jwks_get J url_ok issuer c = do {
     fresh \<leftarrow> jwks_fresh c;
     if fresh then ret (Inr (the (jc_keys c)), c)
     else if \<not> url_ok (jwks_url issuer) then ret (Inl (Wrap ''build jwks request'' (Err ''url'')), c)
     else on_err (http_do (jwks_request issuer)) (\<lambda>e. ret (Inl (Wrap ''fetch jwks'' e), c))
       (\<lambda>rs. case Option.bind (rs_json rs) (jo_keys J) of
          None \<Rightarrow> ret (Inl (Wrap ''decode jwks'' (Err ''json'')), c)
        | Some ks \<Rightarrow> do { now \<leftarrow> time_now; ret (Inr ks, \<lparr>jc_keys = Some ks, jc_fetched = now\<rparr>) }) }"

section \<open>The middleware\<close>

text \<open>\<open>next\<close> is handed the subject that \<^verbatim>\<open>DashboardUserFromContext\<close> finds in the request's context.\<close>

definition bearer :: "request \<Rightarrow> string" where
  "bearer rq = TrimPrefix (header rq ''Authorization'') ''Bearer ''"

definition DashboardAuth :: "('k, 't) jose \<Rightarrow> (string \<Rightarrow> bool) \<Rightarrow> string \<Rightarrow> 'k jwks_cache \<Rightarrow>
    (string \<Rightarrow> handler) \<Rightarrow> request \<Rightarrow> (answer res \<times> 'k jwks_cache) app" where
  "DashboardAuth J url_ok issuer c next rq =
     (if bearer rq = [] then ret (Inr (http_error 401 ''missing Authorization''), c)
      else do {
        (got, c') \<leftarrow> jwks_get J url_ok issuer c;
        case got of
          Inl e \<Rightarrow> ret (Inr (http_error 503 ''jwks unavailable''), c')
        | Inr ks \<Rightarrow> (case jo_parse J (bearer rq) of
            None \<Rightarrow> ret (Inr (http_error 401 ''invalid token''), c')
          | Some tok \<Rightarrow> (let cl = claims_under J tok ks no_claims in
              if dc_sub cl = [] \<or> dc_iss cl \<noteq> issuer
              then ret (Inr (http_error 401 ''token invalid or expired''), c')
              else do {
                now \<leftarrow> time_now;
                if dc_exp cl < now div 10 ^ 9
                then ret (Inr (http_error 401 ''token invalid or expired''), c')
                else do { r \<leftarrow> next (dc_sub cl) rq; ret (r, c') } })) })"

section \<open>What a claim rests on\<close>

text \<open>\<open>v\<close> is a member \<open>name\<close> of a payload that one of the keys verifies for the token.\<close>

definition signed :: "('k, 't) jose \<Rightarrow> 't \<Rightarrow> 'k list \<Rightarrow> string \<Rightarrow> gval \<Rightarrow> bool" where
  "signed J tok ks name v \<longleftrightarrow> (\<exists>k \<in> set ks. \<exists>m k'. jo_verify J tok k = Some (GObj m) \<and> (k', v) \<in> set m \<and> fold_eq k' name)"

definition backed :: "('k, 't) jose \<Rightarrow> 't \<Rightarrow> 'k list \<Rightarrow> dashboard_claims \<Rightarrow> bool" where
  "backed J tok ks c \<longleftrightarrow> (dc_sub c = [] \<or> signed J tok ks ''sub'' (GStr (dc_sub c)))
     \<and> (dc_iss c = [] \<or> signed J tok ks ''iss'' (GStr (dc_iss c)))
     \<and> (dc_exp c = 0 \<or> (\<exists>v. signed J tok ks ''exp'' v \<and> to_int 0 v = Some (dc_exp c)))"

lemma to_str_Some: "to_str d v = Some s \<Longrightarrow> v = GStr s"
  by (cases v) auto

lemma backed_member:
  assumes "backed J tok ks c" "set_claim k v c = Some c'" "\<And>name. fold_eq k name \<Longrightarrow> signed J tok ks name v"
  shows "backed J tok ks c'"
  using assms by (auto simp: backed_def set_claim_def dest!: to_str_Some split: if_splits)

lemma backed_members:
  assumes "backed J tok ks c" "\<And>k v name. (k, v) \<in> set m \<Longrightarrow> fold_eq k name \<Longrightarrow> signed J tok ks name v"
  shows "backed J tok ks (fst (set_claims m c))"
  using assms
proof (induction m c rule: set_claims.induct)
  case (2 k v r c)
  have rest: "signed J tok ks name va" if "(ka, va) \<in> set r" "fold_eq ka name" for ka va name
    using 2(4) [of ka va name] that by simp
  show ?case
  proof (cases "set_claim k v c")
    case None
    have "backed J tok ks (fst (set_claims r c))" by (rule 2(1) [OF None 2(3) rest])
    with None show ?thesis by simp
  next
    case (Some c')
    have "backed J tok ks c'" by (rule backed_member [OF 2(3) Some 2(4)]) simp_all
    from 2(2) [OF Some this rest] Some show ?thesis by simp
  qed
qed simp

lemma backed_under:
  "backed J tok all c \<Longrightarrow> set ks \<subseteq> set all \<Longrightarrow> backed J tok all (claims_under J tok ks c)"
proof (induction J tok ks c rule: claims_under.induct)
  case (2 J tok k ks c)
  have "backed J tok all (fst (decode_claims v c))" if "jo_verify J tok k = Some v" for v
  proof (cases v)
    case (GObj m)
    have "k \<in> set all" using 2(4) by simp
    with that GObj show ?thesis
      unfolding GObj decode_claims.simps by (intro backed_members [OF 2(3)]) (auto simp: signed_def)
  qed (use 2(3) in simp_all)
  note step = this
  show ?case
  proof (cases "jo_verify J tok k")
    case None
    then show ?thesis using 2(1) [OF None] 2(3,4) by simp
  next
    case (Some v)
    obtain c' ok where c': "decode_claims v c = (c', ok)" by fastforce
    then have b: "backed J tok all c'" using step [OF Some] by simp
    show ?thesis
    proof (cases ok)
      case True
      then show ?thesis using Some c' b by simp
    next
      case False
      then show ?thesis using 2(2) [OF Some c' [symmetric] False b] 2(4) Some c' by simp
    qed
  qed
qed simp

text \<open>The keys come from the cache while it is fresh, else from the issuer's answer.\<close>

definition keys_known :: "('k, 't) jose \<Rightarrow> 'k jwks_cache \<Rightarrow> world \<Rightarrow> 'k list \<Rightarrow> bool" where
  "keys_known J c w ks \<longleftrightarrow> (jc_keys c = Some ks \<and> (\<exists>n. clock w n - jc_fetched c < jwks_ttl))
     \<or> (\<exists>rs. http_resp w (length (http_log w)) = Some rs \<and> Option.bind (rs_json rs) (jo_keys J) = Some ks)"

lemma wp_jwks_get:
  assumes failed: "\<And>e s'. db s' = db s \<Longrightarrow> clock s' = clock s \<Longrightarrow> Q (Inl e, c) s'"
    and got: "\<And>ks c' s'. db s' = db s \<Longrightarrow> clock s' = clock s \<Longrightarrow> keys_known J c s ks \<Longrightarrow> jc_keys c' = Some ks \<Longrightarrow>
      Q (Inr ks, c') s'"
  shows "wp (jwks_get J url_ok issuer c) Q s"
proof -
  have fetch: "wp (if \<not> url_ok (jwks_url issuer) then ret (Inl (Wrap ''build jwks request'' (Err ''url'')), c)
     else on_err (http_do (jwks_request issuer)) (\<lambda>e. ret (Inl (Wrap ''fetch jwks'' e), c))
       (\<lambda>rs. case Option.bind (rs_json rs) (jo_keys J) of
          None \<Rightarrow> ret (Inl (Wrap ''decode jwks'' (Err ''json'')), c)
        | Some ks \<Rightarrow> do { now \<leftarrow> time_now; ret (Inr ks, \<lparr>jc_keys = Some ks, jc_fetched = now\<rparr>) })) Q s'"
    if "quiet s s'" for s'
  proof -
    note s' = quietD [OF that]
    have known: "keys_known J c s ks"
      if "http_resp s' (length (http_log s')) = Some rs" "Option.bind (rs_json rs) (jo_keys J) = Some ks" for rs ks
      using that s' by (auto simp: keys_known_def)
    show ?thesis
    proof (cases "http_resp s' (length (http_log s'))")
      case None
      then show ?thesis using s' by (simp add: http_do_def Let_def failed)
    next
      case (Some rs)
      show ?thesis
      proof (cases "Option.bind (rs_json rs) (jo_keys J)")
        case None
        with Some show ?thesis using s' by (simp add: http_do_def Let_def failed)
      next
        case ks: (Some ks)
        with Some known [OF Some ks] show ?thesis
          using s' by (auto simp: http_do_def Let_def failed intro!: wp_time_now got dest: quietD)
      qed
    qed
  qed
  show ?thesis
  proof (cases "jc_keys c")
    case None
    then show ?thesis using fetch [of s] by (simp add: jwks_get_def jwks_fresh_def del: wp_on_err)
  next
    case (Some ks)
    show ?thesis
      unfolding jwks_get_def jwks_fresh_def wp_bind if_not_P [OF Some [THEN option.discI]]
    proof (rule wp_time_now_clock, goal_cases)
      case (1 n s')
      then show ?case
        using Some fetch [OF 1(1)] quietD [OF 1(1)]
        by (auto simp: keys_known_def simp del: wp_on_err intro!: got)
    qed
  qed
qed

text \<open>Turned away, or let through with a token that stands for the subject.\<close>

definition turned_away :: "answer res \<Rightarrow> bool" where
  "turned_away r \<longleftrightarrow> (\<exists>p. r = Inr p \<and> rp_status p \<in> {401, 503})"

definition entitled :: "('k, 't) jose \<Rightarrow> 'k jwks_cache \<Rightarrow> string \<Rightarrow> world \<Rightarrow> string \<Rightarrow> string \<Rightarrow> bool" where
  "entitled J c issuer w raw sub \<longleftrightarrow> sub \<noteq> [] \<and> (\<exists>tok ks e n. jo_parse J raw = Some tok \<and> keys_known J c w ks
     \<and> signed J tok ks ''sub'' (GStr sub) \<and> (issuer = [] \<or> signed J tok ks ''iss'' (GStr issuer))
     \<and> (e = 0 \<or> (\<exists>v. signed J tok ks ''exp'' v \<and> to_int 0 v = Some e)) \<and> clock w n div 10 ^ 9 \<le> e)"

section \<open>Property\<close>

text \<open>The last part of the middleware: the claims are there, and only the expiry is left to check.\<close>

lemma wp_admission:
  assumes "jo_parse J b = Some tok" "keys_known J c w ks" "db s = db w" "clock s = clock w"
    and "dc_sub (claims_under J tok ks no_claims) \<noteq> []" "dc_iss (claims_under J tok ks no_claims) = issuer"
  shows "wp (do { now \<leftarrow> time_now;
      if dc_exp (claims_under J tok ks no_claims) < now div 10 ^ 9
      then ret (Inr (http_error 401 ''token invalid or expired''), c')
      else do { r \<leftarrow> next (dc_sub (claims_under J tok ks no_claims)) rq; ret (r, c') } })
    (\<lambda>(r, c') w'. turned_away r \<and> db w' = db w
       \<or> (\<exists>sub s. db s = db w \<and> entitled J c issuer w b sub \<and> run_state (next sub rq) s = (r, w'))) s"
  unfolding wp_bind
proof (rule wp_time_now_clock, goal_cases)
  case (1 n s2)
  let ?cl = "claims_under J tok ks no_claims"
  have "backed J tok ks ?cl" by (rule backed_under) (simp_all add: backed_def no_claims_def)
  then have "entitled J c issuer w b (dc_sub ?cl)" if "clock w n div 10 ^ 9 \<le> dc_exp ?cl"
    using that assms(1,2,5,6) unfolding entitled_def backed_def by blast
  moreover have "db s2 = db w" using 1 assms(3) by (simp add: quietD)
  ultimately show ?case using assms(4) by (auto simp: turned_away_def not_less wp_def split: prod.splits)
qed

text \<open>
  C30.
  The dashboard's sign-in: whatever the token, the cache and the issuer's answers, a request either
  is turned away with 401 or 503 and no table changes, or runs the handler with a subject it is
  entitled to: a key that the issuer's set holds, fetched now or less than five minutes ago,
  verifies a payload of this token that names the subject, another member names the issuer, and the
  expiry it carries is not past.
\<close>

theorem dashboard_admits_entitled:
  "wp (DashboardAuth J url_ok issuer c next rq) (\<lambda>(r, c') w'. turned_away r \<and> db w' = db w
     \<or> (\<exists>sub s. db s = db w \<and> entitled J c issuer w (bearer rq) sub \<and> run_state (next sub rq) s = (r, w'))) w"
proof (cases "bearer rq = []")
  case True
  then show ?thesis by (simp add: DashboardAuth_def turned_away_def)
next
  case False
  show ?thesis
    unfolding DashboardAuth_def if_not_P [OF False] wp_bind
  proof (rule wp_jwks_get, goal_cases)
    case (1 e s')
    then show ?case by (simp add: turned_away_def)
  next
    case (2 ks c' s')
    show ?case
    proof (cases "jo_parse J (bearer rq)")
      case None
      with 2 show ?thesis by (simp add: turned_away_def)
    next
      case (Some tok)
      let ?cl = "claims_under J tok ks no_claims"
      show ?thesis
      proof (cases "dc_sub ?cl = [] \<or> dc_iss ?cl \<noteq> issuer")
        case True
        with Some 2 show ?thesis by (simp add: turned_away_def Let_def)
      next
        case False
        then show ?thesis
          using Some wp_admission [OF Some 2(3) 2(1,2), of issuer c' "next" rq] by (simp add: Let_def del: wp_bind)
      qed
    qed
  qed
qed

text \<open>Conversely a token that a cached key verifies, for the issuer and not expired, is let through.\<close>

lemma valid_token_admitted:
  assumes "jc_keys c = Some ks" "\<And>n. clock w n - jc_fetched c < jwks_ttl" "bearer rq \<noteq> []"
    and "jo_parse J (bearer rq) = Some tok" "claims_under J tok ks no_claims = cl"
    and "dc_sub cl \<noteq> []" "dc_iss cl = issuer" "\<And>n. clock w n div 10 ^ 9 \<le> dc_exp cl"
  shows "wp (DashboardAuth J url_ok issuer c next rq)
    (\<lambda>(r, c') w'. c' = c \<and> (\<exists>s. db s = db w \<and> run_state (next (dc_sub cl) rq) s = (r, w'))) w"
proof -
  have "wp (next (dc_sub cl) rq) (\<lambda>r w'. \<exists>s. db s = db w \<and> run_state (next (dc_sub cl) rq) s = (r, w')) s"
    if "db s = db w" for s
    using that by (auto simp: wp_def split: prod.split)
  moreover have "dc_exp cl < clock w n div 10 ^ 9 \<longleftrightarrow> False" for n using assms(8) [of n] by simp
  ultimately show ?thesis
    using assms(1-7)
    by (auto simp: DashboardAuth_def jwks_get_def jwks_fresh_def Let_def quietD
        intro!: wp_time_now_clock)
qed

text \<open>
  An answer without keys is cached like any other: for five minutes everyone is turned away.
\<close>

lemma empty_key_set_locks_out:
  assumes "jc_keys c = Some []" "\<And>n. clock w n - jc_fetched c < jwks_ttl"
  shows "wp (DashboardAuth J url_ok issuer c next rq) (\<lambda>(r, c') w'. turned_away r \<and> c' = c) w"
  using assms
  by (auto simp: DashboardAuth_def jwks_get_def jwks_fresh_def turned_away_def no_claims_def Let_def
      intro!: wp_time_now_clock split: option.split)

end
