(* ===== verification/Migrate.thy ===== *)
theory Migrate
  imports Http
begin

text \<open>
  \<^verbatim>\<open>cmd/migrate\<close>: which call of the migration library the command line stands for, and what the
  command prints or dies of. The library is the argument \<open>lib\<close>; \<open>opens\<close> is its \<^verbatim>\<open>New\<close>.
\<close>

datatype migrate_call = MUp | MDown | MSteps int | MForce int | MVersion | MDrop

datatype migrate_reply = Migrated | NoChange | Failed goerr | At_version nat bool

text \<open>
  \<^verbatim>\<open>n, _ = strconv.Atoi(s)\<close>: 0 for what is no number, the nearest \<^verbatim>\<open>int\<close> for what does not fit.
\<close>

definition Atoi_value :: "string \<Rightarrow> int" where
  "Atoi_value s = (let neg = (s \<noteq> [] \<and> hd s = CHR ''-'');
       ds = (if s \<noteq> [] \<and> (hd s = CHR ''-'' \<or> hd s = CHR ''+'') then tl s else s) in
     case read_digits ds of None \<Rightarrow> 0
     | Some n \<Rightarrow> max (- (2 ^ 63)) (min (2 ^ 63 - 1) (if neg then - int n else int n)))"

text \<open>\<^verbatim>\<open>-n\<close> of an \<^verbatim>\<open>int\<close>.\<close>

definition neg64 :: "int \<Rightarrow> int" where
  "neg64 n = (if n = - (2 ^ 63) then n else - n)"

definition migrate_call_of :: "string list \<Rightarrow> migrate_call res" where
  "migrate_call_of args = (case args of
     [] \<Rightarrow> Inl (Err ''command required: up | down [n] | down -all | force <v> | version | drop'')
   | cmd # rest \<Rightarrow>
      (if cmd = ''up'' then Inr MUp
       else if cmd = ''down'' then Inr (case rest of [] \<Rightarrow> MSteps (neg64 1)
         | a # _ \<Rightarrow> if a = ''-all'' then MDown else MSteps (neg64 (Atoi_value a)))
       else if cmd = ''force'' then (case rest of [] \<Rightarrow> Inl (Err ''force requires version number'')
         | a # _ \<Rightarrow> Inr (MForce (Atoi_value a)))
       else if cmd = ''version'' then Inr MVersion
       else if cmd = ''drop'' then Inr MDrop
       else Inl (Err (''unknown command: '' @ cmd))))"

text \<open>What is printed when the call did not fail.\<close>

fun migrate_report :: "migrate_call \<Rightarrow> migrate_reply \<Rightarrow> string" where
  "migrate_report MUp _ = ''migrations applied''"
| "migrate_report MDown _ = ''all migrations rolled back''"
| "migrate_report (MSteps k) _ = ''rolled back '' @ Itoa (neg64 k) @ '' migration(s)''"
| "migrate_report (MForce v) _ = ''forced version '' @ Itoa v"
| "migrate_report MVersion (At_version v dirty) = ''version: '' @ Itoa (int v) @ '', dirty: '' @ (if dirty then ''true'' else ''false'')"
| "migrate_report MVersion _ = []"
| "migrate_report MDrop _ = ''all tables dropped''"

text \<open>For which calls \<^verbatim>\<open>ErrNoChange\<close> is no failure.\<close>

fun tolerates_no_change :: "migrate_call \<Rightarrow> bool" where
  "tolerates_no_change MUp = True"
| "tolerates_no_change MDown = True"
| "tolerates_no_change (MSteps _) = True"
| "tolerates_no_change _ = False"

definition migrate_main :: "string \<Rightarrow> string \<Rightarrow> string list \<Rightarrow> (string \<Rightarrow> goerr option) \<Rightarrow>
    (string \<Rightarrow> migrate_call \<Rightarrow> migrate_reply) \<Rightarrow> string res" where
  "migrate_main url database_url args opens lib = (let u = (if url = [] then database_url else url) in
     if u = [] then Inl (Err ''-url or DATABASE_URL required'')
     else if args = [] then Inl (Err ''command required: up | down [n] | down -all | force <v> | version | drop'')
     else case opens u of Some e \<Rightarrow> Inl (Wrap ''migrate.New'' e)
     | None \<Rightarrow> (case migrate_call_of args of Inl e \<Rightarrow> Inl e
        | Inr k \<Rightarrow> (case lib u k of
            Failed e \<Rightarrow> Inl (Wrap (hd args) e)
          | NoChange \<Rightarrow> if tolerates_no_change k then Inr (migrate_report k NoChange)
              else Inl (Wrap (hd args) (Err ''no change''))
          | rep \<Rightarrow> Inr (migrate_report k rep))))"

text \<open>
  \<^verbatim>\<open>down\<close> steps back by the number it is given, and forward when that number is negative;
  \<^verbatim>\<open>force\<close> takes a version it cannot read for 0. Both report success.
\<close>

lemma down_steps:
  assumes "migrate_call_of (''down'' # a # rest) = Inr (MSteps k)"
  shows "0 < k \<longleftrightarrow> Atoi_value a < 0 \<and> Atoi_value a \<noteq> - (2 ^ 63)"
  using assms by (auto simp: migrate_call_of_def neg64_def split: if_splits)

lemma down_can_go_up: "migrate_call_of [''down'', ''-2''] = Inr (MSteps 2)"
  by (simp add: migrate_call_of_def neg64_def Atoi_value_def read_digits_def dec_digit_def ccode_def Let_def)

lemma force_misread: "read_digits a = None \<Longrightarrow> a \<noteq> [] \<Longrightarrow> hd a \<notin> {CHR ''-'', CHR ''+''} \<Longrightarrow>
    migrate_call_of (''force'' # a # rest) = Inr (MForce 0)"
  by (simp add: migrate_call_of_def Atoi_value_def Let_def)

end
