(* ===== verification/Journey.thy ===== *)
theory Journey
  imports Engine_Spec Email_Worker Http
begin

text \<open>
  The way of an event through two processes: the engine that turns it into jobs and the email worker
  that carries them out. First the liveness the refinement of \<^verbatim>\<open>Engine_Spec\<close> leaves open: with its
  references in place and nothing failing, an event is always acknowledged.
\<close>

section \<open>Fresh identifiers\<close>

definition row_ids :: "db \<Rightarrow> string set" where
  "row_ids d = rn_id ` set (runs d) \<union> nt_id ` set (notifications d)"

text \<open>The UUIDs still to be drawn are different from one another and from those in use.\<close>

definition unused_ids :: "world \<Rightarrow> bool" where
  "unused_ids w \<longleftrightarrow> inj (fresh w) \<and> (\<forall>n \<ge> next_id w. fresh w n \<notin> row_ids (db w))"

lemma unused_update [simp]: "unused_ids (w\<lparr>bus := b\<rparr>) = unused_ids w" "unused_ids (w\<lparr>bus_faults := f\<rparr>) = unused_ids w"
  "unused_ids (w\<lparr>ticks := n\<rparr>) = unused_ids w" "unused_ids (w\<lparr>tx := t\<rparr>) = unused_ids w"
  "unused_ids (w\<lparr>db_faults := g\<rparr>) = unused_ids w"
  by (simp_all add: unused_ids_def)

text \<open>\<open>ready t w\<close>: in a transaction of \<open>t\<close>, nothing due to fail.\<close>

definition ready :: "string \<Rightarrow> db \<Rightarrow> world \<Rightarrow> bool" where
  "ready t d0 w \<longleftrightarrow> in_tx t d0 w \<and> healthy w \<and> unused_ids w"

lemma wp_stmt_ready:
  assumes "ready t d0 s"
    and ok: "\<And>c. guc c = t \<Longrightarrow> new_id c \<notin> row_ids (db s) \<Longrightarrow> \<exists>d x. f c (db s) = Some (d, x)
      \<and> row_ids d \<subseteq> insert (new_id c) (row_ids (db s))"
    and Q: "\<And>s' c d x. guc c = t \<Longrightarrow> f c (db s) = Some (d, x) \<Longrightarrow> db s' = d \<Longrightarrow> bus s' = bus s \<Longrightarrow>
      ready t d0 s' \<Longrightarrow> Q (Inr x) s'"
  shows "wp (db_stmt f) Q s"
proof -
  obtain T where T: "tx s = Some T" "tx_guc T = t" "tx_saved T = d0" "\<not> tx_aborted T"
    using assms(1) by (auto simp: ready_def in_tx_def healthy_def broken_def)
  let ?c = "\<lparr>guc = t, db_now = tx_now T, new_id = fresh s (next_id s)\<rparr>"
  have free: "new_id ?c \<notin> row_ids (db s)" "inj (fresh s)" "db_faults s = []"
    using assms(1) by (auto simp: ready_def unused_ids_def healthy_def)
  obtain d x where f: "f ?c (db s) = Some (d, x)" "row_ids d \<subseteq> insert (new_id ?c) (row_ids (db s))"
    using ok [of ?c] free(1) by auto
  let ?s = "s\<lparr>db_faults := [], ticks := Suc (ticks s), next_id := Suc (next_id s), db := d\<rparr>"
  have "fresh s n \<noteq> fresh s (next_id s)" if "Suc (next_id s) \<le> n" for n
    using that free(2) by (auto dest: injD)
  then have "ready t d0 ?s"
    using assms(1) f(2) T by (auto simp: ready_def unused_ids_def healthy_def in_tx_def broken_def)
  then have "Q (Inr x) ?s" by (intro Q [OF _ f(1)]) simp_all
  then show ?thesis using T f(1) free(3)
    by (simp add: db_stmt_def db_fault_def time_now_def next_fault_def Let_def)
qed

lemma wp_query_ready:
  assumes "ready t d0 s" and "\<And>s' c. guc c = t \<Longrightarrow> db s' = db s \<Longrightarrow> bus s' = bus s \<Longrightarrow> ready t d0 s' \<Longrightarrow> Q (Inr (f c (db s))) s'"
  shows "wp (query f) Q s"
  unfolding query_def by (rule wp_stmt_ready [OF assms(1)]) (auto intro: assms(2))

lemma wp_exec_ready:
  assumes "ready t d0 s" and "\<And>c. guc c = t \<Longrightarrow> f c (db s) = Some d" "row_ids d \<subseteq> row_ids (db s)"
    and "\<And>s'. db s' = d \<Longrightarrow> bus s' = bus s \<Longrightarrow> ready t d0 s' \<Longrightarrow> Q (Inr ()) s'"
  shows "wp (exec f) Q s"
  unfolding exec_def by (rule wp_stmt_ready [OF assms(1)]) (use assms(2-) in auto)

lemma wp_publish_ready:
  assumes "ready t d0 s" and "\<And>s'. db s' = db s \<Longrightarrow> ready t d0 s' \<Longrightarrow> Q (Inr ()) s'"
  shows "wp (js_publish subj m) Q s"
  using assms by (auto simp: js_publish_def next_fault_def ready_def healthy_def in_tx_def broken_def)

section \<open>The engine without failures\<close>

text \<open>What an event and the steps of its workflow refer to exists.\<close>

definition step_ok :: "db \<Rightarrow> step \<Rightarrow> bool" where
  "step_ok d s \<longleftrightarrow> (st_type s = StepTypeChannel \<longrightarrow> st_channel s \<in> set channels
     \<and> (st_template s = [] \<or> st_template s \<in> tp_id ` set (templates d)))"

definition resolvable :: "db \<Rightarrow> event \<Rightarrow> step list \<Rightarrow> bool" where
  "resolvable d ev steps \<longleftrightarrow> ev_tenant ev \<in> tn_id ` set (tenants d) \<and> ev_subscriber ev \<noteq> []
     \<and> ev_subscriber ev \<in> sb_id ` set (subscribers d) \<and> list_all (step_ok d) steps"

lemma resolvable_cong: "tenants d' = tenants d \<Longrightarrow> subscribers d' = subscribers d \<Longrightarrow> templates d' = templates d \<Longrightarrow>
    resolvable d' ev steps = resolvable d ev steps"
  by (simp add: resolvable_def step_ok_def [abs_def])

text \<open>The state between two steps of a run.\<close>

definition under_way :: "db \<Rightarrow> event \<Rightarrow> step list \<Rightarrow> string \<Rightarrow> world \<Rightarrow> bool" where
  "under_way d0 ev steps run w \<longleftrightarrow> ready (ev_tenant ev) d0 w \<and> resolvable (db w) ev steps
     \<and> run \<in> rn_id ` set (runs (db w))"

lemma row_ids_update [simp]:
  assumes "\<And>r. rn_id (f r) = rn_id r"
  shows "row_ids (update_run run f d) = row_ids d"
proof -
  have "map rn_id (update_where P f rs) = map rn_id rs" for P rs
    using assms by (simp add: update_where_def)
  then have "rn_id ` set (update_where P f rs) = rn_id ` set rs" for P rs by (metis set_map)
  then show ?thesis by (simp add: row_ids_def update_run_def)
qed

lemma wp_dispatch_ready:
  assumes w: "under_way d0 ev steps run w" and s: "s \<in> set steps" "st_type s = StepTypeChannel"
  shows "wp (dispatchChannel ev s run) (\<lambda>r w'. r = Inr () \<and> under_way d0 ev steps run w') w"
proof -
  have r: "ready (ev_tenant ev) d0 w" "resolvable (db w) ev steps" "run \<in> rn_id ` set (runs (db w))"
    using w by (auto simp: under_way_def)
  have ok: "step_ok (db w) s" using r(2) s(1) by (auto simp: resolvable_def list_all_iff)
  have send: "wp (on_err (db_stmt (\<lambda>c d. insert_notification c d ev s run))
       (\<lambda>e. ret (Inl (Wrap ''insert notification'' e)))
       (\<lambda>nid. js_publish (ChannelSubject (ev_tenant ev) (st_channel s))
          (encode_job (job_of ev s nid)))) (\<lambda>r w'. r = Inr () \<and> under_way d0 ev steps run w') w1"
    if "db w1 = db w" "ready (ev_tenant ev) d0 w1" for w1
    unfolding wp_on_err
  proof (rule wp_stmt_ready [OF that(2)], goal_cases)
    case (1 c)
    then show ?case using that(1) r ok s(2)
      by (auto simp: insert_notification_def resolvable_def step_ok_def row_ids_def queued_row_def)
  next
    case (2 s' c d nid)
    then have d: "d = (db w)\<lparr>notifications := notifications (db w) @ [queued_row c ev s run]\<rparr>"
      using insert_notification_SomeD that(1) by fastforce
    have "under_way d0 ev steps run s'"
      using 2 d r resolvable_cong [of d "db w"] by (simp add: under_way_def)
    then show ?case
      unfolding sum.case
      by (intro wp_publish_ready [OF 2(5)]) (auto simp: under_way_def)
  qed
  show ?thesis
    unfolding dispatchChannel_def IsOptedIn_def query_row_def wp_bind wp_on_err wp_and_then
    by (rule wp_query_ready [OF r(1)])
      (use w r send in \<open>auto simp: under_way_def Let_def ErrNoRows_def split: option.split\<close>)
qed

lemma insert_run_SomeE:
  assumes "insert_run c d ev wid = Some (d', run)"
  obtains row where "d' = d\<lparr>runs := runs d @ [row]\<rparr>" "rn_id row = run"
proof -
  have "\<exists>row. d' = d\<lparr>runs := runs d @ [row]\<rparr> \<and> rn_id row = run"
    using assms unfolding insert_run_def if_not_P [OF option.distinct(2)]
    by (simp split: if_splits) (elim conjE, intro exI conjI, erule sym, simp)
  then show ?thesis using that by blast
qed

lemma wp_loop_ready:
  "under_way d0 ev steps run w \<Longrightarrow> wp (exec_loop left ev steps run i)
    (\<lambda>r w'. r = Inr () \<and> ready (ev_tenant ev) d0 w') w"
proof (induction left arbitrary: i w)
  case 0
  then show ?case
    by (subst exec_loop.simps)
      (auto simp: under_way_def failRun_def intro!: wp_exec_ready [where t = "ev_tenant ev" and ?d0.0 = d0])
next
  case (Suc n)
  have r: "ready (ev_tenant ev) d0 w" using Suc.prems by (simp add: under_way_def)
  show ?case
  proof (cases "length steps \<le> i")
    case True
    then show ?thesis
      by (subst exec_loop.simps) (auto intro!: wp_exec_ready [OF r])
  next
    case False
    let ?s = "steps ! i"
    note unf = exec_loop.simps [of "Suc n" ev steps run i]
    have delay: "wp (exec (\<lambda>c d. Some (update_run run
          (\<lambda>r. r\<lparr>rn_resume_at := Some (resume_time now (st_delay ?s) div 1000), rn_step := int k\<rparr>) d)))
        (\<lambda>r w'. r = Inr () \<and> ready (ev_tenant ev) d0 w') s'" if "ready (ev_tenant ev) d0 s'" for now k s'
      by (rule wp_exec_ready [OF that]) auto
    show ?thesis
    proof (cases "st_type ?s")
      case StepTypeChannel
      with False have "wp (dispatchChannel ev ?s run) (\<lambda>r w'. r = Inr () \<and> under_way d0 ev steps run w') w"
        by (intro wp_dispatch_ready [OF Suc.prems]) simp_all
      then show ?thesis
        unfolding unf using False StepTypeChannel by (auto simp: Let_def intro: Suc.IH elim!: wp_mono)
    next
      case StepTypeDelay
      have "ready (ev_tenant ev) d0 (w\<lparr>ticks := m\<rparr>)" for m
        using r by (simp add: ready_def in_tx_def healthy_def broken_def)
      then show ?thesis
        unfolding unf using False StepTypeDelay
        by (auto simp: Let_def time_now_def intro!: wp_mono [OF delay])
    next
      case StepTypeCondition
      then show ?thesis unfolding unf using False Suc.IH [OF Suc.prems] by (simp add: Let_def)
    next
      case OtherType
      then show ?thesis unfolding unf using False Suc.IH [OF Suc.prems] by (simp add: Let_def)
    qed
  qed
qed

lemma wp_process_ready:
  assumes "ready (ev_tenant ev) d0 w" "resolvable (db w) ev steps"
    and "select_workflow (db w) (ev_tenant ev) (ev_event ev) = Some (wid, sj)" "decode_steps sj = Some steps"
  shows "wp (ProcessEvent ev) (\<lambda>r w'. r = Inr () \<and> ready (ev_tenant ev) d0 w') w"
proof -
  have wid: "wid \<in> wf_id ` set (workflows (db w))"
    using assms(3) by (auto simp: select_workflow_def dest: find_Some_in)
  have run: "wp (createRun ev wid) (\<lambda>r. case r of
      Inl e \<Rightarrow> (\<lambda>w'. (Inl e :: unit res) = Inr () \<and> ready (ev_tenant ev) d0 w')
    | Inr run \<Rightarrow> wp (executeFrom ev steps run 0) (\<lambda>r w'. r = Inr () \<and> ready (ev_tenant ev) d0 w')) w1"
    if "db w1 = db w" "ready (ev_tenant ev) d0 w1" for w1
    unfolding createRun_def
  proof (rule wp_stmt_ready [OF that(2)], goal_cases)
    case (1 c)
    then show ?case using that(1) assms(2) wid
      by (auto simp: insert_run_def resolvable_def row_ids_def)
  next
    case (2 s' c d run)
    note f = 2(2) [unfolded that(1)]
    obtain row where "d = (db w)\<lparr>runs := runs (db w) @ [row]\<rparr>" "rn_id row = run"
      by (rule insert_run_SomeE [OF f])
    then have "under_way d0 ev steps run s'"
      using 2 assms(2) resolvable_cong [of d "db w"] by (simp add: under_way_def)
    then show ?case unfolding sum.case executeFrom_def by (rule wp_loop_ready)
  qed
  show ?thesis
    unfolding ProcessEvent_def lookupWorkflow_def query_row_def wp_and_then wp_on_err
    by (rule wp_query_ready [OF assms(1)]) (use assms(3,4) run in \<open>auto\<close>)
qed

text \<open>The transaction around it.\<close>

definition at_ease :: "world \<Rightarrow> bool" where
  "at_ease w \<longleftrightarrow> saved w = None \<and> db_faults w = [] \<and> bus_faults w = []"

lemma wp_tx_ready:
  "tx w = None \<Longrightarrow> db_faults w = [] \<Longrightarrow> wp begin_tx Q w = Q (Inr ()) (w\<lparr>db_faults := [], ticks := Suc (ticks w),
     tx := Some \<lparr>tx_guc = [], tx_aborted = False, tx_now = clock w (ticks w) div 1000, tx_saved = db w\<rparr>\<rparr>)"
  "tx w = Some T \<Longrightarrow> db_faults w = [] \<Longrightarrow> \<not> tx_aborted T \<Longrightarrow>
     wp (set_tenant t) Q w = Q (Inr ()) (w\<lparr>db_faults := [], tx := Some (T\<lparr>tx_guc := t\<rparr>)\<rparr>)"
  "tx w = Some T \<Longrightarrow> db_faults w = [] \<Longrightarrow> \<not> tx_aborted T \<Longrightarrow>
     wp commit_tx Q w = Q (Inr ()) (w\<lparr>db_faults := [], tx := None\<rparr>)"
  by (simp_all add: begin_tx_def set_tenant_def commit_tx_def db_fault_def time_now_def next_fault_def)

lemma wp_RunInTenant_ready:
  assumes "at_ease w" "unused_ids w"
    and "\<And>s. ready t (db w) s \<Longrightarrow> db s = db w \<Longrightarrow> wp fn (\<lambda>r s'. (\<exists>x. r = Inr x) \<and> ready t (db w) s') s"
  shows "wp (RunInTenant t fn) (\<lambda>r w'. (\<exists>x. r = Inr x) \<and> at_ease w' \<and> unused_ids w') w"
proof -
  have w: "tx w = None" "db_faults w = []" "bus_faults w = []"
    using assms(1) by (auto simp: at_ease_def no_tx_iff)
  let ?s = "w\<lparr>ticks := Suc (ticks w), db_faults := [],
    tx := Some \<lparr>tx_guc = t, tx_aborted = False, tx_now = clock w (ticks w) div 1000, tx_saved = db w\<rparr>\<rparr>"
  have "ready t (db w) ?s"
    using w assms(2) by (simp add: ready_def in_tx_def healthy_def broken_def)
  then have body: "wp fn (\<lambda>r s'. (\<exists>x. r = Inr x) \<and> ready t (db w) s') ?s" by (rule assms(3)) simp
  have "wp (on_err fn (\<lambda>e. do { roll_back; ret (Inl e) })
      (\<lambda>x. on_err commit_tx (\<lambda>e. ret (Inl e)) (\<lambda>_. ret (Inr x))))
    (\<lambda>r w'. (\<exists>x. r = Inr x) \<and> at_ease w' \<and> unused_ids w') ?s"
    unfolding wp_on_err
  proof (rule wp_mono [OF body], elim conjE exE, goal_cases)
    case (1 r s' x)
    then obtain T where "tx s' = Some T" "\<not> tx_aborted T" "db_faults s' = []" "bus_faults s' = []" "unused_ids s'"
      by (auto simp: ready_def in_tx_def healthy_def broken_def)
    with 1 show ?case by (simp add: wp_tx_ready(3) at_ease_def saved_def)
  qed
  with w show ?thesis
    by (simp add: RunInTenant_def in_tenant_tx_def wp_tx_ready(1,2) del: wp_bind)
qed

lemma engine_acknowledges:
  assumes "at_ease w" "unused_ids w" "m_json msg = Some v" "decode_event v = Some ev" "ev_run ev = []"
    and "select_workflow (db w) (ev_tenant ev) (ev_event ev) = Some (wid, sj)" "decode_steps sj = Some steps"
    and "resolvable (db w) ev steps"
  shows "wp (engine_consume msg) (\<lambda>x w'. x = Ack \<and> at_ease w' \<and> unused_ids w') w"
proof -
  have "wp (RunInTenant (ev_tenant ev) (ProcessEvent ev)) (\<lambda>r w'. (\<exists>x. r = Inr x) \<and> at_ease w' \<and> unused_ids w') w"
    by (rule wp_RunInTenant_ready [OF assms(1,2)])
      (use assms(6-) in \<open>auto intro!: wp_mono [OF wp_process_ready]\<close>)
  then show ?thesis
    unfolding engine_consume_def engine_handle_def using assms(3-5) by (auto elim!: wp_mono)
qed

section \<open>From the engine to the worker\<close>

lemma queued_job:
  assumes "queued ev run ss rows w w'" "s \<in> set ss"
  shows "\<exists>nid. (ChannelSubject (ev_tenant ev) (st_channel s), encode_job (job_of ev s nid)) \<in> set (bus w')"
proof -
  obtain i where i: "i < length ss" "ss ! i = s" using assms(2) by (auto simp: in_set_conv_nth)
  then have "i < length rows" using assms(1) by (auto simp: queued_def dest: list_all2_lengthD)
  with i have "(s, rows ! i) \<in> set (zip ss rows)" by (auto simp: set_zip)
  then have "job_msg ev s (rows ! i) \<in> set (map2 (job_msg ev) ss rows)" by force
  then have "job_msg ev s (rows ! i) \<in> set (bus w')" using assms(1) by (simp add: queued_def)
  then show ?thesis unfolding job_msg_def by blast
qed

text \<open>Nothing the email worker reads is changed by the engine.\<close>

lemma processed_jobs:
  assumes "processed ev w w'" "select_workflow (db w) (ev_tenant ev) (ev_event ev) = Some (wid, sj)"
    and "decode_steps sj = Some steps" "s \<in> set (fst (run_plan steps (ev_payload ev) 0))" "opted (db w) ev s"
  shows "only_runs_notifs (db w) (db w')"
    and "\<exists>nid. (ChannelSubject (ev_tenant ev) (st_channel s), encode_job (job_of ev s nid)) \<in> set (bus w')"
proof -
  obtain c d run w1 where w1: "insert_run c (db w) ev wid = Some (d, run)" "db w1 = d"
    and p: "performed ev steps run (run_plan steps (ev_payload ev) 0) w1 w'"
    using assms(1-3) by (auto simp: processed_def)
  obtain row where "d = (db w)\<lparr>runs := runs (db w) @ [row]\<rparr>" by (rule insert_run_SomeE [OF w1(1)])
  then obtain rs where d: "db w1 = (db w)\<lparr>runs := rs\<rparr>" using w1(2) by blast
  then have "opted (db w1) ev = opted (db w) ev" using opted_cong [of "db w1" "db w"] by simp
  then show "\<exists>nid. (ChannelSubject (ev_tenant ev) (st_channel s), encode_job (job_of ev s nid)) \<in> set (bus w')"
    using p assms(4,5) by (auto simp: performed_def intro: queued_job)
  show "only_runs_notifs (db w) (db w')"
    using p d by (auto simp: performed_def only_runs_notifs_def)
qed

lemma email_reads:
  assumes "only_runs_notifs d d'"
  shows "email_address E d' = email_address E d" "email_content E d' = email_content E d"
    "suppressed_in c d' = suppressed_in c d"
proof -
  obtain rs ns where "d' = d\<lparr>runs := rs, notifications := ns\<rparr>"
    using assms unfolding only_runs_notifs_def by metis
  then have "subscribers d' = subscribers d" "templates d' = templates d" "suppressions d' = suppressions d"
    by simp_all
  then show "email_address E d' = email_address E d" "email_content E d' = email_content E d"
    "suppressed_in c d' = suppressed_in c d"
    by (simp_all add: fun_eq_iff email_address_def email_select_def select_subscriber_def email_content_def
        select_template_def suppressed_in_def)
qed

lemma job_of_fields:
  "jb_tenant (job_of ev s nid) = ev_tenant ev" "jb_subscriber (job_of ev s nid) = ev_subscriber ev"
  "jb_template (job_of ev s nid) = st_template s" "jb_payload (job_of ev s nid) = ev_payload ev"
  by (simp_all add: job_of_def)

text \<open>Address and content do not depend on the notification.\<close>

lemma email_of_job:
  "email_address E d (job_of ev s nid) = email_address E d (job_of ev s [])"
  "email_content E d (job_of ev s nid) = email_content E d (job_of ev s [])"
  unfolding email_address_def email_select_def email_content_def select_subscriber_def job_of_fields by (rule refl)+

text \<open>
  The job of step \<open>s\<close> carried out: the requests of the send plan are made and, when a provider accepts,
  the message is acknowledged and the notification marked with that provider and its message id.
\<close>

definition mailed :: "env \<Rightarrow> email_message provider option \<Rightarrow> email_message provider option \<Rightarrow> channel_job \<Rightarrow>
    string \<Rightarrow> rendered \<Rightarrow> world \<Rightarrow> disposition option \<Rightarrow> world \<Rightarrow> bool" where
  "mailed E P F j a c w x w' \<longleftrightarrow> http_log w' = http_log w @ fst (email_plan E P F j a c w)
     \<and> (case snd (email_plan E P F j a c w) of (Some i, n, None) \<Rightarrow>
          x = Some Ack \<and> db w' = marked_sent (jb_notification j) n i (db w) | _ \<Rightarrow> x \<noteq> Some Ack)"

lemma wp_failure_silent: "wp (HandleFailure msg n (Some e)) (\<lambda>x w'. x \<noteq> Ack \<and> http_log w' = http_log w) w"
  unfolding HandleFailure_def Let_def
  by (auto simp: quietD js_publish_def)

lemma wp_mailed:
  assumes "at_ease w" "email_address E (db w) j = Some a"
    and "\<not> suppressed_in (tctx (jb_tenant j)) (db w) (jb_tenant j) ''email'' (hashValue a)"
    and "email_content E (db w) j = Some c" "m_json msg = Some (encode_job j)"
  shows "wp (email_consume E P F msg) (mailed E P F j a c w) w"
proof -
  let ?plan = "email_plan E P F j a c w"
  have "wp (RunInTenant (jb_tenant j) (email_handleJob E P F j)) (settled (email_event j) j ?plan w) w"
    by (rule wp_email_job) (use assms in \<open>simp_all add: at_ease_def\<close>)
  moreover have "job_of_msg msg = Some j" using assms(5) by (simp add: job_of_msg_def decode_encode_job)
  ultimately show ?thesis
    unfolding email_consume_def worker_consume_def email_handle_def wp_on_err
    apply simp
    apply (erule wp_mono)
    apply (auto simp: settled_def mailed_def intro!: wp_mono [OF wp_failure_silent]
        split: sum.splits option.splits prod.splits)
    done
qed

section \<open>Property\<close>

text \<open>
  C2.
  From an event to the mail. When nothing fails and what the event and its workflow refer to exists,
  the engine acknowledges the event, and for every email step that the plan of the workflow reaches and
  the subscriber has not opted out of it has put a job on the tenant's email stream. The worker that
  takes this job writes to the subscriber's address, with the step's template rendered for the event's
  payload: it makes the requests of the send plan, and when a provider accepts it acknowledges the job
  and marks the notification sent.
\<close>

theorem event_becomes_email:
  assumes "at_ease w" "unused_ids w" "m_json msg = Some v" "decode_event v = Some ev" "ev_run ev = []"
    and "select_workflow (db w) (ev_tenant ev) (ev_event ev) = Some (wid, sj)" "decode_steps sj = Some steps"
    and "resolvable (db w) ev steps"
    and "s \<in> set (fst (run_plan steps (ev_payload ev) 0))" "st_channel s = ''email''" "opted (db w) ev s"
    and "email_address E (db w) (job_of ev s []) = Some a"
    and "\<not> suppressed_in (tctx (ev_tenant ev)) (db w) (ev_tenant ev) ''email'' (hashValue a)"
    and "email_content E (db w) (job_of ev s []) = Some c"
  shows "wp (engine_consume msg) (\<lambda>x w1. x = Ack \<and> (\<exists>nid.
      (ChannelSubject (ev_tenant ev) ''email'', encode_job (job_of ev s nid)) \<in> set (bus w1)
      \<and> (\<forall>msg2. m_json msg2 = Some (encode_job (job_of ev s nid)) \<longrightarrow>
            wp (email_consume E P F msg2) (mailed E P F (job_of ev s nid) a c w1) w1))) w"
proof -
  have "saved w = None" using assms(1) by (simp add: at_ease_def)
  from wp_event_tx [OF this, of ev]
  have "wp (engine_consume msg) (\<lambda>x w1. x = Ack \<longrightarrow> (\<exists>wa wb. db wa = db w \<and> bus wa = bus w
      \<and> processed ev wa wb \<and> db w1 = db wb \<and> bus w1 = bus wb)) w"
    unfolding engine_consume_def engine_handle_def using assms(3-5)
    apply simp
    apply (erule wp_mono)
    subgoal for r w1 by (cases r) simp_all
    done
  then show ?thesis
  proof (rule wp_conj_imp [OF engine_acknowledges [OF assms(1-8)]], goal_cases)
    case (1 x w1)
    then obtain wa wb where w: "processed ev wa wb" "db wa = db w" "db w1 = db wb" "bus w1 = bus wb" "at_ease w1"
      by blast
    note jobs = processed_jobs [OF w(1), unfolded w(2), OF assms(6,7,9,11)]
    then obtain nid where nid: "(ChannelSubject (ev_tenant ev) ''email'', encode_job (job_of ev s nid)) \<in> set (bus w1)"
      using assms(10) w(4) by auto
    have "wp (email_consume E P F msg2) (mailed E P F (job_of ev s nid) a c w1) w1"
      if "m_json msg2 = Some (encode_job (job_of ev s nid))" for msg2
      by (rule wp_mailed [OF w(5) _ _ _ that])
        (simp_all add: w(3) email_reads [OF jobs(1)] email_of_job [of E _ ev s nid] job_of_fields assms(12-14))
    with nid 1 show ?case by blast
  qed
qed

text \<open>A welcome mail: one step, one provider, which accepts.\<close>

definition mail_step :: step where
  "mail_step = zero_step\<lparr>st_id := ''a'', st_type := StepTypeChannel, st_channel := ''email'', st_template := ''tp1''\<rparr>"

definition journey_db :: db where
  "journey_db = channel_db\<lparr>workflows := [\<lparr>wf_id = ''w1'', wf_tenant = ''t1'', wf_name = ''n'',
     wf_trigger = ''user.welcome'', wf_steps = GArr [GObj [(''id'', GStr ''a''), (''type'', GStr ''channel''),
       (''channel'', GStr ''email''), (''template_id'', GStr ''tp1'')]], wf_active = True, wf_created = 0\<rparr>]\<rparr>"

lemma nat_digits_inj: "nat_digits m = nat_digits n \<Longrightarrow> m = n"
  by (metis option.inject read_digits_nat)

lemma unused_world0: "row_ids d \<subseteq> {''n1''} \<Longrightarrow> unused_ids (world0 d)"
proof -
  have "fresh (world0 d) n \<noteq> ''n1''" for n by (simp add: world0_def)
  moreover have "inj (fresh (world0 d))" by (rule injI, rule nat_digits_inj) (simp add: world0_def)
  moreover assume "row_ids d \<subseteq> {''n1''}"
  ultimately show ?thesis unfolding unused_ids_def by (auto simp: world0_def)
qed

theorem event_becomes_email_witness:
  "wp (engine_consume signup_msg) (\<lambda>x w1. x = Ack \<and> (\<exists>nid.
      (ChannelSubject ''t1'' ''email'', encode_job (job_of signup mail_step nid)) \<in> set (bus w1)
      \<and> (\<forall>msg2. m_json msg2 = Some (encode_job (job_of signup mail_step nid)) \<longrightarrow>
            wp (email_consume sample_env (Some (NewResend sample_env ''k1'')) None msg2)
              (mailed sample_env (Some (NewResend sample_env ''k1'')) None (job_of signup mail_step nid) ''enc-mail''
                \<lparr>rd_subject = ''Hi'', rd_body = ''Hello''\<rparr> w1) w1))) (world0 journey_db)"
proof -
  have steps: "decode_steps (GArr [GObj [(''id'', GStr ''a''), (''type'', GStr ''channel''),
      (''channel'', GStr ''email''), (''template_id'', GStr ''tp1'')]]) = Some [mail_step]"
    by (simp add: json_get_defs lower_c_def ccode_def step_type_of_def mail_step_def zero_step_def)
  have "mail_step \<in> set (fst (run_plan [mail_step] (ev_payload signup) 0))"
    by (simp add: run_plan_def max_iterations_def plan.simps mail_step_def zero_step_def nextIndex_def idxByID_def)
  note reached = this
  have t: "ev_tenant signup = ''t1''" by (simp add: signup_def)
  have ids: "unused_ids (world0 journey_db)"
    by (rule unused_world0) (simp add: row_ids_def journey_db_def channel_db_def sample_defs)
  have opted: "opted (db (world0 journey_db)) signup mail_step"
    by (simp add: opted_def opted_in_row_def journey_db_def channel_db_def sample_defs)
  have found: "select_workflow (db (world0 journey_db)) (ev_tenant signup) (ev_event signup)
    = Some (''w1'', GArr [GObj [(''id'', GStr ''a''), (''type'', GStr ''channel''),
        (''channel'', GStr ''email''), (''template_id'', GStr ''tp1'')]])"
    by (simp add: select_workflow_def signup_def journey_db_def channel_db_def sample_defs)
  have refs: "resolvable (db (world0 journey_db)) signup [mail_step]"
    by (simp add: resolvable_def step_ok_def signup_def mail_step_def journey_db_def channel_db_def sample_defs
        channels_def)
  have address: "email_address sample_env (db (world0 journey_db)) (job_of signup mail_step []) = Some ''enc-mail''"
    by (simp add: email_address_def email_select_def select_subscriber_def sees_def tctx_def job_of_fields
        signup_def journey_db_def channel_defs sample_defs notify_decrypt_def)
  have content: "email_content sample_env (db (world0 journey_db)) (job_of signup mail_step [])
      = Some \<lparr>rd_subject = ''Hi'', rd_body = ''Hello''\<rparr>"
    by (simp add: email_content_def select_template_def job_of_fields signup_def mail_step_def zero_step_def
        journey_db_def channel_defs sample_defs Render_def)
  show ?thesis
    by (rule event_becomes_email [OF _ ids _ event_decode _ found steps refs reached _ opted address _ content, unfolded t])
      (simp_all add: at_ease_def saved_def world0_def signup_msg_def signup_def mail_step_def suppressed_in_def
        journey_db_def channel_db_def sample_db_def empty_db_def)
qed

end
