(* ===== verification/Processes.thy ===== *)
theory Processes
  imports Deployment System
begin

text \<open>
  The \<^verbatim>\<open>main\<close> functions of \<^verbatim>\<open>cmd/worker\<close>, \<^verbatim>\<open>cmd/workflow\<close>, \<^verbatim>\<open>cmd/analytics\<close> and \<^verbatim>\<open>cmd/scheduler\<close>,
  and the start of \<^verbatim>\<open>cmd/server\<close>:
  connecting, ensuring the streams, creating the consumer, and the loop that takes messages from it.
  What the outside answers on the way, and what arrives in the loop, are arguments. The loops
  answer every message, and the processes are histories of the system, so that what holds for
  those holds for every process.
\<close>

section \<open>Consumers\<close>

text \<open>\<^verbatim>\<open>jetstream.ConsumerConfig\<close>, with the stream; times in nanoseconds. A zero is the server's default, no limit for \<^verbatim>\<open>MaxDeliver\<close>.\<close>

record consumer_config =
  cc_stream :: string
  cc_name :: string
  cc_ack_wait :: int
  cc_max_pending :: nat
  cc_max_deliver :: nat
  cc_filters :: "string list"

definition secs :: "int \<Rightarrow> int" where "secs n = n * 10 ^ 9"

definition email_consumer :: consumer_config where
  "email_consumer = \<lparr>cc_stream = ''NOTIFY_EMAIL'', cc_name = ''email-worker'', cc_ack_wait = secs 60,
     cc_max_pending = 50, cc_max_deliver = DefaultMaxDeliver, cc_filters = []\<rparr>"

definition sms_consumer :: consumer_config where
  "sms_consumer = \<lparr>cc_stream = ''NOTIFY_SMS'', cc_name = ''sms-worker'', cc_ack_wait = secs 60,
     cc_max_pending = 50, cc_max_deliver = DefaultMaxDeliver, cc_filters = []\<rparr>"

definition wa_consumer :: consumer_config where
  "wa_consumer = \<lparr>cc_stream = ''NOTIFY_WHATSAPP'', cc_name = ''whatsapp-worker'', cc_ack_wait = secs 60,
     cc_max_pending = 50, cc_max_deliver = DefaultMaxDeliver, cc_filters = []\<rparr>"

definition webhook_consumer :: consumer_config where
  "webhook_consumer = \<lparr>cc_stream = ''NOTIFY_WEBHOOK'', cc_name = ''webhook-worker'', cc_ack_wait = secs 90,
     cc_max_pending = 50, cc_max_deliver = maxRetries, cc_filters = []\<rparr>"

definition inapp_consumer :: consumer_config where
  "inapp_consumer = \<lparr>cc_stream = ''NOTIFY_INAPP'', cc_name = ''inapp-worker'', cc_ack_wait = secs 30,
     cc_max_pending = 100, cc_max_deliver = DefaultMaxDeliver, cc_filters = []\<rparr>"

definition engine_consumer :: consumer_config where
  "engine_consumer = \<lparr>cc_stream = ''NOTIFY_EVENTS'', cc_name = ''workflow-engine'', cc_ack_wait = secs 30,
     cc_max_pending = 100, cc_max_deliver = 0, cc_filters = []\<rparr>"

definition aggregator_consumer :: consumer_config where
  "aggregator_consumer = \<lparr>cc_stream = ''NOTIFY_DELIVERY'', cc_name = ''analytics-aggregator'', cc_ack_wait = secs 30,
     cc_max_pending = 500, cc_max_deliver = 0, cc_filters = []\<rparr>"

definition federation_consumer :: consumer_config where
  "federation_consumer = \<lparr>cc_stream = ''QEETID_USERS'', cc_name = ''qeet-notify-federation'', cc_ack_wait = 0,
     cc_max_pending = 100, cc_max_deliver = 0,
     cc_filters = [''qeet-id.*.user.created'', ''qeet-id.*.user.updated'', ''qeet-id.*.user.deleted'']\<rparr>"

section \<open>The loops\<close>

text \<open>
  What a turn of the loop meets: a cancelled context (seen at the top or when the wait for a message
  ends with it), an error of the wait, or a message. A list is what has happened so far.
\<close>

datatype arrival = Cancelled | Receive_Error | Message js_msg

datatype loop_end = Waiting | Returned | Crashed

fun pull_loop :: "(js_msg \<Rightarrow> disposition option app) \<Rightarrow> arrival list \<Rightarrow> (loop_end \<times> disposition list) app" where
  "pull_loop c [] = ret (Waiting, [])"
| "pull_loop c (Cancelled # as) = ret (Returned, [])"
| "pull_loop c (Receive_Error # as) = pull_loop c as"
| "pull_loop c (Message m # as) = do {
     x \<leftarrow> c m;
     case x of None \<Rightarrow> ret (Crashed, [])
     | Some d \<Rightarrow> do { r \<leftarrow> pull_loop c as; ret (fst r, d # snd r) } }"

text \<open>The loops of the engine, the aggregator and federation have handlers without a panic.\<close>

definition always :: "(js_msg \<Rightarrow> disposition app) \<Rightarrow> js_msg \<Rightarrow> disposition option app" where
  "always c m = do { d \<leftarrow> c m; ret (Some d) }"

text \<open>The outside: what the libraries answer to the calls that connect a process.\<close>

record outside =
  os_load :: "config res"
  os_db_parse :: "string \<Rightarrow> unit res"
  os_db_open :: "string \<Rightarrow> unit res"
  os_db_ping :: "string \<Rightarrow> unit res"
  os_redis :: "string \<Rightarrow> bool"
  os_nats :: "string \<Rightarrow> unit res"
  os_jetstream :: "string \<Rightarrow> unit res"
  os_stream :: "stream_config \<Rightarrow> unit res"
  os_consumer :: "consumer_config \<Rightarrow> unit res"
  os_messages :: "string \<Rightarrow> unit res"

definition wrapping :: "string \<Rightarrow> 'a res \<Rightarrow> ('a \<Rightarrow> 'b res) \<Rightarrow> 'b res" where
  "wrapping what r k = (case r of Inl e \<Rightarrow> Inl (Wrap what e) | Inr x \<Rightarrow> k x)"

type_synonym served = "(loop_end \<times> disposition list) res"

definition run_consumer :: "outside \<Rightarrow> consumer_config \<Rightarrow> string \<Rightarrow> string \<Rightarrow>
    (js_msg \<Rightarrow> disposition option app) \<Rightarrow> arrival list \<Rightarrow> served app" where
  "run_consumer S cfg what1 what2 c as = (case os_consumer S cfg of Inl e \<Rightarrow> ret (Inl (Wrap what1 e))
   | Inr _ \<Rightarrow> (case os_messages S (cc_name cfg) of Inl e \<Rightarrow> ret (Inl (Wrap what2 e))
     | Inr _ \<Rightarrow> do { r \<leftarrow> pull_loop c as; ret (Inr r) }))"

definition email_Run :: "outside \<Rightarrow> (js_msg \<Rightarrow> disposition option app) \<Rightarrow> arrival list \<Rightarrow> served app" where
  "email_Run S = run_consumer S email_consumer ''create email consumer'' ''subscribe email''"

definition sms_Run :: "outside \<Rightarrow> (js_msg \<Rightarrow> disposition option app) \<Rightarrow> arrival list \<Rightarrow> served app" where
  "sms_Run S = run_consumer S sms_consumer ''create sms consumer'' ''subscribe sms''"

definition wa_Run :: "outside \<Rightarrow> (js_msg \<Rightarrow> disposition option app) \<Rightarrow> arrival list \<Rightarrow> served app" where
  "wa_Run S = run_consumer S wa_consumer ''create whatsapp consumer'' ''subscribe whatsapp''"

definition webhook_Run :: "outside \<Rightarrow> (js_msg \<Rightarrow> disposition option app) \<Rightarrow> arrival list \<Rightarrow> served app" where
  "webhook_Run S = run_consumer S webhook_consumer ''create webhook consumer'' ''subscribe webhook''"

definition inapp_Run :: "outside \<Rightarrow> (js_msg \<Rightarrow> disposition option app) \<Rightarrow> arrival list \<Rightarrow> served app" where
  "inapp_Run S = run_consumer S inapp_consumer ''create inapp consumer'' ''subscribe inapp''"

definition engine_Run :: "outside \<Rightarrow> arrival list \<Rightarrow> served app" where
  "engine_Run S = run_consumer S engine_consumer ''create consumer'' ''subscribe'' (always engine_consume)"

definition aggregator_Run :: "outside \<Rightarrow> arrival list \<Rightarrow> served app" where
  "aggregator_Run S = run_consumer S aggregator_consumer ''create analytics consumer'' ''subscribe analytics''
     (always aggregator_consume)"

text \<open>Federation takes a missing stream for the absence of qeet-id.\<close>

definition Federate :: "outside \<Rightarrow> env \<Rightarrow> arrival list \<Rightarrow> served app" where
  "Federate S E as = (case os_consumer S federation_consumer of Inl e \<Rightarrow> ret (Inr (Returned, []))
   | Inr _ \<Rightarrow> (case os_messages S (cc_name federation_consumer) of
       Inl e \<Rightarrow> ret (Inl (Wrap ''subscribe to qeet-id events'' e))
     | Inr _ \<Rightarrow> do { r \<leftarrow> pull_loop (always (federate E)) as; ret (Inr r) }))"

text \<open>The scheduler's loop: \<open>True\<close> is a tick of its ticker, \<open>False\<close> the end of the context.\<close>

fun scheduler_Run :: "scheduler \<Rightarrow> bool list \<Rightarrow> loop_end app" where
  "scheduler_Run sch [] = ret Waiting"
| "scheduler_Run sch (False # ts) = ret Returned"
| "scheduler_Run sch (True # ts) = do { Tick sch; scheduler_Run sch ts }"

section \<open>Starting a process\<close>

definition database_New :: "outside \<Rightarrow> string \<Rightarrow> unit res" where
  "database_New S url = wrapping ''parse db config'' (os_db_parse S url) (\<lambda>_.
     wrapping ''open db pool'' (os_db_open S url) (\<lambda>_.
     wrapping ''ping db'' (os_db_ping S url) (\<lambda>_. Inr ())))"

definition messaging_New :: "outside \<Rightarrow> string \<Rightarrow> unit res" where
  "messaging_New S url = wrapping ''connect to NATS'' (os_nats S url) (\<lambda>_.
     wrapping ''create JetStream context'' (os_jetstream S url) (\<lambda>_. Inr ()))"

text \<open>The part all four programs share: configuration, database, NATS.\<close>

definition connect :: "outside \<Rightarrow> config res" where
  "connect S = wrapping ''load config'' (os_load S) (\<lambda>cfg.
     wrapping ''connect to database'' (database_New S (cf_database_url cfg)) (\<lambda>_.
     wrapping ''connect to NATS'' (messaging_New S (cf_nats_url cfg)) (\<lambda>_. Inr cfg)))"

text \<open>An error of the loop ends the program with a message.\<close>

definition fatal :: "string \<Rightarrow> 'a res app \<Rightarrow> 'a res app" where
  "fatal what m = on_err m (\<lambda>e. ret (Inl (Wrap what e))) (\<lambda>r. ret (Inr r))"

definition with_streams :: "outside \<Rightarrow> 'a res app \<Rightarrow> 'a res app" where
  "with_streams S m = on_err (EnsureStreams (\<lambda>d. ret (os_stream S d)))
     (\<lambda>e. ret (Inl (Wrap ''ensure NATS streams'' e))) (\<lambda>_. m)"

definition workflow_main :: "outside \<Rightarrow> arrival list \<Rightarrow> served app" where
  "workflow_main S as = (case connect S of Inl e \<Rightarrow> ret (Inl e)
   | Inr cfg \<Rightarrow> with_streams S (fatal ''workflow engine error'' (engine_Run S as)))"

definition scheduler_main :: "outside \<Rightarrow> bool list \<Rightarrow> loop_end res app" where
  "scheduler_main S ts = (case connect S of Inl e \<Rightarrow> ret (Inl e)
   | Inr cfg \<Rightarrow> with_streams S (do { r \<leftarrow> scheduler_Run scheduler_New ts; ret (Inr r) }))"

definition analytics_main :: "outside \<Rightarrow> arrival list \<Rightarrow> served app" where
  "analytics_main S as = (case connect S of Inl e \<Rightarrow> ret (Inl e)
   | Inr cfg \<Rightarrow> fatal ''analytics aggregator error'' (aggregator_Run S as))"

text \<open>The API server, up to its listeners, which \<open>listen\<close> stands for.\<close>

definition server_connect :: "outside \<Rightarrow> config res" where
  "server_connect S = wrapping ''load config'' (os_load S) (\<lambda>cfg.
     wrapping ''connect to database'' (database_New S (cf_database_url cfg)) (\<lambda>_.
     wrapping ''connect to redis'' (if os_redis S (cf_redis_url cfg) then Inr () else Inl (Err ''redis url'')) (\<lambda>_.
     wrapping ''connect to NATS'' (messaging_New S (cf_nats_url cfg)) (\<lambda>_. Inr cfg))))"

definition server_main :: "outside \<Rightarrow> (config \<Rightarrow> 'a res app) \<Rightarrow> 'a res app" where
  "server_main S listen = (case server_connect S of Inl e \<Rightarrow> ret (Inl e)
   | Inr cfg \<Rightarrow> with_streams S (listen cfg))"

text \<open>The worker of a channel: its consumer and the \<^verbatim>\<open>Run\<close> that carries it.\<close>

definition worker_config :: "string \<Rightarrow> consumer_config" where
  "worker_config channel = (if channel = ''email'' then email_consumer else if channel = ''sms'' then sms_consumer
     else if channel = ''whatsapp'' then wa_consumer else if channel = ''inapp'' then inapp_consumer
     else webhook_consumer)"

definition worker_Run :: "outside \<Rightarrow> string \<Rightarrow> (js_msg \<Rightarrow> disposition option app) \<Rightarrow> arrival list \<Rightarrow> served app" where
  "worker_Run S channel = (if channel = ''email'' then email_Run S else if channel = ''sms'' then sms_Run S
     else if channel = ''whatsapp'' then wa_Run S else if channel = ''inapp'' then inapp_Run S else webhook_Run S)"

definition worker_process :: "env \<Rightarrow> outside \<Rightarrow> string \<Rightarrow> arrival list \<Rightarrow> served app" where
  "worker_process E S channel as =
     (if channel = [] then ret (Inl (Err ''-channel required: email|sms|whatsapp|push|webhook''))
      else case connect S of Inl e \<Rightarrow> ret (Inl e)
      | Inr cfg \<Rightarrow> (case worker_main E (os_redis S) cfg channel of Inl e \<Rightarrow> ret (Inl e)
        | Inr c \<Rightarrow> fatal (channel @ '' worker'') (worker_Run S channel c as)))"

section \<open>What a loop answers\<close>

text \<open>The messages before the end of the context.\<close>

fun heard :: "arrival list \<Rightarrow> js_msg list" where
  "heard [] = []"
| "heard (Cancelled # as) = []"
| "heard (Receive_Error # as) = heard as"
| "heard (Message m # as) = m # heard as"

definition ended :: "arrival list \<Rightarrow> loop_end" where
  "ended as = (if Cancelled \<in> set as then Returned else Waiting)"

lemma ended_simps [simp]: "ended [] = Waiting" "ended (Cancelled # as) = Returned"
  "ended (Receive_Error # as) = ended as" "ended (Message m # as) = ended as"
  by (simp_all add: ended_def)

lemma loop_answers_all:
  assumes "\<And>m. gives (\<lambda>r. r \<noteq> None) (c m)"
  shows "gives (\<lambda>r. fst r = ended as \<and> length (snd r) = length (heard as)) (pull_loop c as)"
proof (induction as rule: heard.induct)
  case (4 m as)
  show ?case
    unfolding pull_loop.simps
    by (rule gives_after [OF assms]) (auto intro!: gives_after [OF 4] gives_return)
qed (auto intro: gives_return)

text \<open>What a loop does to the world is what its handler does for one message after the other.\<close>

lemma loop_is_each:
  assumes "\<And>m. gives (\<lambda>r. r \<noteq> None) (c m)"
  shows "snd (run_state (pull_loop c as) w) = snd (run_state (for_each (heard as) (\<lambda>m. do { _ \<leftarrow> c m; ret () })) w)"
proof (induction as arbitrary: w rule: heard.induct)
  case (4 m as)
  obtain x s where x: "run_state (c m) w = (x, s)" by fastforce
  then obtain d where "x = Some d" using givesD [OF assms x] by auto
  with x 4 show ?case by (simp add: run_defs case_prod_beta)
qed simp_all

lemma gives_always: "gives (\<lambda>r. r \<noteq> None) (always c m)"
  unfolding always_def by (intro gives_bind gives_return) simp

text \<open>A process takes turns of the system.\<close>

lemma loop_in_history:
  assumes turn: "\<And>m v x v'. run_state (c m) v = (x, v') \<Longrightarrow> turn E P F P' F' Q v v'"
    and "history E P F P' F' Q w0 w"
  shows "history E P F P' F' Q w0 (snd (run_state (pull_loop c as) w))"
  using assms(2)
proof (induction as arbitrary: w rule: heard.induct)
  case (4 m as)
  obtain x v where x: "run_state (c m) w = (x, v)" by fastforce
  have v: "history E P F P' F' Q w0 v" by (rule history.turn [OF 4(2) turn [OF x]])
  from x v 4(1) [OF v] show ?case by (cases x) (simp_all add: run_defs case_prod_beta)
qed simp_all

lemma always_turn:
  "(\<And>x v'. run_state (c m) v = (x, v') \<Longrightarrow> turn E P F P' F' Q v v') \<Longrightarrow> run_state (always c m) v = (y, v') \<Longrightarrow>
    turn E P F P' F' Q v v'"
  by (auto simp: always_def run_defs case_prod_beta prod_eq_iff)

text \<open>
  A process that cannot start changes nothing; one that can, answers every message and takes turns of
  the system only.
\<close>

definition serves :: "bool \<Rightarrow> (world \<Rightarrow> world \<Rightarrow> bool) \<Rightarrow> arrival list \<Rightarrow> world \<Rightarrow> served \<Rightarrow> world \<Rightarrow> bool" where
  "serves up H as w r w' \<longleftrightarrow> (case r of Inl e \<Rightarrow> \<not> up \<and> w' = w
     | Inr (l, ds) \<Rightarrow> up \<and> l = ended as \<and> length ds = length (heard as) \<and> H w w')"

lemma serves_error [simp]: "serves up H as w (Inl e) w' \<longleftrightarrow> \<not> up \<and> w' = w"
  by (simp add: serves_def)

definition consumable :: "outside \<Rightarrow> consumer_config \<Rightarrow> bool" where
  "consumable S cfg \<longleftrightarrow> \<not> isl (os_consumer S cfg) \<and> \<not> isl (os_messages S (cc_name cfg))"

lemma run_consumer_serves:
  assumes "\<And>m. gives (\<lambda>r. r \<noteq> None) (c m)"
    and "\<And>m v x v'. run_state (c m) v = (x, v') \<Longrightarrow> turn E P F P' F' Q v v'"
  shows "wp (run_consumer S cfg a b c as) (serves (consumable S cfg) (history E P F P' F' Q) as w) w"
proof -
  have "history E P F P' F' Q w (snd (run_state (pull_loop c as) w))"
    by (rule loop_in_history [OF assms(2) history.start])
  moreover have "fst (fst (run_state (pull_loop c as) w)) = ended as"
    "length (snd (fst (run_state (pull_loop c as) w))) = length (heard as)"
    using loop_answers_all [of c as] assms(1) by (auto simp: gives_def)
  ultimately have "wp (pull_loop c as) (\<lambda>r w'. serves True (history E P F P' F' Q) as w (Inr r) w') w"
    by (simp add: wp_def serves_def case_prod_beta)
  then show ?thesis by (simp add: run_consumer_def consumable_def split: sum.splits)
qed

lemma wp_fatal: "wp m (serves up H as w) s \<Longrightarrow> wp (fatal what m) (serves up H as w) s"
  unfolding fatal_def wp_on_err by (erule wp_mono) (auto simp: serves_def split: sum.splits)

definition streams_ready :: "outside \<Rightarrow> bool" where
  "streams_ready S \<longleftrightarrow> list_all (\<lambda>d. \<not> isl (os_stream S d)) streamDefs"

lemma wp_ensure:
  "wp (ensure_streams (\<lambda>d. ret (f d)) ds) (\<lambda>r w'. w' = w \<and> (isl r \<longleftrightarrow> \<not> list_all (\<lambda>d. \<not> isl (f d)) ds)) w"
  by (induction ds) (auto simp: wp_on_err split: sum.splits)

lemma wp_with_streams:
  assumes "streams_ready S \<Longrightarrow> wp m Q w" "\<And>e. \<not> streams_ready S \<Longrightarrow> Q (Inl e) w"
  shows "wp (with_streams S m) Q w"
  unfolding with_streams_def EnsureStreams_def wp_on_err
  by (rule wp_mono [OF wp_ensure]) (use assms in \<open>auto simp: streams_ready_def split: sum.splits\<close>)

lemma worker_turns:
  assumes "worker_main E redis cfg ch = Inr c"
  shows "\<exists>P F P' F' Q. \<forall>m v x v'. run_state (c m) v = (x, v') \<longrightarrow>
    turn (E\<lparr>e_key := cf_encryption_key cfg\<rparr>) P F P' F' Q v v'"
  using assms
  by (auto simp: worker_main_def Let_def split: if_splits sum.splits)
    (blast intro: turn.email turn.sms turn.whatsapp turn.webhook turn.inapp)+

definition worker_up :: "env \<Rightarrow> outside \<Rightarrow> string \<Rightarrow> bool" where
  "worker_up E S ch \<longleftrightarrow> ch \<noteq> [] \<and> (case connect S of Inl _ \<Rightarrow> False
     | Inr cfg \<Rightarrow> \<not> isl (worker_main E (os_redis S) cfg ch) \<and> consumable S (worker_config ch))"

lemma worker_serves:
  "wp (worker_process E S ch as)
    (serves (worker_up E S ch) (\<lambda>v v'. \<exists>k P F P' F' Q. history (E\<lparr>e_key := k\<rparr>) P F P' F' Q v v') as w) w"
proof (cases "ch = [] \<or> isl (connect S)")
  case True
  then show ?thesis by (auto simp: worker_process_def worker_up_def split: sum.splits)
next
  case False
  then obtain cfg where cfg: "ch \<noteq> []" "connect S = Inr cfg" by (cases "connect S") auto
  show ?thesis
  proof (cases "worker_main E (os_redis S) cfg ch")
    case (Inl e)
    with cfg show ?thesis by (simp add: worker_process_def worker_up_def)
  next
    case (Inr c)
    from worker_turns [OF this] obtain P F P' F' Q where
      t: "run_state (c m) v = (x, v') \<Longrightarrow> turn (E\<lparr>e_key := cf_encryption_key cfg\<rparr>) P F P' F' Q v v'" for m v x v'
      by blast
    have "wp (worker_Run S ch c as)
        (serves (consumable S (worker_config ch)) (history (E\<lparr>e_key := cf_encryption_key cfg\<rparr>) P F P' F' Q) as w) w"
      unfolding worker_Run_def email_Run_def sms_Run_def wa_Run_def inapp_Run_def webhook_Run_def worker_config_def
      using run_consumer_serves [of c, OF deployed_crashless [OF Inr] t] by (simp del: not_None_eq)
    then have "wp (worker_Run S ch c as) (serves (worker_up E S ch)
        (\<lambda>v v'. \<exists>k P F P' F' Q. history (E\<lparr>e_key := k\<rparr>) P F P' F' Q v v') as w) w"
      using cfg Inr by (elim wp_mono) (auto simp: serves_def worker_up_def split: sum.splits; blast)
    then show ?thesis using cfg Inr by (simp add: worker_process_def wp_fatal)
  qed
qed

lemma consumers_serve:
  "wp (workflow_main S as) (serves (\<not> isl (connect S) \<and> streams_ready S \<and> consumable S engine_consumer)
     (history E P F P' F' Q) as w) w"
  "wp (analytics_main S as) (serves (\<not> isl (connect S) \<and> consumable S aggregator_consumer)
     (history E P F P' F' Q) as w) w"
proof -
  have "wp (engine_Run S as) (serves (consumable S engine_consumer) (history E P F P' F' Q) as w) w"
    "wp (aggregator_Run S as) (serves (consumable S aggregator_consumer) (history E P F P' F' Q) as w) w"
    unfolding engine_Run_def aggregator_Run_def
    by (intro run_consumer_serves gives_always; erule always_turn [rotated]; blast intro: turn.engine turn.aggregator)+
  then show "wp (workflow_main S as) (serves (\<not> isl (connect S) \<and> streams_ready S \<and> consumable S engine_consumer)
     (history E P F P' F' Q) as w) w"
    "wp (analytics_main S as) (serves (\<not> isl (connect S) \<and> consumable S aggregator_consumer)
     (history E P F P' F' Q) as w) w"
    by (auto simp: workflow_main_def analytics_main_def intro!: wp_with_streams wp_fatal split: sum.splits)
qed

lemma scheduler_Run_history:
  "history E P F P' F' Q w0 w \<Longrightarrow> wp (scheduler_Run sch ts)
    (\<lambda>l w'. l = (if False \<in> set ts then Returned else Waiting) \<and> history E P F P' F' Q w0 w') w"
proof (induction ts arbitrary: w)
  case (Cons b ts)
  show ?case
  proof (cases b)
    case True
    have "wp (Tick sch) (\<lambda>_. history E P F P' F' Q w0) w"
      unfolding wp_def using history.turn [OF Cons.prems turn.scheduler] by (auto split: prod.splits)
    moreover have "(b # ts) = (True # ts)" using True by simp
    ultimately show ?thesis
      by (simp only: scheduler_Run.simps wp_bind) (erule wp_mono, simp add: Cons.IH del: if_split)
  qed (use Cons.prems in simp)
qed simp

definition serves_ticks :: "bool \<Rightarrow> (world \<Rightarrow> world \<Rightarrow> bool) \<Rightarrow> bool list \<Rightarrow> world \<Rightarrow> loop_end res \<Rightarrow> world \<Rightarrow> bool" where
  "serves_ticks up H ts w r w' \<longleftrightarrow> (case r of Inl e \<Rightarrow> \<not> up \<and> w' = w
     | Inr l \<Rightarrow> up \<and> l = (if False \<in> set ts then Returned else Waiting) \<and> H w w')"

lemma scheduler_serves:
  "wp (scheduler_main S ts) (serves_ticks (\<not> isl (connect S) \<and> streams_ready S) (history E P F P' F' Q) ts w) w"
proof -
  have "wp (do { r \<leftarrow> scheduler_Run scheduler_New ts; ret (Inr r) }) (\<lambda>r w'. case r of Inl e \<Rightarrow> False
     | Inr l \<Rightarrow> l = (if False \<in> set ts then Returned else Waiting) \<and> history E P F P' F' Q w w') w"
    using scheduler_Run_history [OF history.start] by simp
  then show ?thesis
    unfolding scheduler_main_def serves_ticks_def
    by (cases "connect S") (auto intro!: wp_with_streams elim!: wp_mono simp del: wp_bind split: sum.splits)
qed

text \<open>Federation, which no \<^verbatim>\<open>main\<close> starts, is a history as well, the empty one without its stream.\<close>

lemma Federate_history:
  "wp (Federate S E as) (\<lambda>r w'. history E P F P' F' Q w w' \<and> (isl r \<longrightarrow> w' = w)) w"
proof -
  have "history E P F P' F' Q w (snd (run_state (pull_loop (always (federate E)) as) w))"
    by (rule loop_in_history [OF _ history.start]) (erule always_turn [rotated], erule turn.federation)
  then show ?thesis by (auto simp: Federate_def wp_def run_defs case_prod_beta history.start split: sum.splits)
qed

text \<open>
  A server that cannot ensure its streams ends with an error before it serves, the world untouched.
\<close>

lemma server_needs_streams: "\<not> streams_ready S \<Longrightarrow> wp (server_main S listen) (\<lambda>r w'. isl r \<and> w' = w) w"
  by (auto simp: server_main_def intro!: wp_with_streams split: sum.splits)

section \<open>Limits\<close>

definition consumers :: "consumer_config list" where
  "consumers = [engine_consumer, email_consumer, sms_consumer, wa_consumer, inapp_consumer, webhook_consumer,
     aggregator_consumer, federation_consumer]"

lemmas consumer_defs = consumers_def engine_consumer_def email_consumer_def sms_consumer_def wa_consumer_def
  inapp_consumer_def webhook_consumer_def aggregator_consumer_def federation_consumer_def

text \<open>
  A work queue has one reader, and every stream is read by somebody, but for two: the dead letters, and
  the push jobs, which the engine queues all the same.
\<close>

lemma unread_streams:
  "distinct (map cc_stream consumers)"
  "map sc_name (filter (\<lambda>s. sc_name s \<notin> cc_stream ` set consumers) streamDefs) = [''NOTIFY_PUSH'', ''NOTIFY_DLQ'']"
  by (simp_all add: consumer_defs streamDefs_def)

text \<open>The channel workers dead-letter a job at its last delivery.\<close>

lemma dead_letter_limits:
  "email_consume E P F = worker_consume (cc_max_deliver email_consumer) (email_handle E P F)"
  "wa_consume E Q = worker_consume (cc_max_deliver wa_consumer) (wa_handle E Q)"
  "webhook_consume E = worker_consume (cc_max_deliver webhook_consumer) (webhook_handle E)"
  "inapp_consume = worker_consume (cc_max_deliver inapp_consumer) inapp_handle"
  by (simp_all add: email_consume_def wa_consume_def webhook_consume_def inapp_consume_def consumer_defs)

text \<open>
  The engine has no such limit. A message that is no event is handed back at every delivery, without
  a trace; nothing ever takes it off the stream before its age.
\<close>

lemma malformed_event_comes_back:
  assumes "Option.bind (m_json m) decode_event = None" "os_consumer S engine_consumer = Inr u" "os_messages S ''workflow-engine'' = Inr u'"
  shows "run_state (engine_Run S (replicate n (Message m))) w = (Inr (Waiting, replicate n Nak), w)"
proof -
  have "run_state (pull_loop (always engine_consume) (replicate n (Message m))) w = ((Waiting, replicate n Nak), w)"
    using assms(1) by (induction n) (simp_all add: run_defs always_def engine_consume_def engine_handle_def on_err_def)
  then show ?thesis
    using assms(2,3) by (simp add: engine_Run_def run_consumer_def run_defs engine_consumer_def)
qed

lemma malformed_event_comes_back_for_ever:
  "cc_max_deliver engine_consumer = 0" "cc_max_deliver aggregator_consumer = 0"
  by (simp_all add: consumer_defs)

section \<open>Property\<close>

text \<open>
  C38.
  The processes serve. A worker, the engine, the aggregator and the scheduler either cannot start,
  because the configuration or a connection, stream or consumer is refused, and then they change
  nothing; or they run until their context ends, whatever arrives and whatever fails: no message and
  no failed receive stops the loop, every message before the end gets its answer, and what the process
  does to the world is a history of the system.
\<close>

theorem processes_serve:
  "wp (worker_process E S ch as)
     (serves (worker_up E S ch) (\<lambda>v v'. \<exists>k P F P' F' Q. history (E\<lparr>e_key := k\<rparr>) P F P' F' Q v v') as w) w
   \<and> wp (workflow_main S as) (serves (\<not> isl (connect S) \<and> streams_ready S \<and> consumable S engine_consumer)
     (history E P F P' F' Q) as w) w
   \<and> wp (analytics_main S as) (serves (\<not> isl (connect S) \<and> consumable S aggregator_consumer)
     (history E P F P' F' Q) as w) w
   \<and> wp (scheduler_main S ts) (serves_ticks (\<not> isl (connect S) \<and> streams_ready S) (history E P F P' F' Q) ts w) w"
  by (intro conjI worker_serves consumers_serve scheduler_serves)

end
