(* ===== verification/Event_Types.thy ===== *)
theory Event_Types
  imports Reads_Api Workers
begin

text \<open>
  \<^verbatim>\<open>platform/events/types.go\<close>: the message types meant for all services. No package uses them; the
  engine, the workers and the aggregator have types of their own. Two of the three agree on the wire with
  what the services send and read, the third does not.
\<close>

section \<open>The types\<close>

record trigger_event =
  te_tenant :: string
  te_event :: string
  te_subscriber :: string
  te_payload :: gmap
  te_idempotency :: string

record delivery_notice =
  dn_tenant :: string
  dn_notification :: string
  dn_channel :: string
  dn_type :: string
  dn_provider :: string
  dn_error :: "string option"

record dlq_notice =
  dq_tenant :: string
  dq_notification :: string
  dq_channel :: string
  dq_subject :: string
  dq_error :: string

definition encode_trigger :: "trigger_event \<Rightarrow> gval" where
  "encode_trigger e = GObj ([(''tenant_id'', GStr (te_tenant e)), (''event'', GStr (te_event e)),
     (''subscriber_id'', GStr (te_subscriber e))] @ omit_map ''payload'' (te_payload e)
     @ omit_str ''idempotency_key'' (te_idempotency e))"

definition encode_notice :: "delivery_notice \<Rightarrow> gval" where
  "encode_notice e = GObj ([(''tenant_id'', GStr (dn_tenant e)), (''notification_id'', GStr (dn_notification e)),
     (''channel'', GStr (dn_channel e)), (''event_type'', GStr (dn_type e))] @ omit_str ''provider'' (dn_provider e)
     @ (case dn_error e of None \<Rightarrow> [] | Some x \<Rightarrow> [(''error'', GStr x)]))"

fun decode_dlq :: "gval \<Rightarrow> dlq_notice option" where
  "decode_dlq GNil = Some \<lparr>dq_tenant = [], dq_notification = [], dq_channel = [], dq_subject = [], dq_error = []\<rparr>"
| "decode_dlq (GObj m) = (case (jstr m ''tenant_id'', jstr m ''notification_id'', jstr m ''channel'') of
     (Some t, Some n, Some c) \<Rightarrow> (case (jstr m ''original_subject'', jstr m ''last_error'') of
        (Some s, Some e) \<Rightarrow> Some \<lparr>dq_tenant = t, dq_notification = n, dq_channel = c, dq_subject = s, dq_error = e\<rparr>
      | _ \<Rightarrow> None)
   | _ \<Rightarrow> None)"
| "decode_dlq _ = None"

section \<open>On the wire\<close>

text \<open>The engine reads a trigger event as an event of its own, without the idempotency key.\<close>

lemma engine_reads_trigger:
  "decode_event (encode_trigger e) = Some \<lparr>ev_tenant = te_tenant e, ev_subscriber = te_subscriber e,
     ev_event = te_event e, ev_payload = te_payload e, ev_workflow = [], ev_run = []\<rparr>"
  by (simp add: encode_trigger_def omit_map_def omit_str_def json_get_defs)

text \<open>The aggregator reads a delivery notice, without channel and error.\<close>

lemma aggregator_reads_notice:
  "decode_delivery (encode_notice e) = Some \<lparr>dv_notification = dn_notification e, dv_tenant = dn_tenant e,
     dv_type = dn_type e, dv_provider = dn_provider e\<rparr>"
  by (cases "dn_error e") (simp_all add: encode_notice_def omit_str_def json_get_defs)

text \<open>
  The dead letters that \<^verbatim>\<open>HandleFailure\<close> publishes are of another form: who reads one as the shared
  type gets an empty record, whatever the failed message was.
\<close>

lemma dead_letter_unreadable:
  "decode_dlq (dlq_entry subj e n text)
     = Some \<lparr>dq_tenant = [], dq_notification = [], dq_channel = [], dq_subject = [], dq_error = []\<rparr>"
  by (simp add: dlq_entry_def json_get_defs)

section \<open>Stream names\<close>

text \<open>The constants of \<^verbatim>\<open>subjects.go\<close>: the names of \<^verbatim>\<open>streamDefs\<close>, in the same order.\<close>

definition stream_names :: "string list" where
  "stream_names = [''NOTIFY_EVENTS'', ''NOTIFY_EMAIL'', ''NOTIFY_SMS'', ''NOTIFY_WHATSAPP'', ''NOTIFY_PUSH'',
     ''NOTIFY_INAPP'', ''NOTIFY_WEBHOOK'', ''NOTIFY_DELIVERY'', ''NOTIFY_DLQ'']"

lemma stream_names_agree: "map sc_name streamDefs = stream_names"
  by (simp add: streamDefs_def stream_names_def)

end
