(* ===== verification/Spec2Isabelle.thy ===== *)
theory Spec2Isabelle
  imports Condition Messaging Preferences Scheduler Email_Worker Sms_Worker Whatsapp_Worker
    Direct_Workers Events_Api Email_Events Subscribers_Api Catalog_Api
    Admin_Spec Reads_Api Federation Routes Read_Isolation Encryption System Deployment Sdk
    Provider_Copies Dashboard Migrate Journey Processes Event_Types
begin

text \<open>
  A model of Qeet Notify, a multi-tenant notification service in Go, with the theorems that make
  it correct. Paths are relative to \<^verbatim>\<open>src/\<close>.

  \<^bold>\<open>The program.\<close> The API server (\<^verbatim>\<open>cmd/server\<close>) authenticates a request by its API key, opens a
  tenant transaction and serves one of its routes; \<^verbatim>\<open>POST /v1/events\<close> publishes an event on
  the JetStream stream NOTIFY_EVENTS. The engine (\<^verbatim>\<open>cmd/workflow\<close>) consumes the stream, creates a run
  of the matching workflow and walks its steps: a channel step inserts a notification and publishes a
  job on the channel's stream, a delay parks the run in the database, a condition chooses the next
  step. The scheduler (\<^verbatim>\<open>cmd/scheduler\<close>) publishes a resume event for every parked run that is due. The
  channel workers (\<^verbatim>\<open>cmd/worker\<close>) carry the jobs out against the provider of the tenant and publish a
  delivery event, which the aggregator (\<^verbatim>\<open>cmd/analytics\<close>) stores. Providers call back over HTTP; a
  browser follows its in-app messages over server-sent events and Redis. Federation mirrors the users
  of another service as subscribers, the Go client calls the API from outside, and \<^verbatim>\<open>cmd/migrate\<close> moves
  the schema.

  \<^bold>\<open>How it is modelled.\<close> Stateful code is a computation in HOL-Library's state monad over one \<open>world\<close>:
  the tables, the open transaction, the messages published, Redis, the requests sent, the clock and the
  source of new ids. Go's \<open>(T, error)\<close> is \<open>error + T\<close>, a panic of a worker is \<open>None\<close>, and what may fail
  outside the program fails by a schedule in the world, one entry for each database statement,
  publish and Redis command: a theorem for every world holds for every pattern of failures, and "when
  nothing fails" is a hypothesis about the schedule. A process that handles many messages, a sequence of
  requests, and the whole system are lists or inductive relations of such computations
  (\<open>bystanders\<close>, \<open>turn\<close>, \<open>history\<close>), and the loops of the processes are shown to be such
  histories. Theorems are stated with \<open>wp c Q w\<close>: running \<open>c\<close> in \<open>w\<close> yields a result and a world
  with \<open>Q\<close>; as \<open>c\<close> is a function, this says too that it returns.

  \<^bold>\<open>The foundations.\<close>
  \<^item> \<^verbatim>\<open>Prelude\<close>: Go's string functions and errors, \<open>wp\<close>, \<open>keeps\<close> (a relation every run respects), and
    the collections \<open>monad_simps\<close>, \<open>go_simps\<close> and \<open>keeps_rules\<close> that carry the proofs.
  \<^item> \<^verbatim>\<open>Go_Float\<close>, \<^verbatim>\<open>Go_Values\<close>: \<open>float64\<close> with \<open>ParseFloat\<close> and \<open>FormatFloat\<close> where the code needs them,
    and decoded JSON.
  \<^item> \<^verbatim>\<open>World\<close>, \<^verbatim>\<open>World_Logic\<close>: the tables of \<^verbatim>\<open>migrations/\<close> with row-level security and constraints,
    \<^verbatim>\<open>platform/database\<close>'s transactions, and one rule for each statement.
  \<^item> \<^verbatim>\<open>Http\<close>, \<^verbatim>\<open>Redis\<close>, \<^verbatim>\<open>Messaging\<close>: requests and answers, the commands of the cache, and
    \<^verbatim>\<open>platform/messaging\<close> and \<^verbatim>\<open>platform/events\<close> with the dead-letter rule.
  \<^item> \<^verbatim>\<open>Security\<close>, \<^verbatim>\<open>Encryption\<close>: \<^verbatim>\<open>platform/security\<close>, with SHA-256 and HMAC written out on 32-bit words,
    the masks, and the AES-256-GCM envelope with base64.

  \<^bold>\<open>The pipeline.\<close>
  \<^item> \<^verbatim>\<open>Condition\<close>, \<^verbatim>\<open>Engine\<close>, \<^verbatim>\<open>Engine_Spec\<close>: \<^verbatim>\<open>domains/workflows/engine\<close>. \<open>plan\<close> is the abstract
    specification, a walk over the steps without database or bus, and \<open>executeFrom_refines\<close> the
    refinement; atomicity, bounds on what is published, resumption and the cycle guard follow from it.
  \<^item> \<^verbatim>\<open>Scheduler\<close>: \<^verbatim>\<open>domains/scheduler\<close>; a tick is exact or changes nothing.
  \<^item> \<^verbatim>\<open>Preferences\<close>, \<^verbatim>\<open>Compliance\<close>, \<^verbatim>\<open>Providers\<close>: \<^verbatim>\<open>domains/subscribers\<close> (preferences, consent),
    \<^verbatim>\<open>domains/compliance\<close> and \<^verbatim>\<open>domains/templates\<close>, and \<^verbatim>\<open>domains/routing\<close> with the adapters of
    \<^verbatim>\<open>domains/channels\<close>.
  \<^item> \<^verbatim>\<open>Workers\<close>, \<^verbatim>\<open>Email_Worker\<close>, \<^verbatim>\<open>Sms_Worker\<close>, \<^verbatim>\<open>Whatsapp_Worker\<close>, \<^verbatim>\<open>Direct_Workers\<close>:
    \<^verbatim>\<open>domains/channels\<close>. What a job does without failures is compared with a pure send plan
    (\<open>email_plan\<close>), and what it may not do is proved under all failures.
  \<^item> \<^verbatim>\<open>Deployment\<close>: the providers of \<^verbatim>\<open>cmd/worker\<close>, and that no worker it starts panics. \<^verbatim>\<open>Processes\<close>: the
    \<^verbatim>\<open>cmd\<close> programs from their connections to the end of their consumer loops.
  \<^item> \<^verbatim>\<open>Event_Types\<close>: the message types of \<^verbatim>\<open>platform/events\<close>, compared with those in use.
  \<^item> \<^verbatim>\<open>Provider_Copies\<close>: \<^verbatim>\<open>domains/providers\<close>, the second set of adapters, compared with the first.
  \<^item> \<^verbatim>\<open>Journey\<close>: engine and email worker composed, from an event to the mail.

  \<^bold>\<open>The API.\<close>
  \<^item> \<^verbatim>\<open>Middleware\<close>, \<^verbatim>\<open>Dashboard\<close>: \<^verbatim>\<open>platform/api/middleware\<close>.
  \<^item> \<^verbatim>\<open>Api_Logic\<close>, \<^verbatim>\<open>Blindness\<close>: a request in its transaction, and noninterference.
  \<^item> \<^verbatim>\<open>Events_Api\<close>, \<^verbatim>\<open>Email_Events\<close>, \<^verbatim>\<open>Subscribers_Api\<close>, \<^verbatim>\<open>Catalog_Api\<close> (templates and workflows),
    \<^verbatim>\<open>Admin_Api\<close> and \<^verbatim>\<open>Admin_Spec\<close> (keys, providers, DLT), \<^verbatim>\<open>Reads_Api\<close> (history, audit, analytics and
    \<^verbatim>\<open>domains/analytics\<close>): the handlers of \<^verbatim>\<open>platform/api/handler\<close>.
  \<^item> \<^verbatim>\<open>Routes\<close>: the route table of \<^verbatim>\<open>cmd/server\<close>. A history of requests changes no row of a tenant whose
    keys it does not carry. \<^verbatim>\<open>Read_Isolation\<close>: nor do the rows of others show in an answer.
  \<^item> \<^verbatim>\<open>Sdk\<close>: \<^verbatim>\<open>sdk/go\<close>, composed with network, middleware and intake.
  \<^item> \<^verbatim>\<open>Federation\<close>, \<^verbatim>\<open>Migrate\<close>: \<^verbatim>\<open>domains/subscribers/federation\<close> and \<^verbatim>\<open>cmd/migrate\<close>.
  \<^item> \<^verbatim>\<open>Stability\<close>, \<^verbatim>\<open>System\<close>: all routes, workers, consumers and jobs taking turns. What is stored stays
    sealed, suppressed and revoked.

  \<^bold>\<open>Interfaces.\<close> \<open>subject_scheme\<close> (the NATS subjects, whose two copies in the code both provide it),
  \<open>tenant_scoped\<close> (an operation that keeps the rows of other tenants), \<open>tenant_handler\<close> (a handler that
  may stand behind the tenant transaction; every route), \<open>gated_channel\<close> (a worker that reads an
  address, asks the suppression list, then sends), \<open>private_reader\<close> (a handler that answers from its
  tenant's rows) and \<open>guarded_tables\<close> (a property of the tables that every statement of the program
  respects) are locales, interpreted on the model's operations where these are defined.

  \<^bold>\<open>Bounds and fuel.\<close> The step loop is bounded by the code itself: \<open>exec_loop\<close> counts down the guard
  \<open>2 * len + 10\<close> of \<^verbatim>\<open>executeFrom\<close>, with one more for the step at which it fires; the claim on forward
  workflows says when it never does. \<open>deliver\<close> counts the deliveries the bus still has to make, and the
  claim on poison messages runs it with the stream's own limit. The integer roots that yield the hash
  constants are searched bit by bit below \<open>2 ^ 36\<close>, which is 16 times the scale \<open>2 ^ 32\<close> and above all of
  them. Delays and counters wrap where Go's do: \<open>resume_time\<close> multiplies in 64 bits, \<open>Atoi\<close> refuses
  what does not fit, and an \<^verbatim>\<open>int\<close> outside of the column's 32 bits is an error of the statement. All
  other recursions are structural or have a measure, so nothing else runs out.

  \<^bold>\<open>Parameters.\<close> What the code takes from elsewhere is an argument, most of it in the record \<open>env\<close>:
  pgcrypto, the Handlebars renderer, regular expressions, the parser and printer of JSON text, URL
  parsing and the AWS SDK; AES, the JOSE library, the migration library and the network of the client are
  arguments where they occur. Laws they are trusted with (a decrypted ciphertext is the
  plaintext) are premises of the theorems that need them, with an instance in the witness.

  \<^bold>\<open>Not modelled.\<close>
  \<^item> The listeners of the \<^verbatim>\<open>cmd\<close> programs with their timeouts, CORS and shutdown, signals, the closing of
    connections, the loading of the configuration and the pool; a signal is the end of a context, and a
    ticker a list of its ticks.
  \<^item> \<^verbatim>\<open>platform/telemetry\<close>, the Prometheus counters of the aggregator and all logging: no operation reads
    them. \<^verbatim>\<open>platform/storage\<close> and the push channel are placeholders in the source.
  \<^item> chi's \<^verbatim>\<open>RealIP\<close>, \<^verbatim>\<open>Recoverer\<close> and request logging, and the 1 MB limit of a request body.
  \<^item> The columns \<^verbatim>\<open>updated_at\<close>, \<^verbatim>\<open>deleted_at\<close> and \<^verbatim>\<open>read_at\<close>: no query decides by them, and the
    modelled answers leave them out.
  \<^item> The frontend, the other SDKs and the deployment files.

  \<^bold>\<open>Conventions.\<close> A statement runs in one step: interleaving is by whole requests, messages and
  ticks, except where a claim lets another process act between two statements (the idempotency keys). A query that fails does so
  at its call, not half way through its rows. Ids are strings, a malformed one is a failure of the
  schedule; text is ordered by its bytes, not by a collation; servers run in UTC; a nil and an empty map
  are told apart in request bodies only.
\<close>

section \<open>All channels\<close>

definition all_blocked :: "(db \<Rightarrow> channel_job \<Rightarrow> string option) \<Rightarrow> string \<Rightarrow> db \<Rightarrow> js_msg list \<Rightarrow> bool" where
  "all_blocked address ch d ms = list_all (\<lambda>msg. case job_of_msg msg of None \<Rightarrow> True
     | Some j \<Rightarrow> blocked_at address ch d j) ms"

text \<open>
  C5. No channel writes to a suppressed or erased address: however many messages the email, SMS and
  WhatsApp workers consume, in whatever order and with whatever failures, as long as every job
  among them is for a subscriber without an address or with a suppressed one, nothing is sent, no
  transaction stays open, and the database changes in its notifications only.
\<close>

theorem suppressed_never_sent:
  assumes "saved w = None"
  shows "(all_blocked (email_address E) ''email'' (db w) ms \<longrightarrow>
      wp (for_each ms (\<lambda>m. do { _ \<leftarrow> email_consume E P F m; ret () })) (\<lambda>_. held w) w)
    \<and> (all_blocked (sms_address E) ''sms'' (db w) ms \<longrightarrow>
      wp (for_each ms (\<lambda>m. do { _ \<leftarrow> sms_consume E P' F' m; ret () })) (\<lambda>_. held w) w)
    \<and> (all_blocked wa_address ''whatsapp'' (db w) ms \<longrightarrow>
      wp (for_each ms (\<lambda>m. do { _ \<leftarrow> wa_consume E S m; ret () })) (\<lambda>_. held w) w)"
  unfolding all_blocked_def list_all_iff
  using assms email_suppressed_never_sent sms_suppressed_never_sent wa_suppressed_never_sent by blast

theorem suppressed_never_sent_witness:
  "wp (for_each [sample_msg, sample_msg] (\<lambda>m. do { _ \<leftarrow> email_consume sample_env None None m; ret () }))
     (\<lambda>_. held (world0 (suppressing ''email'' ''enc-mail'' channel_db)))
     (world0 (suppressing ''email'' ''enc-mail'' channel_db))"
  by (rule suppressed_never_sent [THEN conjunct1, THEN mp])
    (simp_all add: all_blocked_def job_of_sample_msg channel_defs blocked_at_def email_address_def
      email_select_def suppressed_in_def)

end
